(* ===== verification/Prelude.thy ===== *)
theory Prelude
  imports Main "HOL-Library.Word" "HOL-Library.Multiset"
begin

text \<open>
  Shared vocabulary of the development.

  A Rust method that takes \<^verbatim>\<open>&mut self\<close>, may touch the platform and returns
  \<^verbatim>\<open>Result<A, E>\<close> is a function from a state to a result and a new state: the type
  \<open>rsm\<close> below.  \<open>Inl\<close> is \<^verbatim>\<open>Err\<close> and \<open>Inr\<close> is \<^verbatim>\<open>Ok\<close>.  The
  combinators are the control flow the sources use: \<open>bindE\<close> and \<open>seqE\<close> are the
  question-mark operator, \<open>reject_if\<close> is an early return of an error, \<open>outcome_of\<close> is
  \<^verbatim>\<open>if let Err(error) = ...\<close>, \<open>for_each\<close> is a \<^verbatim>\<open>for\<close> loop whose body may
  return early, and \<open>on_field\<close> calls a method of a field.

  Proofs go through \<open>wp\<close>, the weakest precondition of a computation for one
  postcondition per outcome; its rewrite rules are the collection \<open>wp_simps\<close>.
\<close>

named_theorems wp_simps \<open>weakest preconditions of the combinators and platform operations\<close>

section \<open>Computations with state and errors\<close>

type_synonym ('s, 'e, 'a) rsm = "'s \<Rightarrow> ('e + 'a) \<times> 's"

definition ret :: "'a \<Rightarrow> ('s, 'e, 'a) rsm" where
  "ret a s = (Inr a, s)"

definition throw :: "'e \<Rightarrow> ('s, 'e, 'a) rsm" where
  "throw e s = (Inl e, s)"

definition bindE :: "('s, 'e, 'a) rsm \<Rightarrow> ('a \<Rightarrow> ('s, 'e, 'b) rsm) \<Rightarrow> ('s, 'e, 'b) rsm" where
  "bindE m f s = (case m s of (Inl e, t) \<Rightarrow> (Inl e, t) | (Inr a, t) \<Rightarrow> f a t)"

definition seqE :: "('s, 'e, 'a) rsm \<Rightarrow> ('s, 'e, 'b) rsm \<Rightarrow> ('s, 'e, 'b) rsm" where
  "seqE m n = bindE m (\<lambda>_. n)"

definition of_result :: "'e + 'a \<Rightarrow> ('s, 'e, 'a) rsm" where
  "of_result r s = (r, s)"

definition reject_if :: "bool \<Rightarrow> 'e \<Rightarrow> ('s, 'e, unit) rsm" where
  "reject_if c e = (if c then throw e else ret ())"

definition outcome_of :: "('s, 'e, 'a) rsm \<Rightarrow> ('s, 'f, 'e + 'a) rsm" where
  "outcome_of m s = (case m s of (r, t) \<Rightarrow> (Inr r, t))"

definition map_err :: "('e \<Rightarrow> 'f) \<Rightarrow> ('s, 'e, 'a) rsm \<Rightarrow> ('s, 'f, 'a) rsm" where
  "map_err f m s = (case m s of (Inl e, t) \<Rightarrow> (Inl (f e), t) | (Inr a, t) \<Rightarrow> (Inr a, t))"

definition get_self :: "('o \<times> 'w, 'e, 'o) rsm" where
  "get_self s = (Inr (fst s), s)"

definition modify_self :: "('o \<Rightarrow> 'o) \<Rightarrow> ('o \<times> 'w, 'e, unit) rsm" where
  "modify_self f s = (Inr (), (f (fst s), snd s))"

definition on_world :: "('w, 'e, 'a) rsm \<Rightarrow> ('o \<times> 'w, 'e, 'a) rsm" where
  "on_world m s = (case m (snd s) of (r, w) \<Rightarrow> (r, (fst s, w)))"

definition on_field ::
  "('o \<Rightarrow> 'c) \<Rightarrow> ('c \<Rightarrow> 'o \<Rightarrow> 'o) \<Rightarrow> ('c \<times> 'w, 'e, 'a) rsm \<Rightarrow> ('o \<times> 'w, 'e, 'a) rsm" where
  "on_field sel upd m s = (case m (sel (fst s), snd s) of (r, (c, w)) \<Rightarrow> (r, (upd c (fst s), w)))"

fun for_each :: "('x \<Rightarrow> ('s, 'e, unit) rsm) \<Rightarrow> 'x list \<Rightarrow> ('s, 'e, unit) rsm" where
  "for_each f [] = ret ()"
| "for_each f (x # xs) = seqE (f x) (for_each f xs)"

section \<open>Weakest preconditions\<close>

definition wp :: "('s, 'e, 'a) rsm \<Rightarrow> ('a \<Rightarrow> 's \<Rightarrow> bool) \<Rightarrow> ('e \<Rightarrow> 's \<Rightarrow> bool) \<Rightarrow> 's \<Rightarrow> bool" where
  "wp m Q E s = (case m s of (Inl e, t) \<Rightarrow> E e t | (Inr a, t) \<Rightarrow> Q a t)"

lemma wp_ret [wp_simps]: "wp (ret a) Q E s = Q a s"
  by (simp add: wp_def ret_def)

lemma wp_throw [wp_simps]: "wp (throw e) Q E s = E e s"
  by (simp add: wp_def throw_def)

lemma wp_bindE [wp_simps]: "wp (bindE m f) Q E s = wp m (\<lambda>a. wp (f a) Q E) E s"
  by (simp add: wp_def bindE_def split: prod.splits sum.splits)

lemma wp_seqE [wp_simps]: "wp (seqE m n) Q E s = wp m (\<lambda>_. wp n Q E) E s"
  by (simp add: seqE_def wp_bindE)

lemma wp_of_result [wp_simps]:
  "wp (of_result r) Q E s = (case r of Inl e \<Rightarrow> E e s | Inr a \<Rightarrow> Q a s)"
  by (simp add: wp_def of_result_def)

lemma wp_reject_if [wp_simps]: "wp (reject_if c e) Q E s = (if c then E e s else Q () s)"
  by (simp add: reject_if_def wp_ret wp_throw)

lemma wp_outcome_of [wp_simps]:
  "wp (outcome_of m) Q E s = wp m (\<lambda>a. Q (Inr a)) (\<lambda>e. Q (Inl e)) s"
  by (simp add: wp_def outcome_of_def split: prod.splits sum.splits)

lemma wp_map_err [wp_simps]: "wp (map_err f m) Q E s = wp m Q (\<lambda>e. E (f e)) s"
  by (simp add: wp_def map_err_def split: prod.splits sum.splits)

lemma wp_get_self [wp_simps]: "wp get_self Q E s = Q (fst s) s"
  by (simp add: wp_def get_self_def)

lemma wp_modify_self [wp_simps]: "wp (modify_self f) Q E s = Q () (f (fst s), snd s)"
  by (simp add: wp_def modify_self_def)

lemma wp_on_world [wp_simps]:
  "wp (on_world m) Q E s = wp m (\<lambda>a w. Q a (fst s, w)) (\<lambda>e w. E e (fst s, w)) (snd s)"
  by (simp add: wp_def on_world_def split: prod.splits sum.splits)

lemma wp_on_field [wp_simps]:
  "wp (on_field sel upd m) Q E s =
     wp m (\<lambda>a t. Q a (upd (fst t) (fst s), snd t)) (\<lambda>e t. E e (upd (fst t) (fst s), snd t))
       (sel (fst s), snd s)"
  by (simp add: wp_def on_field_def split: prod.splits sum.splits)

lemma wp_if [wp_simps]: "wp (if c then m else n) Q E s = (if c then wp m Q E s else wp n Q E s)"
  by simp

lemma wp_case_sum [wp_simps]:
  "wp (case r of Inl e \<Rightarrow> f e | Inr a \<Rightarrow> g a) Q E s =
     (case r of Inl e \<Rightarrow> wp (f e) Q E s | Inr a \<Rightarrow> wp (g a) Q E s)"
  by (simp split: sum.splits)

lemma wp_case_option [wp_simps]:
  "wp (case r of None \<Rightarrow> m | Some a \<Rightarrow> g a) Q E s =
     (case r of None \<Rightarrow> wp m Q E s | Some a \<Rightarrow> wp (g a) Q E s)"
  by (simp split: option.splits)

lemma wp_for_each_simps [wp_simps]:
  "wp (for_each f []) Q E s = Q () s"
  "wp (for_each f (x # xs)) Q E s = wp (f x) (\<lambda>_. wp (for_each f xs) Q E) E s"
  by (simp_all add: wp_ret wp_seqE)

declare for_each.simps [simp del]

text \<open>Consequence, conjunction and reading a precondition off a concrete run.\<close>

lemma wp_mono:
  assumes "wp m Q E s" and "\<And>a t. Q a t \<Longrightarrow> Q' a t" and "\<And>e t. E e t \<Longrightarrow> E' e t"
  shows "wp m Q' E' s"
  using assms by (auto simp: wp_def split: prod.splits sum.splits)

lemma wp_conj:
  assumes "wp m Q E s" and "wp m Q' E' s"
  shows "wp m (\<lambda>a t. Q a t \<and> Q' a t) (\<lambda>e t. E e t \<and> E' e t) s"
  using assms by (auto simp: wp_def split: prod.splits sum.splits)

lemma wp_resultD:
  assumes "wp m Q E s" and "m s = (r, t)"
  shows "case r of Inl e \<Rightarrow> E e t | Inr a \<Rightarrow> Q a t"
  using assms by (simp add: wp_def split: sum.splits)

lemma wp_OkD: "wp m Q E s \<Longrightarrow> m s = (Inr a, t) \<Longrightarrow> Q a t"
  by (simp add: wp_def)

lemma wp_ErrD: "wp m Q E s \<Longrightarrow> m s = (Inl e, t) \<Longrightarrow> E e t"
  by (simp add: wp_def)

lemma wpI:
  assumes "\<And>e t. m s = (Inl e, t) \<Longrightarrow> E e t" and "\<And>a t. m s = (Inr a, t) \<Longrightarrow> Q a t"
  shows "wp m Q E s"
  using assms by (auto simp: wp_def split: prod.splits sum.splits)

text \<open>A call whose effect does not matter.\<close>

lemma wp_any: "(\<And>a t. Q a t) \<Longrightarrow> (\<And>e t. E e t) \<Longrightarrow> wp m Q E s"
  by (auto simp: wp_def split: prod.splits sum.splits)

text \<open>The loop rule: an invariant kept by every iteration that does not return early.\<close>

lemma wp_for_each_inv:
  assumes step: "\<And>x t. x \<in> set xs \<Longrightarrow> I t \<Longrightarrow> wp (f x) (\<lambda>_. I) E t" and "I s"
  shows "wp (for_each f xs) (\<lambda>_. I) E s"
  using assms
proof (induction xs arbitrary: s)
  case Nil
  then show ?case by (simp add: wp_simps)
next
  case (Cons x xs)
  from Cons.prems have "wp (f x) (\<lambda>_. I) E s" by simp
  then have "wp (f x) (\<lambda>_. wp (for_each f xs) (\<lambda>_. I) E) E s"
    by (rule wp_mono) (use Cons in auto)
  then show ?case by (simp add: wp_simps)
qed

text \<open>A property both outcomes share.\<close>

abbreviation always :: "('s, 'e, 'a) rsm \<Rightarrow> ('s \<Rightarrow> bool) \<Rightarrow> 's \<Rightarrow> bool" where
  "always m I s \<equiv> wp m (\<lambda>_. I) (\<lambda>_. I) s"

lemma alwaysD: "always m I s \<Longrightarrow> m s = (r, t) \<Longrightarrow> I t"
  by (auto simp: wp_def split: sum.splits)

lemma alwaysI: "(\<And>r t. m s = (r, t) \<Longrightarrow> I t) \<Longrightarrow> always m I s"
  by (auto simp: wp_def split: prod.splits sum.splits)

section \<open>Results\<close>

type_synonym 'e checked = "'e + unit"

abbreviation ok :: "'e + unit" where
  "ok \<equiv> Inr ()"

definition is_ok :: "'e + 'a \<Rightarrow> bool" where
  "is_ok r = (case r of Inl _ \<Rightarrow> False | Inr _ \<Rightarrow> True)"

lemma is_ok_simps [simp]: "is_ok (Inl e) = False" "is_ok (Inr a) = True"
  by (simp_all add: is_ok_def)

text \<open>An operation that can also panic, and a check whose panic is \<open>None\<close>.\<close>

datatype 'e fault = Panic | Error 'e

definition checked_result :: "('e + 'a) option \<Rightarrow> ('s, 'e fault, 'a) rsm" where
  "checked_result r = (case r of None \<Rightarrow> throw Panic | Some q \<Rightarrow> map_err Error (of_result q))"

lemma wp_checked_result [wp_simps]:
  "wp (checked_result r) Q E s =
     (case r of None \<Rightarrow> E Panic s | Some q \<Rightarrow> (case q of Inl e \<Rightarrow> E (Error e) s | Inr a \<Rightarrow> Q a s))"
  by (simp add: checked_result_def wp_throw wp_map_err wp_of_result split: option.split sum.split)

text \<open>The pure question-mark operator on results of validation functions.\<close>

definition thenR :: "'e + 'a \<Rightarrow> 'e + 'b \<Rightarrow> 'e + 'b" where
  "thenR r q = (case r of Inl e \<Rightarrow> Inl e | Inr _ \<Rightarrow> q)"

lemma thenR_simps [simp]: "thenR (Inl e) q = Inl e" "thenR (Inr a) q = q"
  by (simp_all add: thenR_def)

lemma thenR_eq_Inr [simp]: "thenR r q = Inr b \<longleftrightarrow> is_ok r \<and> q = Inr b"
  by (cases r) simp_all

lemma is_ok_thenR [simp]: "is_ok (thenR r q) \<longleftrightarrow> is_ok r \<and> is_ok q"
  by (cases r) simp_all

lemma is_ok_if [simp]: "is_ok (if c then Inl e else r) \<longleftrightarrow> \<not> c \<and> is_ok r"
  by simp

lemma is_ok_unit_iff: "is_ok (r :: 'e + unit) \<longleftrightarrow> r = ok"
  by (cases r) simp_all

section \<open>Machine integers\<close>

type_synonym u8 = "8 word"
type_synonym u16 = "16 word"
type_synonym u32 = "32 word"
type_synonym u64 = "64 word"
type_synonym u128 = "128 word"

definition saturating_add :: "'a::len word \<Rightarrow> 'a word \<Rightarrow> 'a word" where
  "saturating_add a b = (if unat a + unat b < 2 ^ LENGTH('a) then a + b else - 1)"

definition saturating_sub :: "'a::len word \<Rightarrow> 'a word \<Rightarrow> 'a word" where
  "saturating_sub a b = (if a < b then 0 else a - b)"

lemma unat_max_word_aux: "unat (- 1 :: 'a::len word) = 2 ^ LENGTH('a) - 1"
  by (simp add: unsigned_minus_1_eq_mask mask_eq_exp_minus_1)

lemma unat_saturating_add:
  "unat (saturating_add a (b :: 'a::len word)) = min (unat a + unat b) (2 ^ LENGTH('a) - 1)"
proof (cases "unat a + unat b < 2 ^ LENGTH('a)")
  case True
  then show ?thesis
    by (simp add: saturating_add_def unat_word_ariths)
next
  case False
  then show ?thesis
    by (simp add: saturating_add_def unat_max_word_aux)
qed

lemma unat_saturating_sub: "unat (saturating_sub a b) = unat a - unat b"
  by (auto simp: saturating_sub_def unat_sub word_less_nat_alt word_le_nat_alt)

end
