(* ===== verification/Rust_Std.thy ===== *)
theory Rust_Std
  imports Prelude "HOL-Library.Char_ord" "HOL-Library.List_Lexorder"
begin

text \<open>
  The parts of Rust's standard library the sources use, as executable functions.

  A \<^verbatim>\<open>String\<close>, a \<^verbatim>\<open>PathBuf\<close> and a \<^verbatim>\<open>Vec<u8>\<close> are their bytes: an
  Isabelle \<open>char\<close> is one byte, so \<open>length\<close> is \<^verbatim>\<open>len()\<close> and the library's
  lexicographic order on \<open>string\<close> is Rust's byte order.  A \<^verbatim>\<open>Duration\<close> and an
  \<^verbatim>\<open>Instant\<close> are nanosecond counts with the bounds of their 64-bit second fields.
  Address text follows \<^verbatim>\<open>core::net\<close>: the printer of both families and the parser
  with its separators, digit limits and embedded IPv4 groups.
\<close>

section \<open>Bytes and ASCII classes\<close>

type_synonym bytes = string
type_synonym path = string

abbreviation byte :: "char \<Rightarrow> nat" where
  "byte c \<equiv> of_char c"

definition is_ascii_digit :: "char \<Rightarrow> bool" where
  "is_ascii_digit c = (48 \<le> byte c \<and> byte c \<le> 57)"

definition is_ascii_alphanumeric :: "char \<Rightarrow> bool" where
  "is_ascii_alphanumeric c =
     (is_ascii_digit c \<or> (65 \<le> byte c \<and> byte c \<le> 90) \<or> (97 \<le> byte c \<and> byte c \<le> 122))"

definition is_ascii_whitespace :: "char \<Rightarrow> bool" where
  "is_ascii_whitespace c = (byte c = 32 \<or> byte c = 9 \<or> byte c = 10 \<or> byte c = 12 \<or> byte c = 13)"

section \<open>UTF-8\<close>

definition cont :: "char \<Rightarrow> bool" where
  "cont c = (128 \<le> byte c \<and> byte c \<le> 191)"

text \<open>
  One step of the decoder on a non-empty input: whether the next code point is well formed,
  and how many bytes it (or the ill-formed prefix that one replacement character stands for)
  takes.
\<close>

definition second_ok :: "nat \<Rightarrow> char \<Rightarrow> bool" where
  "second_ok b c =
     (if b = 224 then 160 \<le> byte c \<and> byte c \<le> 191
      else if b = 237 then 128 \<le> byte c \<and> byte c \<le> 159
      else if b = 240 then 144 \<le> byte c \<and> byte c \<le> 191
      else if b = 244 then 128 \<le> byte c \<and> byte c \<le> 143
      else cont c)"

definition nth_ok :: "(char \<Rightarrow> bool) \<Rightarrow> nat \<Rightarrow> string \<Rightarrow> bool" where
  "nth_ok p i s = (i < length s \<and> p (s ! i))"

definition utf8_step :: "string \<Rightarrow> bool \<times> nat" where
  "utf8_step s =
     (let b = byte (hd s) in
      if b < 128 then (True, 1)
      else if 194 \<le> b \<and> b \<le> 223 then
        (if nth_ok cont 1 s then (True, 2) else (False, 1))
      else if 224 \<le> b \<and> b \<le> 239 then
        (if \<not> nth_ok (second_ok b) 1 s then (False, 1)
         else if \<not> nth_ok cont 2 s then (False, 2)
         else (True, 3))
      else if 240 \<le> b \<and> b \<le> 244 then
        (if \<not> nth_ok (second_ok b) 1 s then (False, 1)
         else if \<not> nth_ok cont 2 s then (False, 2)
         else if \<not> nth_ok cont 3 s then (False, 3)
         else (True, 4))
      else (False, 1))"

lemma utf8_step_progress: "0 < snd (utf8_step s)"
  by (simp add: utf8_step_def Let_def)

lemma utf8_step_pos: "utf8_step s = (v, n) \<Longrightarrow> 0 < n"
  using utf8_step_progress [of s] by simp

function utf8_pieces :: "string \<Rightarrow> (bool \<times> string) list" where
  "utf8_pieces s =
     (if s = [] then []
      else case utf8_step s of (v, n) \<Rightarrow> (v, take n s) # utf8_pieces (drop n s))"
  by pat_completeness auto
termination
  by (relation "measure length") (auto dest!: sym [of _ "utf8_step _"] utf8_step_pos)

declare utf8_pieces.simps [simp del]

definition from_utf8 :: "bytes \<Rightarrow> string option" where
  "from_utf8 s = (if list_all fst (utf8_pieces s) then Some s else None)"

definition from_utf8_lossy :: "bytes \<Rightarrow> string" where
  "from_utf8_lossy s =
     concat (map (\<lambda>(v, p). if v then p else [char_of (239 :: nat), char_of (191 :: nat), char_of (189 :: nat)])
       (utf8_pieces s))"

definition str_chars :: "string \<Rightarrow> string list" where
  "str_chars s = map snd (utf8_pieces s)"

section \<open>Trimming, splitting and joining\<close>

text \<open>The UTF-8 encodings of the code points with the Unicode property White\_Space.\<close>

definition is_whitespace :: "string \<Rightarrow> bool" where
  "is_whitespace ch =
     (case map byte ch of
        [a] \<Rightarrow> (9 \<le> a \<and> a \<le> 13) \<or> a = 32
      | [a, b] \<Rightarrow> a = 194 \<and> (b = 133 \<or> b = 160)
      | [a, b, c] \<Rightarrow>
          (a = 225 \<and> b = 154 \<and> c = 128)
          \<or> (a = 226 \<and> b = 128 \<and> ((128 \<le> c \<and> c \<le> 138) \<or> c = 168 \<or> c = 169 \<or> c = 175))
          \<or> (a = 226 \<and> b = 129 \<and> c = 159)
          \<or> (a = 227 \<and> b = 128 \<and> c = 128)
      | _ \<Rightarrow> False)"

definition trim :: "string \<Rightarrow> string" where
  "trim s =
     concat (rev (dropWhile is_whitespace (rev (dropWhile is_whitespace (str_chars s)))))"

definition take_chars :: "nat \<Rightarrow> string \<Rightarrow> string" where
  "take_chars n s = concat (take n (str_chars s))"

abbreviation newline :: char where
  "newline \<equiv> CHR 0x0A"

definition strip_cr :: "string \<Rightarrow> string" where
  "strip_cr l = (if l \<noteq> [] \<and> last l = CHR 0x0D then butlast l else l)"

fun lines_from :: "string \<Rightarrow> string \<Rightarrow> string list" where
  "lines_from acc [] = (if acc = [] then [] else [rev acc])"
| "lines_from acc (c # cs) =
     (if c = newline then strip_cr (rev acc) # lines_from [] cs else lines_from (c # acc) cs)"

definition str_lines :: "string \<Rightarrow> string list" where
  "str_lines s = lines_from [] s"

fun fields_from :: "string \<Rightarrow> string \<Rightarrow> string list" where
  "fields_from acc [] = (if acc = [] then [] else [rev acc])"
| "fields_from acc (c # cs) =
     (if is_ascii_whitespace c
      then (if acc = [] then fields_from [] cs else rev acc # fields_from [] cs)
      else fields_from (c # acc) cs)"

definition split_ascii_whitespace :: "string \<Rightarrow> string list" where
  "split_ascii_whitespace s = fields_from [] s"

fun join :: "string \<Rightarrow> string list \<Rightarrow> string" where
  "join sep [] = []"
| "join sep [x] = x"
| "join sep (x # y # ys) = x @ sep @ join sep (y # ys)"

definition split_once :: "char \<Rightarrow> string \<Rightarrow> (string \<times> string) option" where
  "split_once c s =
     (if c \<in> set s then Some (takeWhile (\<lambda>d. d \<noteq> c) s, tl (dropWhile (\<lambda>d. d \<noteq> c) s)) else None)"

text \<open>Slicing a string panics, here \<open>None\<close>, out of bounds or inside a code point.\<close>

definition is_char_boundary :: "string \<Rightarrow> nat \<Rightarrow> bool" where
  "is_char_boundary s n = (n = 0 \<or> n = length s \<or> (n < length s \<and> \<not> cont (s ! n)))"

definition str_slice :: "string \<Rightarrow> nat \<Rightarrow> nat \<Rightarrow> string option" where
  "str_slice s a b =
     (if a \<le> b \<and> is_char_boundary s a \<and> is_char_boundary s b then Some (take (b - a) (drop a s)) else None)"

definition path_is_absolute :: "path \<Rightarrow> bool" where
  "path_is_absolute p = (p \<noteq> [] \<and> hd p = CHR ''/'')"

section \<open>Printing and parsing integers\<close>

definition digit_char :: "nat \<Rightarrow> char" where
  "digit_char d = (if d < 10 then char_of (48 + d) else char_of (87 + d))"

fun show_dec :: "nat \<Rightarrow> string" where
  "show_dec n = (if n < 10 then [digit_char n] else show_dec (n div 10) @ [digit_char (n mod 10)])"

fun show_hex :: "nat \<Rightarrow> string" where
  "show_hex n = (if n < 16 then [digit_char n] else show_hex (n div 16) @ [digit_char (n mod 16)])"

declare show_dec.simps [simp del] show_hex.simps [simp del]

text \<open>\<^verbatim>\<open>char::to_digit\<close> for a radix of at most 16.\<close>

definition to_digit :: "nat \<Rightarrow> char \<Rightarrow> nat option" where
  "to_digit radix c =
     (let b = byte c;
          d = (if 48 \<le> b \<and> b \<le> 57 then b - 48
               else if 97 \<le> b \<and> b \<le> 122 then b - 87
               else if 65 \<le> b \<and> b \<le> 90 then b - 55
               else 255)
      in if d < radix then Some d else None)"

fun digits_value :: "nat \<Rightarrow> nat \<Rightarrow> string \<Rightarrow> nat option" where
  "digits_value radix acc [] = Some acc"
| "digits_value radix acc (c # cs) =
     (case to_digit radix c of
        None \<Rightarrow> None
      | Some d \<Rightarrow> digits_value radix (acc * radix + d) cs)"

text \<open>
  \<^verbatim>\<open>from_str_radix\<close> of an unsigned type with the given maximum: one leading plus sign is
  accepted when a digit follows, an empty input is not.
\<close>

definition parse_uint :: "nat \<Rightarrow> nat \<Rightarrow> string \<Rightarrow> nat option" where
  "parse_uint radix maximum s =
     (let ds = (case s of c # cs \<Rightarrow> (if c = CHR ''+'' \<and> cs \<noteq> [] then cs else s) | [] \<Rightarrow> [])
      in if ds = [] then None
         else case digits_value radix 0 ds of
                None \<Rightarrow> None
              | Some v \<Rightarrow> if v \<le> maximum then Some v else None)"

lemma hex_digit_char: "d < 16 \<Longrightarrow> is_ascii_alphanumeric (digit_char d)"
  by (auto simp: digit_char_def is_ascii_alphanumeric_def is_ascii_digit_def of_char_of)

lemma show_hex_chars: "c \<in> set (show_hex n) \<Longrightarrow> is_ascii_alphanumeric c"
proof (induction n rule: show_hex.induct)
  case (1 n)
  have "c \<in> set (if n < 16 then [digit_char n] else show_hex (n div 16) @ [digit_char (n mod 16)])"
    using 1(2) by (simp add: show_hex.simps [of n])
  then show ?case using 1(1) by (auto simp: hex_digit_char split: if_splits)
qed

lemma set_join: "c \<in> set (join sep xs) \<Longrightarrow> c \<in> set sep \<or> (\<exists>x \<in> set xs. c \<in> set x)"
  by (induction sep xs rule: join.induct) auto

text \<open>Lines of a text that is printed line by line.\<close>

lemma lines_from_line:
  "newline \<notin> set l \<Longrightarrow> lines_from acc (l @ newline # rest) = strip_cr (rev acc @ l) # lines_from [] rest"
  by (induction l arbitrary: acc) auto

definition print_lines :: "string list \<Rightarrow> string" where
  "print_lines ls = concat (map (\<lambda>l. l @ [newline]) ls)"

definition clean_line :: "string \<Rightarrow> bool" where
  "clean_line l \<longleftrightarrow> newline \<notin> set l \<and> strip_cr l = l"

lemma str_lines_print:
  assumes "\<And>l. l \<in> set ls \<Longrightarrow> clean_line l"
  shows "str_lines (print_lines ls) = ls"
  unfolding str_lines_def print_lines_def
  using assms by (induction ls) (auto simp: lines_from_line clean_line_def)

lemma to_digit_digit_char:
  assumes "d < radix" and "radix \<le> 16"
  shows "to_digit radix (digit_char d) = Some d"
  using assms by (auto simp: to_digit_def digit_char_def Let_def)

lemma digits_value_append:
  "digits_value radix acc (xs @ ys) =
     (case digits_value radix acc xs of None \<Rightarrow> None | Some v \<Rightarrow> digits_value radix v ys)"
  by (induction xs arbitrary: acc) (auto split: option.splits)

lemma show_dec_not_Nil [simp]: "show_dec n \<noteq> []"
  by (subst show_dec.simps) simp

lemma show_dec_digits: "c \<in> set (show_dec n) \<Longrightarrow> is_ascii_digit c"
proof (induction n rule: show_dec.induct)
  case (1 n)
  have d: "is_ascii_digit (digit_char k)" if "k < 10" for k
    using that by (simp add: is_ascii_digit_def digit_char_def)
  show ?case
  proof (cases "n < 10")
    case True
    then show ?thesis using 1(2) d by (simp add: show_dec.simps)
  next
    case False
    then have "c \<in> set (show_dec (n div 10)) \<or> c = digit_char (n mod 10)"
      using 1(2) by (auto simp: show_dec.simps [of n])
    then show ?thesis using 1(1) False d by auto
  qed
qed

lemma show_dec_no_newline: "newline \<notin> set (show_dec n)"
  using show_dec_digits [of newline n] by (auto simp: is_ascii_digit_def)

lemma digits_value_show_dec: "digits_value 10 0 (show_dec n) = Some n"
proof (induction n rule: show_dec.induct)
  case (1 n)
  show ?case
  proof (cases "n < 10")
    case True
    then show ?thesis
      by (simp add: show_dec.simps [of n] to_digit_digit_char)
  next
    case False
    then have "digits_value 10 0 (show_dec (n div 10)) = Some (n div 10)"
      by (rule 1)
    with False show ?thesis
      by (simp add: show_dec.simps [of n] digits_value_append to_digit_digit_char)
  qed
qed

lemma hd_append_show_dec: "hd (show_dec n @ s) = hd (show_dec n)"
  by (simp add: hd_append)

lemma hd_show_dec_is_digit: "is_ascii_digit (hd (show_dec n))"
  by (rule show_dec_digits [of _ n]) simp

lemma parse_show_dec:
  assumes "n \<le> maximum"
  shows "parse_uint 10 maximum (show_dec n) = Some n"
proof -
  obtain c cs where s: "show_dec n = c # cs" by (cases "show_dec n") auto
  have "is_ascii_digit c" using hd_show_dec_is_digit [of n] s by simp
  then have "c \<noteq> CHR ''+''" by (auto simp: is_ascii_digit_def)
  then show ?thesis
    using assms digits_value_show_dec [of n] s by (simp add: parse_uint_def Let_def)
qed

lemma length_show_dec_less:
  assumes "n < 10 ^ k" and "0 < k"
  shows "length (show_dec n) \<le> k"
  using assms
proof (induction k arbitrary: n)
  case 0
  then show ?case by simp
next
  case (Suc k)
  show ?case
  proof (cases "n < 10")
    case True
    then show ?thesis by (simp add: show_dec.simps)
  next
    case False
    then have "0 < k" using Suc.prems by (cases k) auto
    moreover have "n div 10 < 10 ^ k" using Suc.prems by (simp add: less_mult_imp_div_less)
    ultimately have "length (show_dec (n div 10)) \<le> k" by (rule Suc.IH [rotated])
    then show ?thesis using False by (simp add: show_dec.simps [of n])
  qed
qed

lemma show_dec_no_leading_zero: "10 \<le> n \<Longrightarrow> hd (show_dec n) \<noteq> CHR ''0''"
proof (induction n rule: show_dec.induct)
  case (1 n)
  then have eq: "show_dec n = show_dec (n div 10) @ [digit_char (n mod 10)]"
    by (simp add: show_dec.simps [of n])
  show ?case
  proof (cases "10 \<le> n div 10")
    case True
    then show ?thesis using 1 by (simp add: eq hd_append_show_dec)
  next
    case False
    then have "show_dec (n div 10) = [digit_char (n div 10)]" by (simp add: show_dec.simps)
    moreover have "digit_char (n div 10) \<noteq> CHR ''0''"
    proof -
      have "0 < n div 10" using 1(2) by (simp add: div_greater_zero_iff)
      then have "byte (digit_char (n div 10)) \<noteq> (48 :: nat)"
        using False by (simp add: digit_char_def)
      then show ?thesis by auto
    qed
    ultimately show ?thesis by (simp add: eq)
  qed
qed

section \<open>Durations and instants\<close>

type_synonym Duration = nat
type_synonym Instant = nat

definition nanos_per_sec :: nat where
  "nanos_per_sec = 1000000000"

definition duration_from_secs :: "u64 \<Rightarrow> Duration" where
  "duration_from_secs s = unat s * nanos_per_sec"

definition duration_limit :: nat where
  "duration_limit = 2 ^ 64 * nanos_per_sec"

definition duration_checked_mul :: "Duration \<Rightarrow> u32 \<Rightarrow> Duration option" where
  "duration_checked_mul d m =
     (if d * unat m < duration_limit then Some (d * unat m) else None)"

text \<open>The second count of an instant is a signed 64-bit number.\<close>

definition instant_limit :: nat where
  "instant_limit = 2 ^ 63 * nanos_per_sec"

definition instant_checked_add :: "Instant \<Rightarrow> Duration \<Rightarrow> Instant option" where
  "instant_checked_add t d = (if t + d < instant_limit then Some (t + d) else None)"

definition saturating_duration_since :: "Instant \<Rightarrow> Instant \<Rightarrow> Duration" where
  "saturating_duration_since a b = a - b"

end
