(* ===== verification/Routing.thy ===== *)
theory Routing
  imports Rust_Std
begin

text \<open>
  \<^verbatim>\<open>core/routing/src/lib.rs\<close>: stateless quality scoring and node selection.

  All quantities keep their Rust widths.  The release profile turns arithmetic overflow into a
  panic, so the lemmas on exactness (the word computation equals the one over the natural
  numbers) are also the proof that scoring never panics.
\<close>

section \<open>Data\<close>

record Measurements =
  available :: bool
  latency_ms :: u32
  jitter_ms :: u32
  packet_loss_basis_points :: u16
  available_bandwidth_mbps :: u32

record NodeCandidate =
  node_id :: string
  measurements :: Measurements

record ScoreWeights =
  w_latency :: u16
  w_jitter :: u16
  w_packet_loss :: u16
  w_bandwidth :: u16

record ScoreLimits =
  maximum_latency_ms :: u32
  maximum_jitter_ms :: u32
  target_bandwidth_mbps :: u32

record RoutingPolicy =
  weights :: ScoreWeights
  limits :: ScoreLimits

definition ScoreWeights_default :: ScoreWeights where
  "ScoreWeights_default = \<lparr>w_latency = 40, w_jitter = 15, w_packet_loss = 30, w_bandwidth = 15\<rparr>"

definition ScoreLimits_default :: ScoreLimits where
  "ScoreLimits_default =
     \<lparr>maximum_latency_ms = 1000, maximum_jitter_ms = 500, target_bandwidth_mbps = 100\<rparr>"

definition RoutingPolicy_default :: RoutingPolicy where
  "RoutingPolicy_default = \<lparr>weights = ScoreWeights_default, limits = ScoreLimits_default\<rparr>"

datatype RoutingError = InvalidPolicy string | InvalidMeasurements string | NoAvailableNodes

fun RoutingError_display :: "RoutingError \<Rightarrow> string" where
  "RoutingError_display (InvalidPolicy reason) = ''invalid routing policy: '' @ reason"
| "RoutingError_display (InvalidMeasurements reason) = ''invalid node measurements: '' @ reason"
| "RoutingError_display NoAvailableNodes = ''no available nodes''"

definition QUALITY_MAX :: u32 where
  "QUALITY_MAX = 10000"

section \<open>Scoring\<close>

definition u32_try_from :: "u64 \<Rightarrow> u32 option" where
  "u32_try_from n = (if unat n < 2 ^ 32 then Some (ucast n) else None)"

definition unwrap_or :: "'a option \<Rightarrow> 'a \<Rightarrow> 'a" where
  "unwrap_or x d = (case x of None \<Rightarrow> d | Some a \<Rightarrow> a)"

definition inverse_quality :: "u32 \<Rightarrow> u32 \<Rightarrow> u32" where
  "inverse_quality v maximum =
     (let normalized = (ucast v :: u64) * ucast QUALITY_MAX div ucast maximum
      in saturating_sub QUALITY_MAX (unwrap_or (u32_try_from normalized) (- 1)))"

definition direct_quality :: "u32 \<Rightarrow> u32 \<Rightarrow> u32" where
  "direct_quality v target =
     (let normalized = (ucast v :: u64) * ucast QUALITY_MAX div ucast target
      in min (unwrap_or (u32_try_from normalized) (- 1)) QUALITY_MAX)"

definition total_weight :: "RoutingPolicy \<Rightarrow> u32" where
  "total_weight p =
     ucast (w_latency (weights p)) + ucast (w_jitter (weights p))
     + ucast (w_packet_loss (weights p)) + ucast (w_bandwidth (weights p))"

definition RoutingPolicy_validate :: "RoutingPolicy \<Rightarrow> RoutingError checked" where
  "RoutingPolicy_validate p =
     (if total_weight p = 0 then Inl (InvalidPolicy ''all weights are zero'')
      else if maximum_latency_ms (limits p) = 0 \<or> maximum_jitter_ms (limits p) = 0
              \<or> target_bandwidth_mbps (limits p) = 0
        then Inl (InvalidPolicy ''normalization limits must be non-zero'')
      else ok)"

definition score :: "RoutingPolicy \<Rightarrow> Measurements \<Rightarrow> RoutingError + u32" where
  "score p m =
     thenR (RoutingPolicy_validate p)
      (if \<not> available m then Inr 0
       else if 10000 < packet_loss_basis_points m
         then Inl (InvalidMeasurements ''packet loss exceeds 100 percent'')
       else
         (let latency = inverse_quality (latency_ms m) (maximum_latency_ms (limits p));
              jitter = inverse_quality (jitter_ms m) (maximum_jitter_ms (limits p));
              loss = QUALITY_MAX - ucast (packet_loss_basis_points m);
              bandwidth = direct_quality (available_bandwidth_mbps m) (target_bandwidth_mbps (limits p));
              total = total_weight p;
              weighted_sum =
                (ucast latency :: u64) * ucast (w_latency (weights p))
                + ucast jitter * ucast (w_jitter (weights p))
                + ucast loss * ucast (w_packet_loss (weights p))
                + ucast bandwidth * ucast (w_bandwidth (weights p))
          in Inr (unwrap_or (u32_try_from (weighted_sum div ucast total)) QUALITY_MAX)))"

section \<open>Selection\<close>

datatype Ordering = Less | Equal | Greater

definition cmp :: "'a::linorder \<Rightarrow> 'a \<Rightarrow> Ordering" where
  "cmp a b = (if a < b then Less else if a = b then Equal else Greater)"

definition then_with :: "Ordering \<Rightarrow> Ordering \<Rightarrow> Ordering" where
  "then_with a b = (if a = Equal then b else a)"

definition compare_rank :: "NodeCandidate \<times> u32 \<Rightarrow> NodeCandidate \<times> u32 \<Rightarrow> Ordering" where
  "compare_rank left right =
     then_with (cmp (snd left) (snd right)) (cmp (node_id (fst right)) (node_id (fst left)))"

fun best_ranked ::
  "RoutingPolicy \<Rightarrow> NodeCandidate \<times> u32 \<Rightarrow> NodeCandidate list \<Rightarrow> RoutingError + NodeCandidate" where
  "best_ranked p best [] = Inr (fst best)"
| "best_ranked p best (n # ns) =
     (case score p (measurements n) of
        Inl e \<Rightarrow> Inl e
      | Inr s \<Rightarrow> best_ranked p (if compare_rank (n, s) best = Greater then (n, s) else best) ns)"

definition select :: "RoutingPolicy \<Rightarrow> NodeCandidate list \<Rightarrow> RoutingError + NodeCandidate" where
  "select p candidates =
     (case filter (\<lambda>n. available (measurements n)) candidates of
        [] \<Rightarrow> Inl NoAvailableNodes
      | n # ns \<Rightarrow>
          (case score p (measurements n) of
             Inl e \<Rightarrow> Inl e
           | Inr s \<Rightarrow> best_ranked p (n, s) ns))"

section \<open>Exactness of the arithmetic\<close>

lemma unat_ucast_32_64 [simp]: "unat (ucast (x :: u32) :: u64) = unat x"
  by transfer simp

lemma unat_ucast_16_32 [simp]: "unat (ucast (x :: u16) :: u32) = unat x"
  by transfer simp

lemma unat_ucast_16_64 [simp]: "unat (ucast (x :: u16) :: u64) = unat x"
  by transfer simp

lemma unat_u32_bound: "unat (x :: u32) < 4294967296"
  using unsigned_less [of x] by simp

lemma unat_u16_bound: "unat (x :: u16) < 65536"
  using unsigned_less [of x] by simp

lemma unat_QUALITY_MAX [simp]: "unat QUALITY_MAX = 10000"
  by (simp add: QUALITY_MAX_def)

text \<open>The widened product of a measurement and the quality scale fits 64 bits.\<close>

lemma unat_normalized:
  "unat ((ucast (v :: u32) :: u64) * ucast QUALITY_MAX div ucast (m :: u32))
     = unat v * 10000 div unat m"
proof -
  have "unat v * 10000 < 2 ^ 64" using unat_u32_bound [of v] by simp
  then have "unat ((ucast v :: u64) * ucast QUALITY_MAX) = unat v * 10000"
    by (simp add: unat_word_ariths)
  then show ?thesis by (simp add: unat_div_distrib)
qed

lemma unat_clamped:
  "unat (unwrap_or (u32_try_from n) (- 1)) = min (unat n) (2 ^ 32 - 1)"
  by (auto simp: u32_try_from_def unwrap_or_def unat_max_word_aux unsigned_ucast_eq
      take_bit_nat_eq_self_iff min_def)

lemma unat_inverse_quality:
  "unat (inverse_quality v m) = 10000 - unat v * 10000 div unat m"
  by (simp add: inverse_quality_def Let_def unat_saturating_sub unat_clamped unat_normalized min_def)

lemma unat_direct_quality:
  "unat (direct_quality v m) = min (unat v * 10000 div unat m) 10000"
proof -
  have "unat (min a b) = min (unat a) (unat b)" for a b :: u32
    by (simp add: min_def word_le_nat_alt)
  then show ?thesis
    by (simp add: direct_quality_def Let_def unat_clamped unat_normalized)
qed

lemma unat_total_weight:
  "unat (total_weight p) =
     unat (w_latency (weights p)) + unat (w_jitter (weights p))
     + unat (w_packet_loss (weights p)) + unat (w_bandwidth (weights p))"
  using unat_u16_bound [of "w_latency (weights p)"] unat_u16_bound [of "w_jitter (weights p)"]
    unat_u16_bound [of "w_packet_loss (weights p)"] unat_u16_bound [of "w_bandwidth (weights p)"]
  by (simp add: total_weight_def unat_word_ariths)

section \<open>The score as a weighted average\<close>

text \<open>The reference definition over the natural numbers: no widths, no clamping.\<close>

definition quality_sum :: "RoutingPolicy \<Rightarrow> Measurements \<Rightarrow> nat" where
  "quality_sum p m =
     (10000 - unat (latency_ms m) * 10000 div unat (maximum_latency_ms (limits p)))
       * unat (w_latency (weights p))
     + (10000 - unat (jitter_ms m) * 10000 div unat (maximum_jitter_ms (limits p)))
       * unat (w_jitter (weights p))
     + (10000 - unat (packet_loss_basis_points m)) * unat (w_packet_loss (weights p))
     + min (unat (available_bandwidth_mbps m) * 10000 div unat (target_bandwidth_mbps (limits p))) 10000
       * unat (w_bandwidth (weights p))"

definition reference_score :: "RoutingPolicy \<Rightarrow> Measurements \<Rightarrow> nat" where
  "reference_score p m = quality_sum p m div unat (total_weight p)"

definition valid_loss :: "Measurements \<Rightarrow> bool" where
  "valid_loss m \<longleftrightarrow> unat (packet_loss_basis_points m) \<le> 10000"

lemma quality_sum_bound: "quality_sum p m \<le> 10000 * unat (total_weight p)"
  unfolding quality_sum_def unat_total_weight add_mult_distrib2
  by (intro add_mono mult_le_mono1) simp_all

lemma reference_score_bound: "reference_score p m \<le> 10000"
proof (cases "unat (total_weight p) = 0")
  case True
  then show ?thesis by (simp add: reference_score_def)
next
  case False
  have "reference_score p m \<le> 10000 * unat (total_weight p) div unat (total_weight p)"
    unfolding reference_score_def by (rule div_le_mono [OF quality_sum_bound])
  with False show ?thesis by simp
qed

lemma quality_sum_mono:
  assumes "unat (latency_ms m') \<le> unat (latency_ms m)" and "unat (jitter_ms m') \<le> unat (jitter_ms m)"
    and "unat (packet_loss_basis_points m') \<le> unat (packet_loss_basis_points m)"
    and "unat (available_bandwidth_mbps m) \<le> unat (available_bandwidth_mbps m')"
  shows "quality_sum p m \<le> quality_sum p m'"
  unfolding quality_sum_def
  by (intro add_mono mult_le_mono1 min.mono diff_le_mono2 div_le_mono assms order_refl)

lemma total_weight_bound: "unat (total_weight p) \<le> 4 * 65535"
  using unat_u16_bound [of "w_latency (weights p)"] unat_u16_bound [of "w_jitter (weights p)"]
    unat_u16_bound [of "w_packet_loss (weights p)"] unat_u16_bound [of "w_bandwidth (weights p)"]
  by (simp add: unat_total_weight)

lemma valid_loss_iff: "valid_loss m \<longleftrightarrow> \<not> 10000 < packet_loss_basis_points m"
  by (auto simp: valid_loss_def word_less_nat_alt)

lemma unat_loss:
  assumes "valid_loss m"
  shows "unat (QUALITY_MAX - ucast (packet_loss_basis_points m))
    = 10000 - unat (packet_loss_basis_points m)"
  using assms by (simp add: unat_sub word_le_nat_alt valid_loss_def)

lemma unat_weighted_sum:
  assumes "valid_loss m"
  shows "unat ((ucast (inverse_quality (latency_ms m) (maximum_latency_ms (limits p))) :: u64)
           * ucast (w_latency (weights p))
         + ucast (inverse_quality (jitter_ms m) (maximum_jitter_ms (limits p)))
           * ucast (w_jitter (weights p))
         + ucast (QUALITY_MAX - ucast (packet_loss_basis_points m)) * ucast (w_packet_loss (weights p))
         + ucast (direct_quality (available_bandwidth_mbps m) (target_bandwidth_mbps (limits p)))
           * ucast (w_bandwidth (weights p)))
       = quality_sum p m" (is "unat (?a + ?b + ?c + ?d) = _")
proof -
  have small: "quality_sum p m < 2 ^ 64"
    using quality_sum_bound [of p m] total_weight_bound [of p] by simp
  then show ?thesis
    unfolding quality_sum_def
    by (simp add: unat_word_ariths unat_inverse_quality unat_direct_quality unat_loss [OF assms]
        mod_simps)
qed

lemma score_exact:
  assumes "RoutingPolicy_validate p = ok" and "available m" and "valid_loss m"
  shows "\<exists>s. score p m = Inr s \<and> unat s = reference_score p m"
proof -
  have "unat (unwrap_or (u32_try_from n) QUALITY_MAX) = unat n" if "unat n \<le> 10000" for n
    using that by (simp add: u32_try_from_def unwrap_or_def unsigned_ucast_eq take_bit_nat_eq_self)
  with assms show ?thesis
    using reference_score_bound [of p m] unat_weighted_sum [OF assms(3), of p]
    by (simp add: score_def Let_def valid_loss_iff unat_div_distrib reference_score_def)
qed

lemma score_unavailable: "RoutingPolicy_validate p = ok \<Longrightarrow> \<not> available m \<Longrightarrow> score p m = Inr 0"
  by (simp add: score_def)

lemma score_Inr_iff:
  "(\<exists>s. score p m = Inr s) \<longleftrightarrow> RoutingPolicy_validate p = ok \<and> (available m \<longrightarrow> valid_loss m)"
proof (cases "RoutingPolicy_validate p")
  case (Inl e)
  then show ?thesis by (simp add: score_def)
next
  case (Inr u)
  then show ?thesis
    using score_exact [of p m] score_unavailable [of p m]
    by (auto simp: score_def valid_loss_iff)
qed

section \<open>Ranking\<close>

lemma compare_rank_Greater:
  "compare_rank (n, s) (m, t) = Greater \<longleftrightarrow> t < s \<or> (s = t \<and> node_id n < node_id m)"
  by (auto simp: compare_rank_def then_with_def cmp_def)

text \<open>\<open>dominates p n m\<close>: the pair of \<open>n\<close> and its score does not rank below that of \<open>m\<close>.\<close>

definition dominates :: "RoutingPolicy \<Rightarrow> NodeCandidate \<Rightarrow> NodeCandidate \<Rightarrow> bool" where
  "dominates p n m \<longleftrightarrow>
     (\<exists>s t. score p (measurements n) = Inr s \<and> score p (measurements m) = Inr t \<and>
        (t < s \<or> (t = s \<and> node_id n \<le> node_id m)))"

lemma dominates_trans: "dominates p a b \<Longrightarrow> dominates p b c \<Longrightarrow> dominates p a c"
  by (fastforce simp: dominates_def)

lemma dominates_refl: "score p (measurements n) = Inr s \<Longrightarrow> dominates p n n"
  by (simp add: dominates_def)

lemma dominates_antisym:
  "dominates p a b \<Longrightarrow> dominates p b a \<Longrightarrow>
     node_id a = node_id b \<and> score p (measurements a) = score p (measurements b)"
  by (auto simp: dominates_def)

lemma best_ranked_ok:
  assumes "best_ranked p (b, s) ns = Inr n" and "score p (measurements b) = Inr s"
  shows "n \<in> insert b (set ns) \<and> (\<forall>m \<in> insert b (set ns). dominates p n m)"
  using assms
proof (induction ns arbitrary: b s)
  case Nil
  then show ?case by (simp add: dominates_refl)
next
  case (Cons c ns)
  from Cons.prems obtain t where t: "score p (measurements c) = Inr t"
    by (auto split: sum.splits)
  define b' where "b' = (if compare_rank (c, t) (b, s) = Greater then (c, t) else (b, s))"
  from Cons.prems t have run: "best_ranked p (fst b', snd b') ns = Inr n"
    by (simp add: b'_def)
  have sc: "score p (measurements (fst b')) = Inr (snd b')"
    using t Cons.prems by (simp add: b'_def)
  have dom: "dominates p (fst b') c" "dominates p (fst b') b"
    using t Cons.prems by (auto simp: b'_def dominates_def compare_rank_Greater)
  from Cons.IH [OF run sc] dom show ?case
    by (auto simp: b'_def intro: dominates_trans split: if_splits)
qed

lemma best_ranked_total:
  assumes "\<forall>m \<in> set ns. \<exists>s. score p (measurements m) = Inr s"
  shows "\<exists>n. best_ranked p b ns = Inr n"
  using assms by (induction ns arbitrary: b) (auto split: sum.splits)

lemma best_ranked_error:
  "best_ranked p b ns = Inl e \<Longrightarrow> \<exists>m \<in> set ns. score p (measurements m) = Inl e"
  by (induction ns arbitrary: b) (auto split: sum.splits)

lemma select_ok:
  assumes "select p cs = Inr n"
  shows "n \<in> set cs \<and> available (measurements n) \<and>
    (\<forall>m \<in> set cs. available (measurements m) \<longrightarrow> dominates p n m)"
proof -
  obtain b ns s where f: "filter (\<lambda>n. available (measurements n)) cs = b # ns"
    and sc: "score p (measurements b) = Inr s" and run: "best_ranked p (b, s) ns = Inr n"
    using assms by (auto simp: select_def split: list.splits sum.splits)
  have "set (b # ns) = {m \<in> set cs. available (measurements m)}"
    using f by (metis set_filter)
  then show ?thesis using best_ranked_ok [OF run sc] by auto
qed

lemma select_succeeds:
  assumes "RoutingPolicy_validate p = ok" and "\<exists>m \<in> set cs. available (measurements m)"
    and "\<forall>m \<in> set cs. available (measurements m) \<longrightarrow> valid_loss (measurements m)"
  shows "\<exists>n. select p cs = Inr n"
proof -
  obtain b ns where f: "filter (\<lambda>n. available (measurements n)) cs = b # ns"
    using assms(2) by (metis (no_types, lifting) filter_empty_conv neq_Nil_conv)
  have "\<forall>m \<in> set (b # ns). \<exists>s. score p (measurements m) = Inr s"
    using assms(1,3) unfolding score_Inr_iff f [symmetric] by auto
  then obtain s where "score p (measurements b) = Inr s"
    and "\<forall>m \<in> set ns. \<exists>s. score p (measurements m) = Inr s" by auto
  then show ?thesis using best_ranked_total f by (auto simp: select_def)
qed

section \<open>Properties\<close>

text \<open>
  C24. A computed score is an integer between 0 and 10000, and for an available node it is exactly
  the weighted average of the four normalised qualities over the natural numbers: none of the
  32-bit and 64-bit operations of the scoring code overflows.
\<close>

theorem score_is_weighted_average:
  assumes "score p m = Inr s"
  shows "unat s \<le> 10000 \<and> unat s = (if available m then reference_score p m else 0)"
proof (cases "available m")
  case True
  with assms have "RoutingPolicy_validate p = ok" "valid_loss m"
    using score_Inr_iff [of p m] by auto
  then show ?thesis
    using True assms score_exact [of p m] reference_score_bound [of p m] by auto
next
  case False
  with assms show ?thesis by (simp add: score_def)
qed

theorem score_is_weighted_average_witness:
  "\<exists>s. score RoutingPolicy_default
       \<lparr>available = True, latency_ms = 90, jitter_ms = 5, packet_loss_basis_points = 0,
        available_bandwidth_mbps = 100\<rparr> = Inr s \<and> unat s = 9625 \<and> unat s \<le> 10000"
proof -
  let ?m = "\<lparr>available = True, latency_ms = 90, jitter_ms = 5, packet_loss_basis_points = 0,
        available_bandwidth_mbps = 100\<rparr>"
  have "RoutingPolicy_validate RoutingPolicy_default = ok" by code_simp
  moreover have "valid_loss ?m" by (simp add: valid_loss_def)
  ultimately obtain s where s: "score RoutingPolicy_default ?m = Inr s"
    using score_exact [of RoutingPolicy_default ?m] by auto
  have "reference_score RoutingPolicy_default ?m = 9625"
    by (simp add: reference_score_def quality_sum_def unat_total_weight RoutingPolicy_default_def
        ScoreWeights_default_def ScoreLimits_default_def)
  then show ?thesis using s score_is_weighted_average [OF s] by simp
qed

text \<open>
  C25. Scoring is monotone: when a node's latency, jitter and packet loss do not grow and its
  bandwidth does not shrink, its score does not drop.
\<close>

theorem score_monotone:
  assumes "score p m = Inr s" and "score p m' = Inr s'"
    and "available m'"
    and "latency_ms m' \<le> latency_ms m" and "jitter_ms m' \<le> jitter_ms m"
    and "packet_loss_basis_points m' \<le> packet_loss_basis_points m"
    and "available_bandwidth_mbps m \<le> available_bandwidth_mbps m'"
  shows "s \<le> s'"
proof (cases "available m")
  case True
  have ok: "RoutingPolicy_validate p = ok" "valid_loss m" "valid_loss m'"
    using assms(1-3) True score_Inr_iff [of p m] score_Inr_iff [of p m'] by auto
  have "reference_score p m \<le> reference_score p m'"
    unfolding reference_score_def
    by (intro div_le_mono quality_sum_mono) (use assms in \<open>simp_all add: word_le_nat_alt\<close>)
  then show ?thesis
    using score_exact [OF ok(1) True ok(2)] score_exact [OF ok(1) assms(3) ok(3)] assms(1,2)
    by (auto simp: word_le_nat_alt)
next
  case False
  with assms(1) have "s = 0" by (simp add: score_def)
  then show ?thesis by simp
qed

theorem score_monotone_witness:
  "\<exists>s s'. score RoutingPolicy_default
       \<lparr>available = True, latency_ms = 90, jitter_ms = 5, packet_loss_basis_points = 7,
        available_bandwidth_mbps = 50\<rparr> = Inr s \<and>
     score RoutingPolicy_default
       \<lparr>available = True, latency_ms = 40, jitter_ms = 5, packet_loss_basis_points = 0,
        available_bandwidth_mbps = 100\<rparr> = Inr s' \<and> s \<le> s'"
proof -
  let ?m = "\<lparr>available = True, latency_ms = 90, jitter_ms = 5, packet_loss_basis_points = 7,
        available_bandwidth_mbps = 50\<rparr>"
  let ?m' = "\<lparr>available = True, latency_ms = 40, jitter_ms = 5, packet_loss_basis_points = 0,
        available_bandwidth_mbps = 100\<rparr>"
  have v: "RoutingPolicy_validate RoutingPolicy_default = ok" by code_simp
  obtain s s' where s: "score RoutingPolicy_default ?m = Inr s" "score RoutingPolicy_default ?m' = Inr s'"
    using score_exact [OF v, of ?m] score_exact [OF v, of ?m'] by (auto simp: valid_loss_def)
  have "s \<le> s'" by (rule score_monotone [OF s]) simp_all
  with s show ?thesis by blast
qed

text \<open>
  C26. A selection is optimal: the chosen node is one of the candidates, it is available, and no
  available candidate ranks above it, neither by score nor, at an equal score, by a smaller
  identifier.
\<close>

theorem select_is_best:
  assumes "select p cs = Inr n"
  shows "n \<in> set cs \<and> available (measurements n) \<and>
    (\<forall>m \<in> set cs. available (measurements m) \<longrightarrow>
       (\<exists>s t. score p (measurements n) = Inr s \<and> score p (measurements m) = Inr t \<and>
          (t < s \<or> t = s \<and> node_id n \<le> node_id m)))"
  using select_ok [OF assms] by (simp add: dominates_def)

definition example_node :: "string \<Rightarrow> u32 \<Rightarrow> bool \<Rightarrow> NodeCandidate" where
  "example_node i l a =
     \<lparr>node_id = i, measurements = \<lparr>available = a, latency_ms = l, jitter_ms = 5,
        packet_loss_basis_points = 0, available_bandwidth_mbps = 100\<rparr>\<rparr>"

theorem select_is_best_witness:
  "\<exists>n. select RoutingPolicy_default [example_node ''a'' 1 False, example_node ''b'' 80 True] = Inr n
     \<and> node_id n = ''b''"
proof -
  have v: "RoutingPolicy_validate RoutingPolicy_default = ok" by code_simp
  obtain n where n: "select RoutingPolicy_default
      [example_node ''a'' 1 False, example_node ''b'' 80 True] = Inr n"
    using select_succeeds [OF v, of "[example_node ''a'' 1 False, example_node ''b'' 80 True]"]
    by (auto simp: example_node_def valid_loss_def)
  from select_is_best [OF n] have "n = example_node ''b'' 80 True"
    by (auto simp: example_node_def)
  with n show ?thesis by (simp add: example_node_def)
qed

text \<open>
  C27. The order of the candidate list does not decide the selection: every permutation of it
  selects a node with the same identifier and the same score, and the very same node when the
  identifiers are distinct.  (Of several equal-scored candidates with one identifier, which the
  code accepts, the first one is returned.)
\<close>

theorem select_order_independent:
  assumes "mset cs = mset ds" and "select p cs = Inr n"
  shows "\<exists>k. select p ds = Inr k \<and> node_id k = node_id n \<and>
    score p (measurements k) = score p (measurements n) \<and> (distinct (map node_id cs) \<longrightarrow> k = n)"
proof -
  note n = select_ok [OF assms(2)]
  have sets: "set ds = set cs" using assms(1) by (metis set_mset_mset)
  have score_ok: "\<exists>s. score p (measurements m) = Inr s"
    if "m \<in> set cs" and "available (measurements m)" for m
    using n that by (auto simp: dominates_def)
  have "RoutingPolicy_validate p = ok" using score_ok n score_Inr_iff by blast
  moreover have "\<exists>m \<in> set ds. available (measurements m)" using n sets by auto
  moreover have "\<forall>m \<in> set ds. available (measurements m) \<longrightarrow> valid_loss (measurements m)"
    using score_ok sets score_Inr_iff by blast
  ultimately obtain k where k: "select p ds = Inr k"
    using select_succeeds by blast
  have same: "node_id k = node_id n \<and> score p (measurements k) = score p (measurements n)"
    using select_ok [OF k] n sets by (intro dominates_antisym) auto
  then have "k = n" if "distinct (map node_id cs)"
    using that n select_ok [OF k] sets by (auto simp: distinct_map dest: inj_onD)
  then show ?thesis using k same by blast
qed

theorem select_order_independent_witness:
  "\<exists>n. select RoutingPolicy_default [example_node ''a'' 50 True, example_node ''b'' 50 True] = Inr n
     \<and> select RoutingPolicy_default [example_node ''b'' 50 True, example_node ''a'' 50 True] = Inr n"
proof -
  have v: "RoutingPolicy_validate RoutingPolicy_default = ok" by code_simp
  obtain n where n: "select RoutingPolicy_default
      [example_node ''a'' 50 True, example_node ''b'' 50 True] = Inr n"
    using select_succeeds [OF v, of "[example_node ''a'' 50 True, example_node ''b'' 50 True]"]
    by (auto simp: example_node_def valid_loss_def)
  have "select RoutingPolicy_default [example_node ''b'' 50 True, example_node ''a'' 50 True] = Inr n"
    using select_order_independent [OF _ n, of "[example_node ''b'' 50 True, example_node ''a'' 50 True]"]
    by (auto simp: example_node_def)
  with n show ?thesis by blast
qed

end
