(* ===== verification/Selector.thy ===== *)
theory Selector
  imports Routing
begin

text \<open>
  \<^verbatim>\<open>core/routing/src/selector.rs\<close>: the stateful route selector.  Its operations are
  functions on the record \<open>RouteSelector\<close>; \<open>RouteSelector_select\<close> returns the result and the
  new state.
\<close>

section \<open>State and operations\<close>

record SelectionPolicy =
  minimum_dwell_time :: Duration
  switch_margin :: u32
  failure_threshold :: u32
  circuit_cooldown :: Duration

definition SelectionPolicy_default :: SelectionPolicy where
  "SelectionPolicy_default =
     \<lparr>minimum_dwell_time = duration_from_secs 30, switch_margin = 500, failure_threshold = 3,
      circuit_cooldown = duration_from_secs 60\<rparr>"

record CircuitState =
  circuit_failures :: u32
  open_until :: "Instant option"

record RouteSelector =
  scoring :: RoutingPolicy
  stability :: SelectionPolicy
  current :: "(string \<times> Instant) option"
  circuits :: "string \<rightharpoonup> CircuitState"

definition RouteSelector_new :: "RoutingPolicy \<Rightarrow> SelectionPolicy \<Rightarrow> RouteSelector" where
  "RouteSelector_new p q = \<lparr>scoring = p, stability = q, current = None, circuits = Map.empty\<rparr>"

definition circuit_is_open :: "RouteSelector \<Rightarrow> string \<Rightarrow> Instant \<Rightarrow> bool" where
  "circuit_is_open self i now =
     (case circuits self i of
        None \<Rightarrow> False
      | Some st \<Rightarrow> (case open_until st of None \<Rightarrow> False | Some t \<Rightarrow> now < t))"

definition find_candidate :: "NodeCandidate list \<Rightarrow> string \<Rightarrow> NodeCandidate option" where
  "find_candidate cs i = find (\<lambda>c. node_id c = i) cs"

text \<open>
  The branch on the current route: \<open>Inr (Some cur)\<close> is the early return of the current
  candidate, \<open>Inr None\<close> falls through to the best one.
\<close>

definition keep_current ::
  "RouteSelector \<Rightarrow> NodeCandidate list \<Rightarrow> Instant \<Rightarrow> NodeCandidate \<Rightarrow> RoutingError + NodeCandidate option" where
  "keep_current self cs now best =
     (case current self of
        None \<Rightarrow> Inr None
      | Some (current_id, selected_at) \<Rightarrow>
          (case find_candidate cs current_id of
             None \<Rightarrow> Inr None
           | Some cur \<Rightarrow>
               if available (measurements cur) \<and> \<not> circuit_is_open self current_id now
               then (let dwell_elapsed =
                           minimum_dwell_time (stability self) \<le> saturating_duration_since now selected_at
                     in case score (scoring self) (measurements cur) of
                          Inl e \<Rightarrow> Inl e
                        | Inr current_score \<Rightarrow>
                            (case score (scoring self) (measurements best) of
                               Inl e \<Rightarrow> Inl e
                             | Inr best_score \<Rightarrow>
                                 (let enough_improvement =
                                        saturating_add current_score (switch_margin (stability self))
                                          \<le> best_score
                                  in if \<not> dwell_elapsed \<or> \<not> enough_improvement
                                     then Inr (Some cur) else Inr None)))
               else Inr None))"

definition RouteSelector_select ::
  "RouteSelector \<Rightarrow> NodeCandidate list \<Rightarrow> Instant \<Rightarrow> (RoutingError + NodeCandidate) \<times> RouteSelector" where
  "RouteSelector_select self cs now =
     (let eligible = filter (\<lambda>c. \<not> circuit_is_open self (node_id c) now) cs
      in case select (scoring self) eligible of
           Inl e \<Rightarrow> (Inl e, self)
         | Inr chosen \<Rightarrow>
             (case find_candidate cs (node_id chosen) of
                None \<Rightarrow> (Inl NoAvailableNodes, self)
              | Some best \<Rightarrow>
                  (case keep_current self cs now best of
                     Inl e \<Rightarrow> (Inl e, self)
                   | Inr (Some cur) \<Rightarrow> (Inr cur, self)
                   | Inr None \<Rightarrow>
                       (Inr best,
                        if map_option fst (current self) \<noteq> Some (node_id best)
                        then self\<lparr>current := Some (node_id best, now)\<rparr> else self))))"

definition record_failure :: "RouteSelector \<Rightarrow> string \<Rightarrow> Instant \<Rightarrow> RouteSelector" where
  "record_failure self i now =
     (let st = (case circuits self i of
                  None \<Rightarrow> \<lparr>circuit_failures = 0, open_until = None\<rparr>
                | Some st \<Rightarrow> st);
          st1 = st\<lparr>circuit_failures := saturating_add (circuit_failures st) 1\<rparr>;
          st2 = (if failure_threshold (stability self) \<le> circuit_failures st1
                 then st1\<lparr>open_until := instant_checked_add now (circuit_cooldown (stability self))\<rparr>
                 else st1)
      in self\<lparr>circuits := (circuits self)(i \<mapsto> st2)\<rparr>)"

definition record_success :: "RouteSelector \<Rightarrow> string \<Rightarrow> RouteSelector" where
  "record_success self i = self\<lparr>circuits := (circuits self)(i := None)\<rparr>"

section \<open>Selection\<close>

lemma find_candidate_Some: "find_candidate cs i = Some c \<Longrightarrow> c \<in> set cs \<and> node_id c = i"
  by (auto simp: find_candidate_def find_Some_iff)

lemma find_candidate_unique:
  assumes "distinct (map node_id cs)" and "c \<in> set cs"
  shows "find_candidate cs (node_id c) = Some c"
  using assms by (induction cs) (auto simp: find_candidate_def)

lemma keep_current_SomeD:
  assumes "keep_current self cs now best = Inr (Some cur)"
  shows "\<exists>t. current self = Some (node_id cur, t) \<and> cur \<in> set cs \<and>
    available (measurements cur) \<and> \<not> circuit_is_open self (node_id cur) now"
  using assms
  by (auto simp: keep_current_def Let_def dest: find_candidate_Some
      split: option.splits prod.splits if_splits sum.splits)

lemma keep_current_NoneD:
  assumes "keep_current self cs now best = Inr None" and "current self = Some (i, t)"
    and "find_candidate cs i = Some cur" and "available (measurements cur)"
    and "\<not> circuit_is_open self i now"
  shows "minimum_dwell_time (stability self) \<le> now - t \<and>
    (\<exists>s b. score (scoring self) (measurements cur) = Inr s \<and>
       score (scoring self) (measurements best) = Inr b \<and>
       saturating_add s (switch_margin (stability self)) \<le> b)"
  using assms
  by (auto simp: keep_current_def Let_def saturating_duration_since_def split: if_splits sum.splits)

text \<open>The two ways a selection succeeds.\<close>

lemma RouteSelector_select_cases:
  assumes "RouteSelector_select self cs now = (Inr n, self')"
  obtains (keep) best where "keep_current self cs now best = Inr (Some n)" and "self' = self"
  | (switch) chosen where
      "select (scoring self) (filter (\<lambda>c. \<not> circuit_is_open self (node_id c) now) cs) = Inr chosen"
      and "find_candidate cs (node_id chosen) = Some n"
      and "keep_current self cs now n = Inr None"
      and "self' = (if map_option fst (current self) \<noteq> Some (node_id n)
                    then self\<lparr>current := Some (node_id n, now)\<rparr> else self)"
proof -
  let ?eligible = "filter (\<lambda>c. \<not> circuit_is_open self (node_id c) now) cs"
  note sel = assms [unfolded RouteSelector_select_def Let_def]
  obtain chosen where ch: "select (scoring self) ?eligible = Inr chosen"
    using sel by (cases "select (scoring self) ?eligible") simp_all
  obtain best where b: "find_candidate cs (node_id chosen) = Some best"
    using sel ch by (cases "find_candidate cs (node_id chosen)") simp_all
  obtain kept where k: "keep_current self cs now best = Inr kept"
    using sel ch b by (cases "keep_current self cs now best") simp_all
  show thesis
  proof (cases kept)
    case None
    then show thesis using sel ch b k by (intro switch [of chosen]) auto
  next
    case (Some cur)
    then show thesis using sel ch b k by (intro keep [of best]) simp_all
  qed
qed

lemma switch_facts:
  assumes "select p (filter (\<lambda>c. \<not> circuit_is_open self (node_id c) now) cs) = Inr chosen"
    and "find_candidate cs (node_id chosen) = Some n"
  shows "n \<in> set cs" and "\<not> circuit_is_open self (node_id n) now"
    and "distinct (map node_id cs) \<Longrightarrow> n = chosen \<and> available (measurements n)"
proof -
  have n: "n \<in> set cs" "node_id n = node_id chosen"
    using find_candidate_Some [OF assms(2)] by auto
  have ch: "chosen \<in> set cs" "\<not> circuit_is_open self (node_id chosen) now"
    "available (measurements chosen)"
    using select_ok [OF assms(1)] by auto
  show "n \<in> set cs" and "\<not> circuit_is_open self (node_id n) now" using n ch by auto
  show "n = chosen \<and> available (measurements n)" if "distinct (map node_id cs)"
    using find_candidate_unique [OF that ch(1)] assms(2) ch(3) by simp
qed

section \<open>Circuits\<close>

lemma record_failure_other: "i \<noteq> j \<Longrightarrow> circuits (record_failure self i now) j = circuits self j"
  by (simp add: record_failure_def Let_def)

lemma record_failure_frame:
  "stability (record_failure self i now) = stability self"
  "scoring (record_failure self i now) = scoring self"
  "current (record_failure self i now) = current self"
  by (simp_all add: record_failure_def Let_def)

definition record_failures :: "RouteSelector \<Rightarrow> string \<Rightarrow> Instant list \<Rightarrow> RouteSelector" where
  "record_failures self i ts = foldl (\<lambda>st t. record_failure st i t) self ts"

lemma record_failures_snoc:
  "record_failures self i (ts @ [t]) = record_failure (record_failures self i ts) i t"
  by (simp add: record_failures_def)

lemma record_failures_stability [simp]: "stability (record_failures self i ts) = stability self"
  by (induction ts rule: rev_induct)
    (simp_all add: record_failures_snoc record_failure_frame, simp add: record_failures_def)

lemma record_failures_other: "i \<noteq> j \<Longrightarrow> circuits (record_failures self i ts) j = circuits self j"
  by (induction ts rule: rev_induct)
    (simp_all add: record_failures_snoc record_failure_other, simp add: record_failures_def)

lemma record_failures_count:
  assumes "circuits self i = None" and "ts \<noteq> []"
  shows "\<exists>st. circuits (record_failures self i ts) i = Some st \<and>
    unat (circuit_failures st) = min (length ts) (2 ^ 32 - 1)"
  using assms(2)
proof (induction ts rule: rev_induct)
  case Nil
  then show ?case by simp
next
  case (snoc t ts)
  show ?case
  proof (cases "ts = []")
    case True
    then show ?thesis
      using assms(1)
      by (simp add: record_failures_def record_failure_def Let_def unat_saturating_add)
  next
    case False
    with snoc.IH show ?thesis
      by (auto simp: record_failures_snoc record_failure_def Let_def unat_saturating_add)
  qed
qed

lemma record_failures_open_until:
  assumes "circuits self i = None"
    and "unat (failure_threshold (stability self)) \<le> Suc (length ts)"
    and "Suc (length ts) < 2 ^ 32"
  shows "\<exists>st. circuits (record_failures self i (ts @ [t])) i = Some st \<and>
    open_until st = instant_checked_add t (circuit_cooldown (stability self))"
proof (cases "ts = []")
  case True
  then show ?thesis
    using assms
    by (simp add: record_failures_def record_failure_def Let_def saturating_add_def word_le_nat_alt)
next
  case False
  then obtain st where st: "circuits (record_failures self i ts) i = Some st"
    "unat (circuit_failures st) = min (length ts) (2 ^ 32 - 1)"
    using record_failures_count [OF assms(1)] by blast
  have "failure_threshold (stability self) \<le> saturating_add (circuit_failures st) 1"
    using assms(2,3) st(2) by (simp add: word_le_nat_alt unat_saturating_add)
  then show ?thesis
    using st(1) by (simp add: record_failures_snoc record_failure_def Let_def)
qed

text \<open>Below the threshold a failure is only counted.\<close>

lemma record_failures_below:
  assumes "circuits self i = None" and "length ts < unat (failure_threshold (stability self))"
  shows "circuits (record_failures self i ts) i = None \<or>
    (\<exists>st. circuits (record_failures self i ts) i = Some st \<and> unat (circuit_failures st) = length ts \<and>
       open_until st = None)"
  using assms(2)
proof (induction ts rule: rev_induct)
  case Nil
  then show ?case using assms(1) by (simp add: record_failures_def)
next
  case (snoc t ts)
  have small: "Suc (length ts) < 2 ^ 32"
    using snoc.prems unat_u32_bound [of "failure_threshold (stability self)"] by simp
  show ?case
  proof (cases "ts = []")
    case True
    then show ?thesis
      using assms(1) snoc.prems
      by (simp add: record_failures_def record_failure_def Let_def unat_saturating_add word_le_nat_alt)
  next
    case False
    then have "circuits (record_failures self i ts) i \<noteq> None"
      using record_failures_count [OF assms(1)] by fastforce
    then show ?thesis
      using snoc small
      by (auto simp: record_failures_snoc record_failure_def Let_def unat_saturating_add word_le_nat_alt)
  qed
qed

lemma record_failures_update: "\<exists>cs. record_failures self i ts = self\<lparr>circuits := cs\<rparr>"
proof (induction ts rule: rev_induct)
  case Nil
  show ?case by (rule exI [of _ "circuits self"]) (simp add: record_failures_def)
next
  case (snoc t ts)
  then show ?case by (auto simp: record_failures_snoc record_failure_def Let_def)
qed

lemma record_success_restores:
  assumes "circuits self i = None"
  shows "record_success (record_failures self i ts) i = self"
proof -
  obtain cs where cs: "record_failures self i ts = self\<lparr>circuits := cs\<rparr>"
    using record_failures_update by blast
  have "cs j = circuits self j" if "j \<noteq> i" for j
    using record_failures_other [of i j self ts] that cs by simp
  then have "cs(i := None) = circuits self" using assms by (auto simp: fun_eq_iff)
  then show ?thesis by (simp add: record_success_def cs)
qed

section \<open>Properties\<close>

text \<open>
  C20. A selected route is safe: it is one of the candidates, its circuit is not open, it is
  available whenever candidate identifiers are distinct, and the selector records it as its
  current route.
\<close>

theorem selected_route_is_eligible:
  assumes "RouteSelector_select self cs now = (Inr n, self')"
  shows "n \<in> set cs \<and> \<not> circuit_is_open self (node_id n) now \<and>
    (distinct (map node_id cs) \<longrightarrow> available (measurements n)) \<and>
    (\<exists>t. current self' = Some (node_id n, t))"
  using assms
proof (cases rule: RouteSelector_select_cases)
  case (keep best)
  then show ?thesis using keep_current_SomeD by blast
next
  case (switch chosen)
  then show ?thesis
    using switch_facts [OF switch(1,2)] by (auto split: if_splits)
qed

definition example_selector :: RouteSelector where
  "example_selector = RouteSelector_new RoutingPolicy_default SelectionPolicy_default"

lemma example_select_a:
  "RouteSelector_select example_selector [example_node ''a'' 40 True] 7 =
     (Inr (example_node ''a'' 40 True), example_selector\<lparr>current := Some (''a'', 7)\<rparr>)"
proof -
  have "RoutingPolicy_validate RoutingPolicy_default = ok" by code_simp
  then obtain n where n: "select RoutingPolicy_default [example_node ''a'' 40 True] = Inr n"
    using select_succeeds [of RoutingPolicy_default "[example_node ''a'' 40 True]"]
    by (auto simp: example_node_def valid_loss_def)
  then have "n = example_node ''a'' 40 True" using select_ok by fastforce
  with n show ?thesis
    by (simp add: RouteSelector_select_def Let_def example_selector_def RouteSelector_new_def
        circuit_is_open_def find_candidate_def keep_current_def, simp add: example_node_def)
qed

theorem selected_route_is_eligible_witness:
  "example_node ''a'' 40 True \<in> set [example_node ''a'' 40 True] \<and>
   \<not> circuit_is_open example_selector ''a'' 7 \<and> available (measurements (example_node ''a'' 40 True))"
  using selected_route_is_eligible [OF example_select_a] by (simp add: example_node_def)

text \<open>
  C21. No flapping: while the current route is still offered, available and its circuit closed, the
  selector moves to another node only after the minimum dwell time and only when the new score
  reaches the current score plus the switch margin.
\<close>

theorem switch_requires_dwell_and_margin:
  assumes "RouteSelector_select self cs now = (Inr n, self')"
    and "current self = Some (i, t)" and "find_candidate cs i = Some cur"
    and "available (measurements cur)" and "\<not> circuit_is_open self i now"
    and "node_id n \<noteq> i"
  shows "minimum_dwell_time (stability self) \<le> now - t \<and>
    (\<exists>s b. score (scoring self) (measurements cur) = Inr s \<and>
       score (scoring self) (measurements n) = Inr b \<and>
       saturating_add s (switch_margin (stability self)) \<le> b) \<and>
    current self' = Some (node_id n, now)"
  using assms(1)
proof (cases rule: RouteSelector_select_cases)
  case (keep best)
  then have "current self = Some (node_id n, t)" using keep_current_SomeD assms(2) by fastforce
  with assms(2,6) show ?thesis by simp
next
  case (switch chosen)
  from keep_current_NoneD [OF switch(3) assms(2-5)] show ?thesis
    using switch(4) assms(2,6) by simp
qed

definition flapping_selector :: RouteSelector where
  "flapping_selector =
     example_selector\<lparr>current := Some (''a'', 0),
       stability := SelectionPolicy_default\<lparr>switch_margin := 0\<rparr>\<rparr>"

theorem switch_requires_dwell_and_margin_witness:
  "\<exists>self'. RouteSelector_select flapping_selector
       [example_node ''a'' 900 True, example_node ''b'' 10 True] 31000000000
     = (Inr (example_node ''b'' 10 True), self') \<and>
     minimum_dwell_time (stability flapping_selector) \<le> 31000000000 \<and>
     current self' = Some (''b'', 31000000000)"
proof -
  let ?a = "example_node ''a'' 900 True" and ?b = "example_node ''b'' 10 True"
  let ?p = RoutingPolicy_default
  have v: "RoutingPolicy_validate ?p = ok" by code_simp
  have ref: "reference_score ?p (measurements ?a) = 6385" "reference_score ?p (measurements ?b) = 9945"
    by (simp_all add: reference_score_def quality_sum_def unat_total_weight RoutingPolicy_default_def
        ScoreWeights_default_def ScoreLimits_default_def example_node_def)
  obtain sa sb where s: "score ?p (measurements ?a) = Inr sa" "unat sa = 6385"
    "score ?p (measurements ?b) = Inr sb" "unat sb = 9945"
    using score_exact [OF v, of "measurements ?a"] score_exact [OF v, of "measurements ?b"] ref
    by (auto simp: example_node_def valid_loss_def)
  have lt: "sa < sb" "sa \<le> sb" using s by (simp_all add: word_less_nat_alt word_le_nat_alt)
  have av: "available (measurements ?a)" "available (measurements ?b)" "node_id ?a = ''a''" "node_id ?b = ''b''"
    by (simp_all add: example_node_def)
  have sel: "select ?p [?a, ?b] = Inr ?b"
    using s lt av by (simp add: select_def compare_rank_Greater)
  have "saturating_add sa 0 = sa" using s(2) by (simp add: saturating_add_def)
  then have "RouteSelector_select flapping_selector [?a, ?b] 31000000000
      = (Inr ?b, flapping_selector\<lparr>current := Some (''b'', 31000000000)\<rparr>)"
    using sel s lt av
    by (simp add: RouteSelector_select_def Let_def flapping_selector_def example_selector_def
        RouteSelector_new_def circuit_is_open_def find_candidate_def keep_current_def
        saturating_duration_since_def SelectionPolicy_default_def duration_from_secs_def
        nanos_per_sec_def)
  from this switch_requires_dwell_and_margin [OF this, of "''a''" 0 ?a] av show ?thesis
    by (simp add: flapping_selector_def find_candidate_def circuit_is_open_def example_selector_def
        RouteSelector_new_def)
qed

lemma circuit_below_threshold:
  assumes "circuits self i = None" and "length ts < unat (failure_threshold (stability self))"
  shows "\<not> circuit_is_open (record_failures self i ts) i now"
  using record_failures_below [OF assms] by (auto simp: circuit_is_open_def)

lemma circuit_breaker_facts:
  assumes "circuits self i = None" and "Suc (length ts) < 2 ^ 32"
    and "t + circuit_cooldown (stability self) < instant_limit"
  shows "circuit_is_open (record_failures self i (ts @ [t])) i now
           \<longleftrightarrow> unat (failure_threshold (stability self)) \<le> Suc (length ts) \<and> now < t + circuit_cooldown (stability self)"
    and "j \<noteq> i \<Longrightarrow> circuit_is_open (record_failures self i (ts @ [t])) j now = circuit_is_open self j now"
proof -
  show "circuit_is_open (record_failures self i (ts @ [t])) i now
      \<longleftrightarrow> unat (failure_threshold (stability self)) \<le> Suc (length ts) \<and> now < t + circuit_cooldown (stability self)"
  proof (cases "unat (failure_threshold (stability self)) \<le> Suc (length ts)")
    case True
    then show ?thesis
      using record_failures_open_until [OF assms(1) True assms(2), of t] assms(3)
      by (auto simp: circuit_is_open_def instant_checked_add_def)
  next
    case False
    then show ?thesis using circuit_below_threshold [OF assms(1), of "ts @ [t]"] by simp
  qed
  show "circuit_is_open (record_failures self i (ts @ [t])) j now = circuit_is_open self j now"
    if "j \<noteq> i"
    using that record_failures_other [of i j self "ts @ [t]"] by (simp add: circuit_is_open_def)
qed

text \<open>
  C22. The circuit breaker: after a run of consecutive failures of a node without a success in
  between, the node is excluded exactly when the run has reached the configured number of
  failures, and then exactly until the cooldown after the last failure ends.  Below the threshold
  its circuit stays closed.  Other nodes are not affected, and one success forgets the whole run:
  the circuit is closed and counting starts again.
\<close>

theorem circuit_breaker:
  assumes "circuits self i = None" and "Suc (length ts) < 2 ^ 32"
    and "t + circuit_cooldown (stability self) < instant_limit"
  shows "(\<forall>now. circuit_is_open (record_failures self i (ts @ [t])) i now \<longleftrightarrow>
      unat (failure_threshold (stability self)) \<le> Suc (length ts) \<and> now < t + circuit_cooldown (stability self)) \<and>
    (\<forall>j now. j \<noteq> i \<longrightarrow>
       circuit_is_open (record_failures self i (ts @ [t])) j now = circuit_is_open self j now) \<and>
    record_success (record_failures self i (ts @ [t])) i = self \<and>
    (\<forall>now. \<not> circuit_is_open (record_success (record_failures self i (ts @ [t])) i) i now)"
  using circuit_breaker_facts [OF assms] record_success_restores [OF assms(1), of "ts @ [t]"] assms(1)
  by (auto simp: circuit_is_open_def)

text \<open>With the default policy the third failure opens the circuit for a minute, the second does not.\<close>

theorem circuit_breaker_witness:
  "\<not> circuit_is_open (record_failures example_selector ''fast'' ([10] @ [20])) ''fast'' 21
   \<and> circuit_is_open (record_failures example_selector ''fast'' ([10, 20] @ [30])) ''fast'' 60000000029
   \<and> \<not> circuit_is_open (record_failures example_selector ''fast'' ([10, 20] @ [30])) ''fast'' 60000000030"
proof -
  have h: "circuits example_selector ''fast'' = None"
    "Suc (length [10 :: nat]) < 2 ^ 32" "Suc (length [10, 20 :: nat]) < 2 ^ 32"
    "(20 :: nat) + circuit_cooldown (stability example_selector) < instant_limit"
    "(30 :: nat) + circuit_cooldown (stability example_selector) < instant_limit"
    by (simp_all add: example_selector_def RouteSelector_new_def SelectionPolicy_default_def
        duration_from_secs_def nanos_per_sec_def instant_limit_def)
  show ?thesis
    using circuit_breaker [OF h(1,2,4)] circuit_breaker [OF h(1,3,5)]
    by (simp add: example_selector_def RouteSelector_new_def SelectionPolicy_default_def
        duration_from_secs_def nanos_per_sec_def)
qed

text \<open>
  C23. The breaker fails open when the cooldown cannot be added to the clock: however many failures a
  node has had, recording one more at such a time leaves its circuit closed.
\<close>

theorem circuit_fails_open_on_overflow:
  assumes "circuits self i = None"
    and "unat (failure_threshold (stability self)) \<le> Suc (length ts)" and "Suc (length ts) < 2 ^ 32"
    and "instant_limit \<le> t + circuit_cooldown (stability self)"
  shows "\<not> circuit_is_open (record_failures self i (ts @ [t])) i now"
  using record_failures_open_until [OF assms(1-3), of t] assms(4)
  by (auto simp: circuit_is_open_def instant_checked_add_def)

theorem circuit_fails_open_on_overflow_witness:
  "\<not> circuit_is_open
       (record_failures
         (example_selector\<lparr>stability := SelectionPolicy_default\<lparr>circuit_cooldown := instant_limit\<rparr>\<rparr>)
         ''bad'' ([1, 2] @ [3])) ''bad'' 4"
  by (rule circuit_fails_open_on_overflow)
    (simp_all add: example_selector_def RouteSelector_new_def SelectionPolicy_default_def)

text \<open>
  The identifiers of candidates have to be distinct: with a repeated identifier the selector can
  return a node that is not available, although another one with that identifier was scored.
\<close>

lemma duplicate_ids_select_unavailable:
  "\<exists>n self'. RouteSelector_select example_selector
       [example_node ''a'' 40 False, example_node ''a'' 40 True] 7 = (Inr n, self') \<and>
     \<not> available (measurements n)"
proof -
  have "RoutingPolicy_validate RoutingPolicy_default = ok" by code_simp
  then obtain n where n: "select RoutingPolicy_default
      [example_node ''a'' 40 False, example_node ''a'' 40 True] = Inr n"
    using select_succeeds [of RoutingPolicy_default
        "[example_node ''a'' 40 False, example_node ''a'' 40 True]"]
    by (auto simp: example_node_def valid_loss_def)
  then have "n = example_node ''a'' 40 True"
    using select_ok by (fastforce simp: example_node_def)
  with n show ?thesis
    by (simp add: RouteSelector_select_def Let_def example_selector_def RouteSelector_new_def
        circuit_is_open_def find_candidate_def keep_current_def example_node_def)
qed

end
