(* ===== verification/Backoff.thy ===== *)
theory Backoff
  imports Routing
begin

text \<open>
  \<^verbatim>\<open>core/routing/src/backoff.rs\<close>: the reconnect backoff policy.  Durations are
  nanosecond counts; the jitter computation runs on 128-bit words as in the source.
\<close>

section \<open>The policy\<close>

record BackoffPolicy =
  initial_delay :: Duration
  maximum_delay :: Duration
  maximum_attempts :: u32
  jitter_basis_points :: u16

datatype BackoffError = InvalidBackoffPolicy | InvalidEntropySample

fun BackoffError_display :: "BackoffError \<Rightarrow> string" where
  "BackoffError_display InvalidBackoffPolicy = ''invalid reconnect backoff policy''"
| "BackoffError_display InvalidEntropySample = ''entropy sample must be between 0 and 10000''"

definition BASIS_POINTS :: u128 where
  "BASIS_POINTS = 10000"

definition MAXIMUM_POLICY_DELAY :: Duration where
  "MAXIMUM_POLICY_DELAY = duration_from_secs 3600"

definition BackoffPolicy_validate :: "BackoffPolicy \<Rightarrow> BackoffError checked" where
  "BackoffPolicy_validate p =
     (if initial_delay p = 0
         \<or> maximum_delay p < initial_delay p
         \<or> MAXIMUM_POLICY_DELAY < maximum_delay p
         \<or> maximum_attempts p = 0
         \<or> 32 < maximum_attempts p
         \<or> 5000 < jitter_basis_points p
      then Inl InvalidBackoffPolicy else ok)"

definition checked_shl_one :: "u32 \<Rightarrow> u32 option" where
  "checked_shl_one n = (if unat n < 32 then Some (push_bit (unat n) 1) else None)"

definition u64_try_from :: "u128 \<Rightarrow> u64 option" where
  "u64_try_from n = (if unat n < 2 ^ 64 then Some (ucast n) else None)"

definition delay :: "BackoffPolicy \<Rightarrow> u32 \<Rightarrow> u16 \<Rightarrow> BackoffError + Duration option" where
  "delay p attempt entropy_sample =
     thenR (BackoffPolicy_validate p)
      (if 10000 < entropy_sample then Inl InvalidEntropySample
       else if maximum_attempts p \<le> attempt then Inr None
       else
         (let multiplier = unwrap_or (checked_shl_one attempt) (- 1);
              base = min (unwrap_or (duration_checked_mul (initial_delay p) multiplier) (maximum_delay p))
                       (maximum_delay p);
              jitter = (ucast (jitter_basis_points p) :: u128);
              sample = (ucast entropy_sample :: u128);
              factor = BASIS_POINTS - jitter + 2 * jitter * sample div BASIS_POINTS;
              jittered_nanos = of_nat base * factor div BASIS_POINTS;
              bounded_nanos = min jittered_nanos (of_nat (maximum_delay p))
          in Inr (Some (unat (unwrap_or (u64_try_from bounded_nanos) (- 1))))))"

section \<open>Exactness\<close>

text \<open>The reference: exponential growth cut at the maximum, scaled by the jitter factor.\<close>

definition base_delay :: "BackoffPolicy \<Rightarrow> nat \<Rightarrow> nat" where
  "base_delay p n = min (initial_delay p * 2 ^ n) (maximum_delay p)"

definition jitter_factor :: "BackoffPolicy \<Rightarrow> nat \<Rightarrow> nat" where
  "jitter_factor p e =
     10000 - unat (jitter_basis_points p) + 2 * unat (jitter_basis_points p) * e div 10000"

definition reference_delay :: "BackoffPolicy \<Rightarrow> nat \<Rightarrow> nat \<Rightarrow> nat" where
  "reference_delay p n e = min (base_delay p n * jitter_factor p e div 10000) (maximum_delay p)"

lemma MAXIMUM_POLICY_DELAY_eq: "MAXIMUM_POLICY_DELAY = 3600000000000"
  by (simp add: MAXIMUM_POLICY_DELAY_def duration_from_secs_def nanos_per_sec_def)

lemma BackoffPolicy_validate_ok:
  "BackoffPolicy_validate p = ok \<longleftrightarrow>
     0 < initial_delay p \<and> initial_delay p \<le> maximum_delay p \<and> maximum_delay p \<le> 3600000000000 \<and>
     0 < unat (maximum_attempts p) \<and> unat (maximum_attempts p) \<le> 32 \<and>
     unat (jitter_basis_points p) \<le> 5000"
  by (auto simp: BackoffPolicy_validate_def MAXIMUM_POLICY_DELAY_eq word_less_nat_alt unat_gt_0 not_less)

lemma unat_ucast_16_128 [simp]: "unat (ucast (x :: u16) :: u128) = unat x"
  by transfer simp

lemma unat_multiplier:
  assumes "unat attempt < 32"
  shows "unat (unwrap_or (checked_shl_one attempt) (- 1)) = 2 ^ unat attempt"
proof -
  have "(2 :: nat) ^ unat attempt < 4294967296"
    using power_strict_increasing [OF assms, of "2 :: nat"] by simp
  then have "unat (of_nat (2 ^ unat attempt) :: u32) = 2 ^ unat attempt"
    unfolding unat_of_nat by simp
  then show ?thesis
    using assms by (simp add: checked_shl_one_def unwrap_or_def push_bit_eq_mult)
qed

lemma base_delay_word:
  assumes "unat attempt < 32" and "initial_delay p \<le> 3600000000000"
  shows "min (unwrap_or (duration_checked_mul (initial_delay p)
           (unwrap_or (checked_shl_one attempt) (- 1))) (maximum_delay p)) (maximum_delay p)
       = base_delay p (unat attempt)"
proof -
  have "(2 :: nat) ^ unat attempt \<le> 2 ^ 31" using assms(1) by (intro power_increasing) auto
  then have "initial_delay p * 2 ^ unat attempt \<le> 3600000000000 * 2 ^ 31"
    using assms(2) by (rule mult_le_mono [rotated])
  then have "initial_delay p * 2 ^ unat attempt < duration_limit"
    by (simp add: duration_limit_def nanos_per_sec_def)
  then show ?thesis
    unfolding duration_checked_mul_def unat_multiplier [OF assms(1)]
    by (simp add: unwrap_or_def base_delay_def)
qed

lemma jitter_factor_bounds:
  assumes "unat (jitter_basis_points p) \<le> 5000" and "e \<le> 10000"
  shows "5000 \<le> jitter_factor p e" and "jitter_factor p e \<le> 15000"
    and "10000 - unat (jitter_basis_points p) \<le> jitter_factor p e"
proof -
  have "2 * unat (jitter_basis_points p) * e \<le> 2 * unat (jitter_basis_points p) * 10000"
    using assms(2) by (rule mult_le_mono2)
  from div_le_mono [OF this, of 10000]
  have "2 * unat (jitter_basis_points p) * e div 10000 \<le> 2 * unat (jitter_basis_points p)"
    by (subst (asm) nonzero_mult_div_cancel_right) simp_all
  then show "5000 \<le> jitter_factor p e" and "jitter_factor p e \<le> 15000"
    and "10000 - unat (jitter_basis_points p) \<le> jitter_factor p e"
    using assms(1) by (simp_all add: jitter_factor_def)
qed

lemma unat_factor:
  assumes "unat (jitter_basis_points p) \<le> 5000" and "unat e \<le> 10000"
  shows "unat (BASIS_POINTS - ucast (jitter_basis_points p)
           + 2 * ucast (jitter_basis_points p) * ucast (e :: u16) div BASIS_POINTS)
       = jitter_factor p (unat e)" (is "unat (?a + ?b) = _")
proof -
  have prod: "2 * unat (jitter_basis_points p) * unat e \<le> 2 * 5000 * 10000"
    using assms by (intro mult_le_mono) auto
  have a: "unat ?a = 10000 - unat (jitter_basis_points p)"
    using assms(1) by (simp add: BASIS_POINTS_def unat_sub word_le_nat_alt)
  have "unat (2 * ucast (jitter_basis_points p) * ucast e :: u128) = 2 * unat (jitter_basis_points p) * unat e"
    using prod by (simp add: unat_word_ariths mod_simps)
  then have b: "unat ?b = 2 * unat (jitter_basis_points p) * unat e div 10000"
    by (simp add: unat_div_distrib BASIS_POINTS_def)
  show ?thesis
    using jitter_factor_bounds(2) [OF assms]
    unfolding jitter_factor_def unat_word_ariths(1) a b by simp
qed

lemma delay_exact:
  assumes v: "BackoffPolicy_validate p = ok" and e: "unat e \<le> 10000"
    and a: "attempt < maximum_attempts p"
  shows "delay p attempt e = Inr (Some (reference_delay p (unat attempt) (unat e)))"
proof -
  from v have b: "initial_delay p \<le> 3600000000000" "maximum_delay p \<le> 3600000000000"
    "unat (jitter_basis_points p) \<le> 5000" "unat attempt < 32"
    using a by (auto simp: BackoffPolicy_validate_ok word_less_nat_alt)
  let ?base = "base_delay p (unat attempt)" and ?f = "jitter_factor p (unat e)"
  have base: "?base \<le> 3600000000000" using b(2) by (simp add: base_delay_def)
  have prod: "?base * ?f \<le> 3600000000000 * 15000"
    using base jitter_factor_bounds(2) [OF b(3) e] by (rule mult_le_mono)
  have small: "unat (of_nat n :: u128) = n" if "n < 2 ^ 128" for n
    using that by (simp add: unat_of_nat)
  have nanos: "unat (of_nat ?base * (BASIS_POINTS - ucast (jitter_basis_points p)
           + 2 * ucast (jitter_basis_points p) * ucast e div BASIS_POINTS) div BASIS_POINTS :: u128)
       = ?base * ?f div 10000"
    using prod base small [of ?base] unat_factor [OF b(3) e]
    by (simp add: unat_div_distrib unat_word_ariths BASIS_POINTS_def)
  have mn: "unat (min x y) = min (unat x) (unat y)" for x y :: u128
    by (simp add: min_def word_le_nat_alt)
  have to64: "unat (unwrap_or (u64_try_from n) (- 1)) = unat n" if "unat n < 2 ^ 64" for n
    using that by (simp add: u64_try_from_def unwrap_or_def unsigned_ucast_eq take_bit_nat_eq_self)
  have "\<not> 10000 < e" using e by (simp add: word_less_nat_alt not_less)
  then show ?thesis
    using v a b base_delay_word [OF b(4) b(1)] nanos small [of "maximum_delay p"]
    by (simp add: delay_def Let_def not_le mn to64 reference_delay_def)
qed

lemma delay_SomeD:
  assumes "delay p attempt e = Inr (Some d)"
  shows "BackoffPolicy_validate p = ok" and "unat e \<le> 10000" and "attempt < maximum_attempts p"
proof -
  show "BackoffPolicy_validate p = ok"
    using assms by (simp add: delay_def is_ok_unit_iff)
  then show "unat e \<le> 10000" and "attempt < maximum_attempts p"
    using assms by (auto simp: delay_def word_less_nat_alt not_le not_less split: if_splits)
qed

lemma reference_delay_mono: "n \<le> n' \<Longrightarrow> reference_delay p n e \<le> reference_delay p n' e"
  unfolding reference_delay_def base_delay_def
  by (intro min.mono div_le_mono mult_le_mono power_increasing order_refl) auto

section \<open>Properties\<close>

lemma delay_bounded_facts:
  assumes "delay p attempt e = Inr (Some d)"
  shows "d = reference_delay p (unat attempt) (unat e)"
    and "d \<le> maximum_delay p"
    and "base_delay p (unat attempt) div 2 \<le> d"
proof -
  note v = delay_SomeD [OF assms]
  show d: "d = reference_delay p (unat attempt) (unat e)"
    using delay_exact [OF v] assms by simp
  show "d \<le> maximum_delay p" by (simp add: d reference_delay_def)
  have j: "unat (jitter_basis_points p) \<le> 5000" using v(1) by (simp add: BackoffPolicy_validate_ok)
  let ?b = "base_delay p (unat attempt)"
  have "?b div 2 = ?b * 5000 div 10000" by simp
  also have "\<dots> \<le> ?b * jitter_factor p (unat e) div 10000"
    by (intro div_le_mono mult_le_mono2 jitter_factor_bounds(1) [OF j v(2)])
  finally have "?b div 2 \<le> ?b * jitter_factor p (unat e) div 10000" .
  moreover have "?b div 2 \<le> maximum_delay p" by (simp add: base_delay_def)
  ultimately show "?b div 2 \<le> d" by (simp add: d reference_delay_def)
qed

text \<open>
  C28. The computed delay is exactly the reference delay: exponential growth from the initial
  delay, cut at the maximum, scaled by the symmetric jitter factor and cut again.  Hence it never
  exceeds the maximum delay, is at least half of the un-jittered delay, and no step of the
  128-bit computation overflows or saturates.
\<close>

theorem delay_bounded:
  assumes "delay p attempt e = Inr (Some d)"
  shows "d = reference_delay p (unat attempt) (unat e) \<and> d \<le> maximum_delay p \<and>
    base_delay p (unat attempt) div 2 \<le> d"
  using delay_bounded_facts [OF assms] by blast

definition example_backoff :: BackoffPolicy where
  "example_backoff =
     \<lparr>initial_delay = 500000000, maximum_delay = 30000000000, maximum_attempts = 8,
      jitter_basis_points = 2000\<rparr>"

lemma example_backoff_valid: "BackoffPolicy_validate example_backoff = ok"
  by (simp add: BackoffPolicy_validate_ok example_backoff_def)

theorem delay_bounded_witness:
  "delay example_backoff 3 10000 = Inr (Some 4800000000) \<and> (4800000000 :: nat) \<le> 30000000000"
proof -
  have "delay example_backoff 3 10000 = Inr (Some (reference_delay example_backoff 3 10000))"
    using delay_exact [OF example_backoff_valid, of 10000 3] by (simp add: example_backoff_def)
  moreover have "reference_delay example_backoff 3 10000 = 4800000000"
    by (simp add: reference_delay_def base_delay_def jitter_factor_def example_backoff_def)
  ultimately have d: "delay example_backoff 3 10000 = Inr (Some 4800000000)" by simp
  show ?thesis using d delay_bounded [OF d] by (simp add: example_backoff_def)
qed

lemma delay_finite_and_monotone_facts:
  assumes "BackoffPolicy_validate p = ok" and "unat e \<le> 10000"
  shows "(\<exists>d. delay p attempt e = Inr (Some d)) \<longleftrightarrow> attempt < maximum_attempts p"
    and "delay p attempt e = Inr (Some d) \<Longrightarrow> unat attempt < 32"
    and "delay p attempt e = Inr (Some d) \<Longrightarrow> delay p later e = Inr (Some d') \<Longrightarrow>
           attempt \<le> later \<Longrightarrow> d \<le> d'"
proof -
  show "(\<exists>d. delay p attempt e = Inr (Some d)) \<longleftrightarrow> attempt < maximum_attempts p"
    using delay_exact [OF assms, of attempt] delay_SomeD(3) [of p attempt e] by auto
  show "unat attempt < 32" if "delay p attempt e = Inr (Some d)"
    using delay_SomeD(3) [OF that] assms(1)
    by (auto simp: BackoffPolicy_validate_ok word_less_nat_alt)
  show "d \<le> d'" if "delay p attempt e = Inr (Some d)" "delay p later e = Inr (Some d')" "attempt \<le> later"
    using that delay_exact [OF assms delay_SomeD(3)] reference_delay_mono
    by (metis (no_types, lifting) option.inject sum.inject(2) word_le_nat_alt)
qed

text \<open>
  C29. Retries are finite and ordered: a delay exists for exactly the attempts below the configured
  maximum, which is at most 32, and for one entropy sample the delay of a later attempt is never
  shorter than that of an earlier one.
\<close>

theorem delay_finite_and_monotone:
  assumes "BackoffPolicy_validate p = ok" and "unat e \<le> 10000"
  shows "(\<forall>attempt. (\<exists>d. delay p attempt e = Inr (Some d)) \<longleftrightarrow> attempt < maximum_attempts p) \<and>
    (\<forall>attempt d. delay p attempt e = Inr (Some d) \<longrightarrow> unat attempt < 32) \<and>
    (\<forall>attempt later d d'. delay p attempt e = Inr (Some d) \<and> delay p later e = Inr (Some d')
       \<and> attempt \<le> later \<longrightarrow> d \<le> d')"
  using delay_finite_and_monotone_facts [OF assms] by blast

theorem delay_finite_and_monotone_witness:
  "(\<exists>d. delay example_backoff 2 0 = Inr (Some d)) \<and> \<not> (\<exists>d. delay example_backoff 8 0 = Inr (Some d))"
proof -
  have v: "unat (0 :: u16) \<le> 10000" by simp
  show ?thesis
    using delay_finite_and_monotone [OF example_backoff_valid v]
    by (simp add: example_backoff_def)
qed

end
