(* ===== verification/Errors.thy ===== *)
theory Errors
  imports Rust_Std
begin

text \<open>
  The error enumerations of the transport and kill-switch crates with their
  \<^verbatim>\<open>Display\<close> text, which several operations embed in the reason of a
  \<open>Network\<close> error.  The \<^verbatim>\<open>Debug\<close> text of a result is modelled for the one
  message that prints it; its string escapes are those of ASCII input.
\<close>

section \<open>Transport errors\<close>

datatype TransportError =
    InvalidConfig string
  | Cancelled
  | TimedOut
  | AlreadyConnected
  | NotConnected
  | AuthenticationFailed
  | Network string

fun TransportError_display :: "TransportError \<Rightarrow> string" where
  "TransportError_display (InvalidConfig reason) = ''invalid configuration: '' @ reason"
| "TransportError_display Cancelled = ''connection attempt cancelled''"
| "TransportError_display TimedOut = ''connection attempt timed out''"
| "TransportError_display AlreadyConnected = ''transport is already connected''"
| "TransportError_display NotConnected = ''transport is not connected''"
| "TransportError_display AuthenticationFailed = ''transport authentication failed''"
| "TransportError_display (Network reason) = ''transport network error: '' @ reason"

definition escape_debug_char :: "char \<Rightarrow> string" where
  "escape_debug_char c =
     (if c = CHR 0x22 then [CHR 0x5C, CHR 0x22]
      else if c = CHR 0x5C then [CHR 0x5C, CHR 0x5C]
      else if c = CHR 0x09 then [CHR 0x5C, CHR ''t'']
      else if c = CHR 0x0D then [CHR 0x5C, CHR ''r'']
      else if c = CHR 0x0A then [CHR 0x5C, CHR ''n'']
      else if c = CHR 0x00 then [CHR 0x5C, CHR ''0'']
      else if byte c < 32 \<or> byte c = 127
        then [CHR 0x5C, CHR ''u'', CHR ''{''] @ show_hex (byte c) @ ''}''
      else [c])"

definition debug_str :: "string \<Rightarrow> string" where
  "debug_str s = [CHR 0x22] @ concat (map escape_debug_char s) @ [CHR 0x22]"

fun TransportError_debug :: "TransportError \<Rightarrow> string" where
  "TransportError_debug (InvalidConfig reason) = ''InvalidConfig('' @ debug_str reason @ '')''"
| "TransportError_debug Cancelled = ''Cancelled''"
| "TransportError_debug TimedOut = ''TimedOut''"
| "TransportError_debug AlreadyConnected = ''AlreadyConnected''"
| "TransportError_debug NotConnected = ''NotConnected''"
| "TransportError_debug AuthenticationFailed = ''AuthenticationFailed''"
| "TransportError_debug (Network reason) = ''Network('' @ debug_str reason @ '')''"

fun result_debug :: "TransportError checked \<Rightarrow> string" where
  "result_debug (Inr _) = ''Ok(())''"
| "result_debug (Inl e) = ''Err('' @ TransportError_debug e @ '')''"

section \<open>Firewall and kill-switch errors\<close>

datatype NftablesError = InvalidInterface | InvalidExecutable | Command string

fun NftablesError_display :: "NftablesError \<Rightarrow> string" where
  "NftablesError_display InvalidInterface = ''invalid nftables tunnel interface''"
| "NftablesError_display InvalidExecutable = ''invalid nftables executable''"
| "NftablesError_display (Command reason) = ''nftables command failed: '' @ reason"

datatype FirewallError = FirewallError string

fun FirewallError_display :: "FirewallError \<Rightarrow> string" where
  "FirewallError_display (FirewallError reason) = ''firewall policy failed: '' @ reason"

datatype KillSwitchError = AlwaysOn | NotEnabled | InvalidTunnelInterface | TransportActive

fun KillSwitchError_display :: "KillSwitchError \<Rightarrow> string" where
  "KillSwitchError_display AlwaysOn = ''always-on kill switch cannot be disabled''"
| "KillSwitchError_display NotEnabled = ''kill switch is not enabled''"
| "KillSwitchError_display InvalidTunnelInterface = ''invalid tunnel interface name''"
| "KillSwitchError_display TransportActive = ''transport teardown is not complete''"

datatype ConnectionError =
    FirewallFailed FirewallError
  | KillSwitchFailed KillSwitchError
  | TransportFailed TransportError

fun ConnectionError_display :: "ConnectionError \<Rightarrow> string" where
  "ConnectionError_display (FirewallFailed e) = FirewallError_display e"
| "ConnectionError_display (KillSwitchFailed e) = KillSwitchError_display e"
| "ConnectionError_display (TransportFailed e) = TransportError_display e"

end
