(* ===== verification/Platform.thy ===== *)
theory Platform
  imports Errors
begin

text \<open>
  The platform boundary.  Everything the sources call outside the crate (process runners,
  the nftables runner, the monotonic and the wall clock, files and their locks, the signal handler)
  is a \<open>platform\<close>: a record of reply functions.  A reply may depend on the whole history of
  interactions, so a statement for every \<open>platform\<close> covers every behaviour of the operating
  system, every injected runner and every moment a signal can arrive.  The \<open>world\<close> keeps the
  history, the set of cancelled tokens and the platform.

  A runner handle stands for the runner value a Rust struct owns; each injected runner has
  its own handle.
\<close>

section \<open>Commands, events and replies\<close>

record CommandSpec =
  program :: path
  arguments :: "string list"

record metadata =
  meta_is_file :: bool
  meta_is_dir :: bool
  meta_is_symlink :: bool
  meta_mode :: u32
  meta_len :: u64

text \<open>\<^verbatim>\<open>std::io::Error\<close>: its operating-system code, whether its kind is
  \<^verbatim>\<open>WouldBlock\<close>, and its text.\<close>

record io_error =
  raw_os_error :: "int option"
  would_block :: bool
  io_text :: string

record OpenOptions =
  open_read :: bool
  open_write :: bool
  open_create :: bool
  open_mode :: "u32 option"
  open_nofollow :: bool
  open_cloexec :: bool

type_synonym runner = nat
type_synonym CancellationToken = nat
type_synonym FileHandle = nat

datatype event =
    CommandRun runner CommandSpec bool
  | CommandOutput runner CommandSpec bool
  | CommandInput runner CommandSpec bytes bool
  | NftApply runner string bool
  | ReadCancelled CancellationToken bool
  | ReadInstant Instant
  | ReadUnixTime u64
  | ReadMetadata path
  | OpenFile path OpenOptions bool
  | FileMetadata FileHandle
  | ReadFile FileHandle
  | LockFile FileHandle bool
  | SetHandler bool

record platform =
  run_reply :: "event list \<Rightarrow> runner \<Rightarrow> CommandSpec \<Rightarrow> TransportError checked"
  output_reply :: "event list \<Rightarrow> runner \<Rightarrow> CommandSpec \<Rightarrow> TransportError + bytes"
  input_reply :: "event list \<Rightarrow> runner \<Rightarrow> CommandSpec \<Rightarrow> bytes \<Rightarrow> TransportError checked"
  nft_reply :: "event list \<Rightarrow> runner \<Rightarrow> string \<Rightarrow> NftablesError checked"
  instant_reply :: "event list \<Rightarrow> Instant"
  unix_reply :: "event list \<Rightarrow> u64"
  signal_reply :: "event list \<Rightarrow> CancellationToken \<Rightarrow> bool"
  metadata_reply :: "event list \<Rightarrow> path \<Rightarrow> metadata option"
  metadata_error :: "event list \<Rightarrow> path \<Rightarrow> io_error"
  open_reply :: "event list \<Rightarrow> path \<Rightarrow> OpenOptions \<Rightarrow> io_error + FileHandle"
  fstat_reply :: "event list \<Rightarrow> FileHandle \<Rightarrow> io_error + metadata"
  read_reply :: "event list \<Rightarrow> FileHandle \<Rightarrow> io_error + bytes"
  lock_reply :: "event list \<Rightarrow> FileHandle \<Rightarrow> io_error checked"
  handler_reply :: "event list \<Rightarrow> string checked"

record world =
  trace :: "event list"
  cancelled :: "CancellationToken set"
  os :: platform

definition log_event :: "event \<Rightarrow> world \<Rightarrow> world" where
  "log_event ev w = w\<lparr>trace := trace w @ [ev]\<rparr>"

lemma log_event_simps [simp]:
  "trace (log_event ev w) = trace w @ [ev]"
  "cancelled (log_event ev w) = cancelled w"
  "os (log_event ev w) = os w"
  by (simp_all add: log_event_def)

section \<open>Operations of the boundary\<close>

definition run_command :: "runner \<Rightarrow> CommandSpec \<Rightarrow> (world, TransportError, unit) rsm" where
  "run_command r c w =
     (let reply = run_reply (os w) (trace w) r c
      in (reply, log_event (CommandRun r c (is_ok reply)) w))"

definition output_command :: "runner \<Rightarrow> CommandSpec \<Rightarrow> (world, TransportError, bytes) rsm" where
  "output_command r c w =
     (let reply = output_reply (os w) (trace w) r c
      in (reply, log_event (CommandOutput r c (is_ok reply)) w))"

definition input_command :: "runner \<Rightarrow> CommandSpec \<Rightarrow> bytes \<Rightarrow> (world, TransportError, unit) rsm" where
  "input_command r c i w =
     (let reply = input_reply (os w) (trace w) r c i
      in (reply, log_event (CommandInput r c i (is_ok reply)) w))"

definition nft_apply :: "runner \<Rightarrow> string \<Rightarrow> (world, NftablesError, unit) rsm" where
  "nft_apply r rules w =
     (let reply = nft_reply (os w) (trace w) r rules
      in (reply, log_event (NftApply r rules (is_ok reply)) w))"

definition instant_now :: "(world, 'e, Instant) rsm" where
  "instant_now w = (let t = instant_reply (os w) (trace w) in (Inr t, log_event (ReadInstant t) w))"

definition unix_now :: "(world, 'e, u64) rsm" where
  "unix_now w = (let t = unix_reply (os w) (trace w) in (Inr t, log_event (ReadUnixTime t) w))"

definition symlink_metadata :: "path \<Rightarrow> (world, 'e, metadata option) rsm" where
  "symlink_metadata p w =
     (Inr (metadata_reply (os w) (trace w) p), log_event (ReadMetadata p) w)"

text \<open>
  Files.  The error of \<^verbatim>\<open>symlink_metadata\<close> is only looked at by the client.  Reading
  yields the whole rest of the file; a bound is the reader's.
\<close>

definition try_symlink_metadata :: "path \<Rightarrow> (world, io_error, metadata) rsm" where
  "try_symlink_metadata p w =
     ((case metadata_reply (os w) (trace w) p of
         None \<Rightarrow> Inl (metadata_error (os w) (trace w) p)
       | Some m \<Rightarrow> Inr m), log_event (ReadMetadata p) w)"

definition open_file :: "path \<Rightarrow> OpenOptions \<Rightarrow> (world, io_error, FileHandle) rsm" where
  "open_file p options w =
     (let reply = open_reply (os w) (trace w) p options
      in (reply, log_event (OpenFile p options (is_ok reply)) w))"

definition file_metadata :: "FileHandle \<Rightarrow> (world, io_error, metadata) rsm" where
  "file_metadata h w = (fstat_reply (os w) (trace w) h, log_event (FileMetadata h) w)"

definition read_file :: "FileHandle \<Rightarrow> (world, io_error, bytes) rsm" where
  "read_file h w = (read_reply (os w) (trace w) h, log_event (ReadFile h) w)"

definition try_lock_exclusive :: "FileHandle \<Rightarrow> (world, io_error, unit) rsm" where
  "try_lock_exclusive h w =
     (let reply = lock_reply (os w) (trace w) h
      in (reply, log_event (LockFile h (is_ok reply)) w))"

definition set_handler :: "(world, string, unit) rsm" where
  "set_handler w =
     (let reply = handler_reply (os w) (trace w)
      in (reply, log_event (SetHandler (is_ok reply)) w))"

text \<open>
  The token is a shared flag.  \<open>cancel\<close> sets it and nothing ever clears it; the signal handler
  may have run at any time before a read.
\<close>

definition cancel :: "CancellationToken \<Rightarrow> world \<Rightarrow> world" where
  "cancel t w = w\<lparr>cancelled := insert t (cancelled w)\<rparr>"

definition is_cancelled :: "CancellationToken \<Rightarrow> (world, 'e, bool) rsm" where
  "is_cancelled t w =
     (let w' = (if signal_reply (os w) (trace w) t then cancel t w else w);
          c = (t \<in> cancelled w')
      in (Inr c, log_event (ReadCancelled t c) w'))"

section \<open>Weakest preconditions of the boundary\<close>

lemma wp_run_command [wp_simps]:
  "wp (run_command r c) Q E w =
     (case run_reply (os w) (trace w) r c of
        Inl e \<Rightarrow> E e (log_event (CommandRun r c False) w)
      | Inr u \<Rightarrow> Q u (log_event (CommandRun r c True) w))"
  by (simp add: wp_def run_command_def Let_def split: sum.splits)

lemma wp_output_command [wp_simps]:
  "wp (output_command r c) Q E w =
     (case output_reply (os w) (trace w) r c of
        Inl e \<Rightarrow> E e (log_event (CommandOutput r c False) w)
      | Inr b \<Rightarrow> Q b (log_event (CommandOutput r c True) w))"
  by (simp add: wp_def output_command_def Let_def split: sum.splits)

lemma wp_input_command [wp_simps]:
  "wp (input_command r c i) Q E w =
     (case input_reply (os w) (trace w) r c i of
        Inl e \<Rightarrow> E e (log_event (CommandInput r c i False) w)
      | Inr u \<Rightarrow> Q u (log_event (CommandInput r c i True) w))"
  by (simp add: wp_def input_command_def Let_def split: sum.splits)

lemma wp_nft_apply [wp_simps]:
  "wp (nft_apply r rules) Q E w =
     (case nft_reply (os w) (trace w) r rules of
        Inl e \<Rightarrow> E e (log_event (NftApply r rules False) w)
      | Inr u \<Rightarrow> Q u (log_event (NftApply r rules True) w))"
  by (simp add: wp_def nft_apply_def Let_def split: sum.splits)

lemma wp_instant_now [wp_simps]:
  "wp instant_now Q E w =
     (let t = instant_reply (os w) (trace w) in Q t (log_event (ReadInstant t) w))"
  by (simp add: wp_def instant_now_def Let_def)

lemma wp_unix_now [wp_simps]:
  "wp unix_now Q E w = (let t = unix_reply (os w) (trace w) in Q t (log_event (ReadUnixTime t) w))"
  by (simp add: wp_def unix_now_def Let_def)

lemma wp_symlink_metadata [wp_simps]:
  "wp (symlink_metadata p) Q E w =
     Q (metadata_reply (os w) (trace w) p) (log_event (ReadMetadata p) w)"
  by (simp add: wp_def symlink_metadata_def)

lemma wp_try_symlink_metadata [wp_simps]:
  "wp (try_symlink_metadata p) Q E w =
     (case metadata_reply (os w) (trace w) p of
        None \<Rightarrow> E (metadata_error (os w) (trace w) p) (log_event (ReadMetadata p) w)
      | Some m \<Rightarrow> Q m (log_event (ReadMetadata p) w))"
  by (simp add: wp_def try_symlink_metadata_def split: option.split)

lemma wp_open_file [wp_simps]:
  "wp (open_file p options) Q E w =
     (case open_reply (os w) (trace w) p options of
        Inl e \<Rightarrow> E e (log_event (OpenFile p options False) w)
      | Inr h \<Rightarrow> Q h (log_event (OpenFile p options True) w))"
  by (simp add: wp_def open_file_def Let_def split: sum.splits)

lemma wp_file_metadata [wp_simps]:
  "wp (file_metadata h) Q E w =
     (case fstat_reply (os w) (trace w) h of
        Inl e \<Rightarrow> E e (log_event (FileMetadata h) w)
      | Inr m \<Rightarrow> Q m (log_event (FileMetadata h) w))"
  by (simp add: wp_def file_metadata_def)

lemma wp_read_file [wp_simps]:
  "wp (read_file h) Q E w =
     (case read_reply (os w) (trace w) h of
        Inl e \<Rightarrow> E e (log_event (ReadFile h) w)
      | Inr b \<Rightarrow> Q b (log_event (ReadFile h) w))"
  by (simp add: wp_def read_file_def)

lemma wp_try_lock_exclusive [wp_simps]:
  "wp (try_lock_exclusive h) Q E w =
     (case lock_reply (os w) (trace w) h of
        Inl e \<Rightarrow> E e (log_event (LockFile h False) w)
      | Inr u \<Rightarrow> Q u (log_event (LockFile h True) w))"
  by (simp add: wp_def try_lock_exclusive_def Let_def split: sum.splits)

lemma wp_set_handler [wp_simps]:
  "wp set_handler Q E w =
     (case handler_reply (os w) (trace w) of
        Inl e \<Rightarrow> E e (log_event (SetHandler False) w)
      | Inr u \<Rightarrow> Q u (log_event (SetHandler True) w))"
  by (simp add: wp_def set_handler_def Let_def split: sum.splits)

lemma wp_is_cancelled [wp_simps]:
  "wp (is_cancelled t) Q E w =
     (let w' = (if signal_reply (os w) (trace w) t then cancel t w else w)
      in Q (t \<in> cancelled w') (log_event (ReadCancelled t (t \<in> cancelled w')) w'))"
  by (simp add: wp_def is_cancelled_def Let_def)

lemma cancel_simps [simp]:
  "trace (cancel t w) = trace w"
  "os (cancel t w) = os w"
  "cancelled (cancel t w) = insert t (cancelled w)"
  by (simp_all add: cancel_def)

section \<open>Local variables\<close>

text \<open>
  \<open>with_local\<close> runs a computation on a mutable local, such as a vector passed by
  \<^verbatim>\<open>&mut\<close>, and yields its outcome with the final value of the local.
\<close>

definition with_local ::
  "'l \<Rightarrow> ('l \<times> 'w, 'e, 'a) rsm \<Rightarrow> ('o \<times> 'w, 'f, ('e + 'a) \<times> 'l) rsm" where
  "with_local l m s = (case m (l, snd s) of (r, (l', w)) \<Rightarrow> (Inr (r, l'), (fst s, w)))"

lemma wp_with_local [wp_simps]:
  "wp (with_local l m) Q E s =
     wp m (\<lambda>a t. Q (Inr a, fst t) (fst s, snd t)) (\<lambda>e t. Q (Inl e, fst t) (fst s, snd t)) (l, snd s)"
  by (simp add: wp_def with_local_def split: prod.splits sum.splits)

section \<open>Which steps a computation takes\<close>

text \<open>
  \<open>extends P w w'\<close>: the world \<open>w'\<close> is reached from \<open>w\<close> by interactions that all satisfy
  \<open>P\<close>, on the same platform, and no token was cleared on the way.  The lemmas of the
  collection \<open>frame_intros\<close> show that an operation only takes such steps.
\<close>

definition extends :: "(event \<Rightarrow> bool) \<Rightarrow> world \<Rightarrow> world \<Rightarrow> bool" where
  "extends P w w' \<longleftrightarrow>
     os w' = os w \<and> cancelled w \<subseteq> cancelled w' \<and>
     (\<exists>evs. trace w' = trace w @ evs \<and> (\<forall>ev \<in> set evs. P ev))"

named_theorems frame_intros \<open>operations whose interactions satisfy a predicate\<close>

lemma extends_refl [intro, simp]: "extends P w w"
  by (simp add: extends_def)

lemma extends_trans: "extends P u v \<Longrightarrow> extends P v w \<Longrightarrow> extends P u w"
  by (fastforce simp: extends_def)

lemma extends_log: "extends P u w \<Longrightarrow> P ev \<Longrightarrow> extends P u (log_event ev w)"
  by (fastforce simp: extends_def)

lemma extends_cancel: "extends P u w \<Longrightarrow> extends P u (cancel t w)"
  by (auto simp: extends_def)

lemma extends_mono: "extends P u w \<Longrightarrow> (\<And>ev. P ev \<Longrightarrow> Q ev) \<Longrightarrow> extends Q u w"
  by (fastforce simp: extends_def)

lemma extendsE:
  assumes "extends P w w'"
  obtains evs where "trace w' = trace w @ evs" "\<forall>ev \<in> set evs. P ev" "os w' = os w"
    "cancelled w \<subseteq> cancelled w'"
  using assms by (auto simp: extends_def)

text \<open>The same as a predicate of computations on the world, and on an object and the world.\<close>

definition onlyW :: "(event \<Rightarrow> bool) \<Rightarrow> (world, 'e, 'a) rsm \<Rightarrow> bool" where
  "onlyW P m \<longleftrightarrow> (\<forall>w. always m (extends P w) w)"

definition only :: "(event \<Rightarrow> bool) \<Rightarrow> ('o \<times> world, 'e, 'a) rsm \<Rightarrow> bool" where
  "only P m \<longleftrightarrow> (\<forall>s. always m (\<lambda>t. extends P (snd s) (snd t)) s)"

lemma onlyD: "only P m \<Longrightarrow> m s = (r, t) \<Longrightarrow> extends P (snd s) (snd t)"
  unfolding only_def using alwaysD [of m "\<lambda>t. extends P (snd s) (snd t)" s r t] by blast

lemma onlyWD: "onlyW P m \<Longrightarrow> m w = (r, w') \<Longrightarrow> extends P w w'"
  by (auto simp: onlyW_def dest: alwaysD)

lemma only_mono: "only P m \<Longrightarrow> (\<And>ev. P ev \<Longrightarrow> Q ev) \<Longrightarrow> only Q m"
  unfolding only_def by (blast intro: wp_mono extends_mono)

lemma only_pure [frame_intros]:
  "only P (ret a)" "only P (throw e)" "only P (of_result r)" "only P (reject_if c e)"
  "only P get_self" "only P (modify_self f)"
  by (simp_all add: only_def wp_simps split: sum.splits)

lemma only_checked_result [frame_intros]: "only P (checked_result r)"
  by (simp add: only_def wp_simps split: option.split sum.split)

lemma only_bindE [frame_intros]:
  fixes m :: "('o \<times> world, 'e, 'a) rsm"
  assumes "only P m" and "\<And>a. only P (f a)"
  shows "only P (bindE m f)"
  unfolding only_def wp_simps
proof
  fix s
  have "always m (\<lambda>t. extends P (snd s) (snd t)) s"
    using assms(1) unfolding only_def by blast
  then show "wp m (\<lambda>a. always (f a) (\<lambda>t. extends P (snd s) (snd t))) (\<lambda>_ t. extends P (snd s) (snd t)) s"
  proof (rule wp_mono)
    fix a and t :: "'o \<times> world"
    assume "extends P (snd s) (snd t)"
    moreover have "always (f a) (\<lambda>u. extends P (snd t) (snd u)) t"
      using assms(2) unfolding only_def by blast
    ultimately show "always (f a) (\<lambda>t. extends P (snd s) (snd t)) t"
      by (blast intro: wp_mono extends_trans)
  qed
qed

lemma only_seqE [frame_intros]: "only P m \<Longrightarrow> only P n \<Longrightarrow> only P (seqE m n)"
  by (simp add: seqE_def only_bindE)

lemma only_outcome_of [frame_intros]: "only P m \<Longrightarrow> only P (outcome_of m)"
  by (simp add: only_def wp_simps)

lemma only_map_err [frame_intros]: "only P m \<Longrightarrow> only P (map_err f m)"
  by (simp add: only_def wp_simps)

lemma only_if [frame_intros]: "only P m \<Longrightarrow> only P n \<Longrightarrow> only P (if c then m else n)"
  by simp

lemma only_case_sum [frame_intros]:
  "(\<And>e. only P (f e)) \<Longrightarrow> (\<And>a. only P (g a)) \<Longrightarrow> only P (case r of Inl e \<Rightarrow> f e | Inr a \<Rightarrow> g a)"
  by (simp split: sum.splits)

lemma only_case_option [frame_intros]:
  "only P m \<Longrightarrow> (\<And>a. only P (g a)) \<Longrightarrow> only P (case r of None \<Rightarrow> m | Some a \<Rightarrow> g a)"
  by (simp split: option.splits)

lemma only_case_prod [frame_intros]:
  "(\<And>a b. only P (f a b)) \<Longrightarrow> only P (case r of (a, b) \<Rightarrow> f a b)"
  by (simp split: prod.splits)

lemma only_on_world [frame_intros]: "onlyW P m \<Longrightarrow> only P (on_world m)"
  by (simp add: only_def onlyW_def wp_simps)

lemma only_on_field [frame_intros]: "only P m \<Longrightarrow> only P (on_field sel upd m)"
  by (simp add: only_def wp_simps)

lemma only_with_local [frame_intros]: "only P m \<Longrightarrow> only P (with_local l m)"
  by (simp add: only_def wp_simps)

lemma only_for_each [frame_intros]: "(\<And>x. only P (f x)) \<Longrightarrow> only P (for_each f xs)"
  by (induction xs) (auto simp: for_each.simps intro: frame_intros)

lemma onlyW_pure [frame_intros]:
  "onlyW P (ret a)" "onlyW P (throw e)" "onlyW P (of_result r)" "onlyW P (reject_if c e)"
  by (simp_all add: onlyW_def wp_simps split: sum.splits)

lemma onlyW_bindE [frame_intros]:
  assumes "onlyW P m" and "\<And>a. onlyW P (f a)"
  shows "onlyW P (bindE m f)"
  unfolding onlyW_def wp_simps
proof
  fix w
  have "always m (extends P w) w"
    using assms(1) by (simp add: onlyW_def)
  then show "wp m (\<lambda>a. always (f a) (extends P w)) (\<lambda>_. extends P w) w"
  proof (rule wp_mono)
    fix a u
    assume "extends P w u"
    moreover have "always (f a) (extends P u) u"
      using assms(2) by (simp add: onlyW_def)
    ultimately show "always (f a) (extends P w) u"
      by (blast intro: wp_mono extends_trans)
  qed
qed

lemma onlyW_seqE [frame_intros]: "onlyW P m \<Longrightarrow> onlyW P n \<Longrightarrow> onlyW P (seqE m n)"
  by (simp add: seqE_def onlyW_bindE)

lemma onlyW_map_err [frame_intros]: "onlyW P m \<Longrightarrow> onlyW P (map_err f m)"
  by (simp add: onlyW_def wp_simps)

lemma onlyW_if [frame_intros]: "onlyW P m \<Longrightarrow> onlyW P n \<Longrightarrow> onlyW P (if c then m else n)"
  by simp

lemma onlyW_case_option [frame_intros]:
  "onlyW P m \<Longrightarrow> (\<And>a. onlyW P (g a)) \<Longrightarrow> onlyW P (case r of None \<Rightarrow> m | Some a \<Rightarrow> g a)"
  by (simp split: option.splits)

lemma onlyW_for_each [frame_intros]: "(\<And>x. onlyW P (f x)) \<Longrightarrow> onlyW P (for_each f xs)"
  by (induction xs) (auto simp: for_each.simps intro: frame_intros)

lemma onlyW_boundary [frame_intros]:
  "(\<And>b. P (CommandRun r c b)) \<Longrightarrow> onlyW P (run_command r c)"
  "(\<And>b. P (CommandOutput r c b)) \<Longrightarrow> onlyW P (output_command r c)"
  "(\<And>b. P (CommandInput r c i b)) \<Longrightarrow> onlyW P (input_command r c i)"
  "(\<And>b. P (NftApply r rules b)) \<Longrightarrow> onlyW P (nft_apply r rules)"
  "(\<And>t. P (ReadInstant t)) \<Longrightarrow> onlyW P instant_now"
  "(\<And>t. P (ReadUnixTime t)) \<Longrightarrow> onlyW P unix_now"
  "P (ReadMetadata p) \<Longrightarrow> onlyW P (symlink_metadata p)"
  "(\<And>b. P (ReadCancelled t b)) \<Longrightarrow> onlyW P (is_cancelled t)"
  "P (ReadMetadata p) \<Longrightarrow> onlyW P (try_symlink_metadata p)"
  "(\<And>b. P (OpenFile p options b)) \<Longrightarrow> onlyW P (open_file p options)"
  "P (FileMetadata h) \<Longrightarrow> onlyW P (file_metadata h)"
  "P (ReadFile h) \<Longrightarrow> onlyW P (read_file h)"
  "(\<And>b. P (LockFile h b)) \<Longrightarrow> onlyW P (try_lock_exclusive h)"
  "(\<And>b. P (SetHandler b)) \<Longrightarrow> onlyW P set_handler"
  by (auto simp: onlyW_def wp_simps Let_def intro: extends_log extends_cancel split: sum.splits option.splits)

text \<open>What the tunnel side of the program does: it never applies rules and never feeds a command.\<close>

definition tunnel_event :: "event \<Rightarrow> bool" where
  "tunnel_event ev = (case ev of NftApply _ _ _ \<Rightarrow> False | CommandInput _ _ _ _ \<Rightarrow> False | _ \<Rightarrow> True)"

lemma tunnel_event_simps [simp]:
  "tunnel_event (CommandRun r c b)" "tunnel_event (CommandOutput r c b)"
  "tunnel_event (ReadCancelled t b)" "tunnel_event (ReadInstant n)" "tunnel_event (ReadUnixTime u)"
  "tunnel_event (ReadMetadata p)" "tunnel_event (OpenFile p options b)" "tunnel_event (FileMetadata h)"
  "tunnel_event (ReadFile h)" "tunnel_event (LockFile h b)" "tunnel_event (SetHandler b)"
  "\<not> tunnel_event (NftApply r rules b)" "\<not> tunnel_event (CommandInput r c i b)"
  by (simp_all add: tunnel_event_def)

section \<open>A concrete platform\<close>

text \<open>
  Every command succeeds, the clock stands still, no signal arrives, every path is a private
  regular file and every file is empty.
\<close>

abbreviation private_file :: metadata where
  "private_file \<equiv> \<lparr>meta_is_file = True, meta_is_dir = False, meta_is_symlink = False, meta_mode = 0x81C0,
    meta_len = 0\<rparr>"

definition calm_platform :: platform where
  "calm_platform =
     \<lparr>run_reply = \<lambda>_ _ _. ok, output_reply = \<lambda>_ _ _. Inr [], input_reply = \<lambda>_ _ _ _. ok,
      nft_reply = \<lambda>_ _ _. ok, instant_reply = \<lambda>_. 1000, unix_reply = \<lambda>_. 1000,
      signal_reply = \<lambda>_ _. False, metadata_reply = \<lambda>_ _. Some private_file,
      metadata_error = \<lambda>_ _. \<lparr>raw_os_error = None, would_block = False, io_text = []\<rparr>,
      open_reply = \<lambda>_ _ _. Inr 0, fstat_reply = \<lambda>_ _. Inr private_file, read_reply = \<lambda>_ _. Inr [],
      lock_reply = \<lambda>_ _. ok, handler_reply = \<lambda>_. ok\<rparr>"

definition calm_world :: world where
  "calm_world = \<lparr>trace = [], cancelled = {}, os = calm_platform\<rparr>"

lemma calm_simps [simp]:
  "trace calm_world = []" "cancelled calm_world = {}" "os calm_world = calm_platform"
  "run_reply calm_platform tr r c = ok" "output_reply calm_platform tr r c = Inr []"
  "input_reply calm_platform tr r c i = ok" "nft_reply calm_platform tr r rules = ok"
  "instant_reply calm_platform tr = 1000" "unix_reply calm_platform tr = 1000"
  "\<not> signal_reply calm_platform tr t"
  "metadata_reply calm_platform tr p = Some private_file" "open_reply calm_platform tr p options = Inr 0"
  "fstat_reply calm_platform tr h = Inr private_file" "lock_reply calm_platform tr h = ok"
  "handler_reply calm_platform tr = ok"
  by (simp_all add: calm_world_def calm_platform_def)

end
