(* ===== verification/Net_Addr.thy ===== *)
theory Net_Addr
  imports Rust_Std
begin

unbundle bit_operations_syntax

text \<open>
  \<^verbatim>\<open>core::net::IpAddr\<close>: the two address families, the classification predicates the
  validators call, the canonical text of an address and the parser of that text.
\<close>

section \<open>Addresses\<close>

datatype IpAddr = V4 u32 | V6 u128

fun is_ipv4 :: "IpAddr \<Rightarrow> bool" where
  "is_ipv4 (V4 _) = True"
| "is_ipv4 (V6 _) = False"

fun is_unspecified :: "IpAddr \<Rightarrow> bool" where
  "is_unspecified (V4 a) = (a = 0)"
| "is_unspecified (V6 a) = (a = 0)"

definition octets :: "u32 \<Rightarrow> nat list" where
  "octets a = (let n = unat a in [n div 256 ^ 3, n div 256 ^ 2 mod 256, n div 256 mod 256, n mod 256])"

definition segments :: "u128 \<Rightarrow> nat list" where
  "segments a = map (\<lambda>i. unat a div 65536 ^ (7 - i) mod 65536) [0, 1, 2, 3, 4, 5, 6, 7]"

text \<open>\<^verbatim>\<open>224.0.0.0/4\<close> and \<^verbatim>\<open>ff00::/8\<close>.\<close>

fun is_multicast :: "IpAddr \<Rightarrow> bool" where
  "is_multicast (V4 a) = (224 \<le> octets a ! 0 \<and> octets a ! 0 \<le> 239)"
| "is_multicast (V6 a) = (65280 \<le> segments a ! 0)"

definition to_ipv4_mapped :: "u128 \<Rightarrow> u32 option" where
  "to_ipv4_mapped a =
     (if take 6 (segments a) = [0, 0, 0, 0, 0, 65535] then Some (ucast a) else None)"

section \<open>Text of an address\<close>

definition show_ipv4 :: "u32 \<Rightarrow> string" where
  "show_ipv4 a = join ''.'' (map show_dec (octets a))"

text \<open>The first longest run of zero segments, as a start and a length.\<close>

fun zero_span :: "nat \<Rightarrow> nat \<times> nat \<Rightarrow> nat \<times> nat \<Rightarrow> nat list \<Rightarrow> nat \<times> nat" where
  "zero_span i current longest [] = longest"
| "zero_span i current longest (x # xs) =
     (if x = 0
      then let current' = (if snd current = 0 then (i, 1) else (fst current, snd current + 1))
           in zero_span (Suc i) current' (if snd longest < snd current' then current' else longest) xs
      else zero_span (Suc i) (0, 0) longest xs)"

definition show_segments :: "nat list \<Rightarrow> string" where
  "show_segments xs = join '':'' (map show_hex xs)"

definition show_ipv6 :: "u128 \<Rightarrow> string" where
  "show_ipv6 a =
     (case to_ipv4_mapped a of
        Some v4 \<Rightarrow> ''::ffff:'' @ show_ipv4 v4
      | None \<Rightarrow>
          (let segs = segments a;
               zeroes = zero_span 0 (0, 0) (0, 0) segs
           in if 1 < snd zeroes
              then show_segments (take (fst zeroes) segs) @ ''::''
                   @ show_segments (drop (fst zeroes + snd zeroes) segs)
              else show_segments segs))"

fun show_ip :: "IpAddr \<Rightarrow> string" where
  "show_ip (V4 a) = show_ipv4 a"
| "show_ip (V6 a) = show_ipv6 a"

section \<open>Parsing an address\<close>

type_synonym 'a parser = "string \<Rightarrow> ('a \<times> string) option"

definition read_number :: "nat \<Rightarrow> nat \<Rightarrow> bool \<Rightarrow> nat \<Rightarrow> nat parser" where
  "read_number radix max_digits allow_zero_prefix maximum s =
     (let ds = takeWhile (\<lambda>c. to_digit radix c \<noteq> None) s
      in if ds = [] \<or> max_digits < length ds then None
         else if \<not> allow_zero_prefix \<and> hd ds = CHR ''0'' \<and> 1 < length ds then None
         else case digits_value radix 0 ds of
                None \<Rightarrow> None
              | Some v \<Rightarrow> if v \<le> maximum then Some (v, drop (length ds) s) else None)"

definition read_separator :: "char \<Rightarrow> nat \<Rightarrow> 'a parser \<Rightarrow> 'a parser" where
  "read_separator sep index inner s =
     (if 0 < index
      then (case s of [] \<Rightarrow> None | c # cs \<Rightarrow> if c = sep then inner cs else None)
      else inner s)"

fun read_octets :: "nat \<Rightarrow> nat \<Rightarrow> nat list parser" where
  "read_octets index 0 s = Some ([], s)"
| "read_octets index (Suc n) s =
     (case read_separator CHR ''.'' index (read_number 10 3 False 255) s of
        None \<Rightarrow> None
      | Some (x, r) \<Rightarrow>
          (case read_octets (Suc index) n r of None \<Rightarrow> None | Some (xs, r') \<Rightarrow> Some (x # xs, r')))"

definition from_digits :: "nat \<Rightarrow> nat list \<Rightarrow> nat" where
  "from_digits base xs = foldl (\<lambda>acc x. acc * base + x) 0 xs"

definition read_ipv4_addr :: "u32 parser" where
  "read_ipv4_addr s =
     (case read_octets 0 4 s of
        None \<Rightarrow> None
      | Some (xs, r) \<Rightarrow> Some (of_nat (from_digits 256 xs), r))"

fun read_groups :: "nat \<Rightarrow> nat \<Rightarrow> string \<Rightarrow> nat list \<times> bool \<times> string" where
  "read_groups index 0 s = ([], False, s)"
| "read_groups index (Suc n) s =
     (case (if 0 < n then read_separator CHR '':'' index read_ipv4_addr s else None) of
        Some (v4, r) \<Rightarrow> ([unat v4 div 65536, unat v4 mod 65536], True, r)
      | None \<Rightarrow>
          (case read_separator CHR '':'' index (read_number 16 4 True 65535) s of
             None \<Rightarrow> ([], False, s)
           | Some (g, r) \<Rightarrow>
               (case read_groups (Suc index) n r of (gs, v4, r') \<Rightarrow> (g # gs, v4, r'))))"

definition read_ipv6_addr :: "u128 parser" where
  "read_ipv6_addr s =
     (case read_groups 0 8 s of (head, head_ipv4, r) \<Rightarrow>
        if length head = 8 then Some (of_nat (from_digits 65536 head), r)
        else if head_ipv4 then None
        else if take 2 r \<noteq> ''::'' then None
        else case read_groups 0 (8 - (length head + 1)) (drop 2 r) of (tail, _, r') \<Rightarrow>
               Some (of_nat (from_digits 65536
                 (head @ replicate (8 - length head - length tail) 0 @ tail)), r'))"

definition parse_ip :: "string \<Rightarrow> IpAddr option" where
  "parse_ip s =
     (case read_ipv4_addr s of
        Some (a, r) \<Rightarrow> if r = [] then Some (V4 a) else None
      | None \<Rightarrow>
          (case read_ipv6_addr s of
             Some (a, r) \<Rightarrow> if r = [] then Some (V6 a) else None
           | None \<Rightarrow> None))"

section \<open>Reading back an IPv4 address\<close>

lemma to_digit_of_ascii_digit: "is_ascii_digit c \<Longrightarrow> to_digit 10 c \<noteq> None"
  by (auto simp: is_ascii_digit_def to_digit_def Let_def)

lemma takeWhile_show_dec:
  assumes "r = [] \<or> to_digit 10 (hd r) = None"
  shows "takeWhile (\<lambda>c. to_digit 10 c \<noteq> None) (show_dec n @ r) = show_dec n"
proof -
  have "\<forall>c \<in> set (show_dec n). to_digit 10 c \<noteq> None"
    using show_dec_digits to_digit_of_ascii_digit by blast
  then show ?thesis
    using assms by (cases r) (simp_all add: takeWhile_append2)
qed

lemma read_number_show_dec:
  assumes "n \<le> 255" and "r = [] \<or> to_digit 10 (hd r) = None"
  shows "read_number 10 3 False 255 (show_dec n @ r) = Some (n, r)"
proof -
  have len: "length (show_dec n) \<le> 3" using assms(1) by (intro length_show_dec_less) auto
  have z: "\<not> (hd (show_dec n) = CHR ''0'' \<and> 1 < length (show_dec n))"
  proof (cases "n < 10")
    case True
    then show ?thesis by (simp add: show_dec.simps)
  next
    case False
    then show ?thesis using show_dec_no_leading_zero [of n] by simp
  qed
  show ?thesis
    unfolding read_number_def Let_def takeWhile_show_dec [OF assms(2)]
    using len z assms(1) digits_value_show_dec [of n] by auto
qed

lemma read_octets_join:
  assumes "\<forall>x \<in> set xs. x \<le> 255" and "xs \<noteq> []"
    and "r = [] \<or> (to_digit 10 (hd r) = None)"
  shows "read_octets index (length xs)
           ((if index = 0 then '''' else ''.'') @ join ''.'' (map show_dec xs) @ r) = Some (xs, r)"
  using assms(1,2)
proof (induction xs arbitrary: index)
  case Nil
  then show ?case by simp
next
  case (Cons x xs)
  have dot: "to_digit 10 CHR ''.'' = None" by (simp add: to_digit_def Let_def)
  show ?case
  proof (cases xs)
    case Nil
    then show ?thesis
      using Cons.prems assms(3) read_number_show_dec [of x r]
      by (simp add: read_separator_def)
  next
    case (Cons y ys)
    have rn: "read_number 10 3 False 255 (show_dec x @ ''.'' @ join ''.'' (map show_dec xs) @ r)
        = Some (x, ''.'' @ join ''.'' (map show_dec xs) @ r)"
      using Cons.prems dot by (intro read_number_show_dec) auto
    have ih: "read_octets (Suc index) (length xs)
        (''.'' @ join ''.'' (map show_dec xs) @ r) = Some (xs, r)"
      using Cons.IH [of "Suc index"] Cons.prems Cons by simp
    have "join ''.'' (map show_dec (x # xs)) = show_dec x @ ''.'' @ join ''.'' (map show_dec xs)"
      using Cons by simp
    then show ?thesis
      using rn ih by (cases index) (simp_all add: read_separator_def)
  qed
qed

lemma octets_small: "x \<in> set (octets a) \<Longrightarrow> x \<le> 255"
proof -
  have "unat a < 2 ^ 32" using unsigned_less [of a] by simp
  then show "x \<in> set (octets a) \<Longrightarrow> x \<le> 255"
    by (auto simp: octets_def Let_def)
qed

lemma from_digits_octets: "from_digits 256 (octets a) = unat a"
proof -
  let ?n = "unat a"
  have d: "?n div 65536 = ?n div 256 div 256" "?n div 16777216 = ?n div 256 div 256 div 256"
    by (simp_all flip: div_mult2_eq)
  show ?thesis
    unfolding from_digits_def octets_def Let_def by (simp add: d del: div_mult2_eq)
qed

lemma read_show_ipv4:
  assumes "r = [] \<or> to_digit 10 (hd r) = None"
  shows "read_ipv4_addr (show_ipv4 a @ r) = Some (a, r)"
proof -
  have "read_octets 0 (length (octets a)) (join ''.'' (map show_dec (octets a)) @ r)
      = Some (octets a, r)"
    using read_octets_join [of "octets a" r 0] octets_small assms by (simp add: octets_def Let_def)
  moreover have "length (octets a) = 4" by (simp add: octets_def Let_def)
  ultimately show ?thesis
    by (simp add: read_ipv4_addr_def show_ipv4_def from_digits_octets)
qed

lemma parse_show_ipv4: "parse_ip (show_ipv4 a) = Some (V4 a)"
  using read_show_ipv4 [of "[]" a] by (simp add: parse_ip_def)

section \<open>Characters of an address text\<close>

definition ip_char :: "char \<Rightarrow> bool" where
  "ip_char c \<longleftrightarrow> is_ascii_alphanumeric c \<or> c = CHR ''.'' \<or> c = CHR '':''"

lemma show_ipv4_chars: "c \<in> set (show_ipv4 a) \<Longrightarrow> ip_char c"
  unfolding show_ipv4_def
  by (auto dest!: set_join show_dec_digits simp: ip_char_def is_ascii_alphanumeric_def)

lemma show_segments_chars: "c \<in> set (show_segments xs) \<Longrightarrow> ip_char c"
  unfolding show_segments_def by (auto dest!: set_join show_hex_chars simp: ip_char_def)

lemma show_ipv6_chars: "c \<in> set (show_ipv6 a) \<Longrightarrow> ip_char c"
  unfolding show_ipv6_def Let_def
  by (auto dest: show_segments_chars show_ipv4_chars split: option.splits if_splits
      simp: ip_char_def is_ascii_alphanumeric_def)

lemma show_ip_chars: "c \<in> set (show_ip a) \<Longrightarrow> ip_char c"
  by (cases a) (auto intro: show_ipv4_chars show_ipv6_chars)

lemma ip_char_not_newline: "ip_char c \<Longrightarrow> c \<noteq> newline"
  by (auto simp: ip_char_def is_ascii_alphanumeric_def is_ascii_digit_def)

lemma show_ip_no_newline: "newline \<notin> set (show_ip a)"
  using show_ip_chars ip_char_not_newline by blast

end
