(* ===== verification/Transport.thy ===== *)
theory Transport
  imports Platform Net_Addr
begin

text \<open>
  \<^verbatim>\<open>core/transport/src/lib.rs\<close>: the transport vocabulary, resolver and transport
  validation, and the execution bounds of a connection attempt.
\<close>

section \<open>Configuration\<close>

datatype TransportKind =
    WireGuard | Vless | Hysteria2 | Tuic | Trojan | Shadowsocks | Ikev2 | OpenVpn | SoftEther
  | Socks5 | HttpProxy

record DnsConfig =
  resolvers :: "IpAddr list"

fun canonical_address :: "IpAddr \<Rightarrow> IpAddr" where
  "canonical_address (V6 a) = (case to_ipv4_mapped a of None \<Rightarrow> V6 a | Some b \<Rightarrow> V4 b)"
| "canonical_address (V4 a) = V4 a"

fun check_resolvers :: "IpAddr set \<Rightarrow> IpAddr list \<Rightarrow> TransportError checked" where
  "check_resolvers unique [] = ok"
| "check_resolvers unique (resolver # rest) =
     (let address = canonical_address resolver
      in if is_unspecified address \<or> is_multicast address \<or> address \<in> unique
         then Inl (InvalidConfig ''invalid or duplicate DNS resolver'')
         else check_resolvers (insert address unique) rest)"

definition DnsConfig_validate :: "DnsConfig \<Rightarrow> TransportError checked" where
  "DnsConfig_validate config =
     (if resolvers config = [] \<or> 8 < length (resolvers config)
      then Inl (InvalidConfig ''DNS resolver list must contain between 1 and 8 addresses'')
      else check_resolvers {} (resolvers config))"

record Endpoint =
  host :: string
  port :: u16

record TransportConfig =
  kind :: TransportKind
  endpoint :: Endpoint
  connect_timeout :: Duration

definition TransportConfig_validate :: "TransportConfig \<Rightarrow> TransportError checked" where
  "TransportConfig_validate config =
     (if trim (host (endpoint config)) = [] then Inl (InvalidConfig ''endpoint host is empty'')
      else if connect_timeout config = 0 then Inl (InvalidConfig ''connect timeout is zero'')
      else ok)"

section \<open>Execution bounds\<close>

record ConnectContext =
  deadline :: Instant
  cancellation :: CancellationToken

definition check :: "ConnectContext \<Rightarrow> (world, TransportError, unit) rsm" where
  "check context =
     bindE (is_cancelled (cancellation context)) (\<lambda>c.
     seqE (reject_if c Cancelled)
     (bindE instant_now (\<lambda>now.
      reject_if (deadline context \<le> now) TimedOut)))"

lemma check_frame [frame_intros]:
  assumes "\<And>t b. P (ReadCancelled t b)" and "\<And>t. P (ReadInstant t)"
  shows "onlyW P (check context)"
  unfolding check_def using assms by (intro frame_intros) auto

section \<open>Sessions and health\<close>

record Session =
  session_id :: string
  session_transport :: TransportKind
  established_at :: Instant

datatype HealthStatus = Healthy | Degraded | Unavailable

record TransportHealth =
  status :: HealthStatus
  round_trip_time :: "Duration option"
  consecutive_failures :: u32

section \<open>Resolver lists\<close>

text \<open>What an accepted resolver list is: distinct usable addresses after canonicalisation.\<close>

definition usable_resolver :: "IpAddr \<Rightarrow> bool" where
  "usable_resolver a \<longleftrightarrow> \<not> is_unspecified (canonical_address a) \<and> \<not> is_multicast (canonical_address a)"

lemma check_resolvers_ok:
  "check_resolvers unique rs = ok \<longleftrightarrow>
     (\<forall>a \<in> set rs. usable_resolver a \<and> canonical_address a \<notin> unique) \<and>
     distinct (map canonical_address rs)"
  by (induction rs arbitrary: unique) (auto simp: usable_resolver_def Let_def intro: rev_image_eqI)

lemma DnsConfig_validate_ok:
  "DnsConfig_validate config = ok \<longleftrightarrow>
     length (resolvers config) \<in> {1..8} \<and>
     (\<forall>a \<in> set (resolvers config). usable_resolver a) \<and>
     distinct (map canonical_address (resolvers config))"
  by (auto simp: DnsConfig_validate_def check_resolvers_ok Suc_le_eq)

text \<open>The text of an accepted endpoint host is never blank.\<close>

lemma TransportConfig_validate_ok:
  "TransportConfig_validate config = ok \<longleftrightarrow>
     trim (host (endpoint config)) \<noteq> [] \<and> 0 < connect_timeout config"
  by (simp add: TransportConfig_validate_def)

section \<open>Cancellation and deadlines\<close>

text \<open>A check succeeds only when the token is clear and the deadline lies in the future.\<close>

lemma check_result:
  "check context w = (r, w') \<Longrightarrow>
     (r = Inl Cancelled \<and> cancellation context \<in> cancelled w') \<or>
     (r = Inl TimedOut \<and> cancellation context \<notin> cancelled w' \<and>
        (\<exists>t. last (trace w') = ReadInstant t \<and> deadline context \<le> t)) \<or>
     (r = ok \<and> cancellation context \<notin> cancelled w' \<and>
        (\<exists>t. last (trace w') = ReadInstant t \<and> t < deadline context))"
  by (auto simp: check_def bindE_def seqE_def is_cancelled_def instant_now_def reject_if_def
      throw_def ret_def Let_def split: if_splits)

text \<open>Once the handler has run, every later check fails.\<close>

lemma check_after_cancel:
  assumes "cancellation context \<in> cancelled w"
  shows "fst (check context w) = Inl Cancelled"
  using assms
  by (simp add: check_def bindE_def seqE_def is_cancelled_def reject_if_def throw_def Let_def)

text \<open>
  A platform that accepts every command of a runner, on which the deadline of a context never
  passes and its token is never cancelled.
\<close>

definition favourable :: "runner \<Rightarrow> ConnectContext \<Rightarrow> world \<Rightarrow> bool" where
  "favourable r context w \<longleftrightarrow>
     (\<forall>tr c. run_reply (os w) tr r c = ok) \<and>
     (\<forall>tr. instant_reply (os w) tr < deadline context \<and> \<not> signal_reply (os w) tr (cancellation context)) \<and>
     cancellation context \<notin> cancelled w"

lemma favourable_log [simp]: "favourable r context (log_event ev w) = favourable r context w"
  by (simp add: favourable_def)

lemma wp_check_favourable:
  assumes "favourable r context w" and "\<And>w'. favourable r context w' \<Longrightarrow> Q () w'"
  shows "wp (check context) Q E w"
proof -
  have "\<not> signal_reply (os w) tr (cancellation context)" "\<not> deadline context \<le> instant_reply (os w) tr"
    "cancellation context \<notin> cancelled w" for tr
    using assms(1) by (auto simp: favourable_def not_le)
  then show ?thesis using assms by (simp add: check_def wp_simps Let_def)
qed

lemma wp_run_favourable:
  assumes "favourable r context w" and "\<And>w'. favourable r context w' \<Longrightarrow> Q () w'"
  shows "wp (run_command r c) Q E w"
  using assms by (auto simp: wp_simps favourable_def)

end
