(* ===== verification/WireGuard_Config.thy ===== *)
theory WireGuard_Config
  imports Transport
begin

unbundle bit_operations_syntax

text \<open>
  \<^verbatim>\<open>core/transport/src/wireguard.rs\<close>, first part: profiles, node and gateway
  parameters and their validation.

  The prefix masks of \<^verbatim>\<open>networks_overlap\<close> and \<^verbatim>\<open>network_matches_address\<close>
  shift by the width minus the prefix length.  The release profile keeps overflow checks, so a
  prefix length outside 1 to the width panics there: those functions return an \<open>option\<close>, and
  \<open>None\<close> is the panic.
\<close>

section \<open>Data\<close>

record TunnelAddress =
  address :: IpAddr
  address_prefix :: u8

record AllowedIp =
  network :: IpAddr
  prefix_length :: u8

record WireGuardConfig =
  peer_public_key :: "u8 list"
  wg_endpoint :: Endpoint
  tunnel_addresses :: "TunnelAddress list"
  allowed_ips :: "AllowedIp list"
  persistent_keepalive_seconds :: "u16 option"
  mtu :: u16

record WireGuardNodeConfig =
  listen_port :: u16
  interface_addresses :: "TunnelAddress list"
  node_mtu :: u16

record WireGuardNodeGatewayPolicy =
  client_networks :: "AllowedIp list"

record WireGuardNodePeer =
  public_key :: "u8 list"
  peer_allowed_ips :: "AllowedIp list"
  peer_keepalive :: "u16 option"

record WireGuardNodeHealth =
  node_status :: HealthStatus
  configured_peers :: nat
  observed_peers :: nat
  recent_handshakes :: nat
  node_failures :: u32

definition MINIMUM_MTU :: u16 where "MINIMUM_MTU = 1280"
definition MAXIMUM_MTU :: u16 where "MAXIMUM_MTU = 9000"
definition MAXIMUM_KEEPALIVE_SECONDS :: u16 where "MAXIMUM_KEEPALIVE_SECONDS = 300"

section \<open>Networks\<close>

definition maximum_prefix :: "IpAddr \<Rightarrow> u8" where
  "maximum_prefix a = (if is_ipv4 a then 32 else 128)"

definition valid_network :: "AllowedIp \<Rightarrow> bool" where
  "valid_network n =
     (case network n of
        V4 a \<Rightarrow>
          if 32 < prefix_length n \<or> is_multicast (V4 a) then False
          else (let mask = (if prefix_length n = 0 then 0
                            else push_bit (32 - unat (prefix_length n)) (- 1))
                in a AND mask = a)
      | V6 a \<Rightarrow>
          if 128 < prefix_length n \<or> is_multicast (V6 a) then False
          else (let mask = (if prefix_length n = 0 then 0
                            else push_bit (128 - unat (prefix_length n)) (- 1))
                in a AND mask = a))"

text \<open>\<^verbatim>\<open>MAX << (width - prefix)\<close> with overflow checks.\<close>

definition prefix_mask :: "u8 \<Rightarrow> 'a::len word option" where
  "prefix_mask p =
     (if unat p = 0 \<or> LENGTH('a) < unat p then None
      else Some (push_bit (LENGTH('a) - unat p) (- 1)))"

definition networks_overlap :: "AllowedIp \<Rightarrow> AllowedIp \<Rightarrow> bool option" where
  "networks_overlap left right =
     (let prefix = min (prefix_length left) (prefix_length right)
      in case (network left, network right) of
           (V4 a, V4 b) \<Rightarrow> map_option (\<lambda>mask. a AND mask = b AND mask) (prefix_mask prefix)
         | (V6 a, V6 b) \<Rightarrow> map_option (\<lambda>mask. a AND mask = b AND mask) (prefix_mask prefix)
         | _ \<Rightarrow> Some False)"

definition network_matches_address :: "AllowedIp \<Rightarrow> TunnelAddress \<Rightarrow> bool option" where
  "network_matches_address n a =
     (if prefix_length n \<noteq> address_prefix a then Some False
      else case (network n, address a) of
             (V4 x, V4 y) \<Rightarrow> map_option (\<lambda>mask. x AND mask = y AND mask) (prefix_mask (prefix_length n))
           | (V6 x, V6 y) \<Rightarrow> map_option (\<lambda>mask. x AND mask = y AND mask) (prefix_mask (prefix_length n))
           | _ \<Rightarrow> Some False)"

text \<open>\<^verbatim>\<open>iter().any(..)\<close> with a predicate that may panic.\<close>

fun any_checked :: "('a \<Rightarrow> bool option) \<Rightarrow> 'a list \<Rightarrow> bool option" where
  "any_checked f [] = Some False"
| "any_checked f (x # xs) =
     (case f x of None \<Rightarrow> None | Some True \<Rightarrow> Some True | Some False \<Rightarrow> any_checked f xs)"

section \<open>Validation\<close>

fun check_interface_addresses :: "IpAddr set \<Rightarrow> TunnelAddress list \<Rightarrow> TransportError checked" where
  "check_interface_addresses unique [] = ok"
| "check_interface_addresses unique (t # ts) =
     (if maximum_prefix (address t) < address_prefix t \<or> is_unspecified (address t)
         \<or> is_multicast (address t)
      then Inl (InvalidConfig ''invalid tunnel address prefix'')
      else if address t \<in> unique then Inl (InvalidConfig ''duplicate WireGuard tunnel address'')
      else check_interface_addresses (insert (address t) unique) ts)"

definition validate_interface_addresses :: "TunnelAddress list \<Rightarrow> TransportError checked" where
  "validate_interface_addresses addresses =
     (if addresses = [] \<or> 16 < length addresses
      then Inl (InvalidConfig ''WireGuard interface requires between 1 and 16 addresses'')
      else check_interface_addresses {} addresses)"

definition validate_keepalive :: "u16 option \<Rightarrow> TransportError checked" where
  "validate_keepalive seconds =
     (if (case seconds of None \<Rightarrow> False | Some s \<Rightarrow> s = 0 \<or> MAXIMUM_KEEPALIVE_SECONDS < s)
      then Inl (InvalidConfig ''WireGuard keepalive is outside safe bounds'') else ok)"

definition validate_mtu :: "u16 \<Rightarrow> TransportError checked" where
  "validate_mtu m =
     (if \<not> (MINIMUM_MTU \<le> m \<and> m \<le> MAXIMUM_MTU)
      then Inl (InvalidConfig ''WireGuard MTU is outside safe bounds'') else ok)"

fun check_allowed_ips :: "AllowedIp set \<Rightarrow> AllowedIp list \<Rightarrow> TransportError checked" where
  "check_allowed_ips unique [] = ok"
| "check_allowed_ips unique (n # ns) =
     (if \<not> valid_network n \<or> n \<in> unique
      then Inl (InvalidConfig ''invalid or duplicate WireGuard allowed IP prefix'')
      else check_allowed_ips (insert n unique) ns)"

definition WireGuardConfig_validate :: "WireGuardConfig \<Rightarrow> TransportError checked" where
  "WireGuardConfig_validate c =
     (if list_all (\<lambda>b. b = 0) (peer_public_key c)
        then Inl (InvalidConfig ''WireGuard peer public key is zero'')
      else if trim (host (wg_endpoint c)) = [] then Inl (InvalidConfig ''endpoint host is empty'')
      else thenR (validate_interface_addresses (tunnel_addresses c))
        (if allowed_ips c = [] \<or> 64 < length (allowed_ips c)
           then Inl (InvalidConfig ''WireGuard allowed IP list must contain between 1 and 64 prefixes'')
         else thenR (check_allowed_ips {} (allowed_ips c))
          (thenR (validate_keepalive (persistent_keepalive_seconds c)) (validate_mtu (mtu c)))))"

definition WireGuardNodeConfig_validate :: "WireGuardNodeConfig \<Rightarrow> TransportError checked" where
  "WireGuardNodeConfig_validate c =
     thenR (validate_interface_addresses (interface_addresses c)) (validate_mtu (node_mtu c))"

fun check_host_routes :: "AllowedIp set \<Rightarrow> AllowedIp list \<Rightarrow> TransportError checked" where
  "check_host_routes unique [] = ok"
| "check_host_routes unique (n # ns) =
     (if prefix_length n \<noteq> maximum_prefix (network n) \<or> is_unspecified (network n)
         \<or> is_multicast (network n) \<or> n \<in> unique
      then Inl (InvalidConfig ''invalid or duplicate WireGuard node peer host route'')
      else check_host_routes (insert n unique) ns)"

definition WireGuardNodePeer_validate :: "WireGuardNodePeer \<Rightarrow> TransportError checked" where
  "WireGuardNodePeer_validate p =
     (if list_all (\<lambda>b. b = 0) (public_key p)
        then Inl (InvalidConfig ''WireGuard node peer public key is zero'')
      else if peer_allowed_ips p = [] \<or> 16 < length (peer_allowed_ips p)
        then Inl (InvalidConfig ''WireGuard node peer requires between 1 and 16 host routes'')
      else thenR (check_host_routes {} (peer_allowed_ips p)) (validate_keepalive (peer_keepalive p)))"

fun check_client_networks :: "AllowedIp list \<Rightarrow> AllowedIp list \<Rightarrow> TransportError checked option" where
  "check_client_networks earlier [] = Some ok"
| "check_client_networks earlier (n # ns) =
     (if prefix_length n = 0 \<or> prefix_length n = maximum_prefix (network n)
         \<or> is_unspecified (network n) \<or> \<not> valid_network n
      then Some (Inl (InvalidConfig ''invalid WireGuard node gateway client network''))
      else case any_checked (\<lambda>other. networks_overlap other n) earlier of
             None \<Rightarrow> None
           | Some True \<Rightarrow> Some (Inl (InvalidConfig ''overlapping WireGuard node gateway client networks''))
           | Some False \<Rightarrow> check_client_networks (earlier @ [n]) ns)"

definition GatewayPolicy_validate :: "WireGuardNodeGatewayPolicy \<Rightarrow> TransportError checked option" where
  "GatewayPolicy_validate p =
     (if client_networks p = [] \<or> 16 < length (client_networks p)
      then Some (Inl (InvalidConfig ''WireGuard node gateway requires between 1 and 16 client networks''))
      else check_client_networks [] (client_networks p))"

definition GatewayPolicy_validate_for_node ::
  "WireGuardNodeGatewayPolicy \<Rightarrow> WireGuardNodeConfig \<Rightarrow> TransportError checked option" where
  "GatewayPolicy_validate_for_node p c =
     (case GatewayPolicy_validate p of
        None \<Rightarrow> None
      | Some (Inl e) \<Rightarrow> Some (Inl e)
      | Some (Inr _) \<Rightarrow>
          (case WireGuardNodeConfig_validate c of
             Inl e \<Rightarrow> Some (Inl e)
           | Inr _ \<Rightarrow>
               (let mismatch =
                      InvalidConfig ''WireGuard node gateway networks do not match interface addresses''
                in if length (client_networks p) \<noteq> length (interface_addresses c)
                   then Some (Inl mismatch)
                   else case any_checked
                          (\<lambda>n. map_option Not (any_checked (network_matches_address n) (interface_addresses c)))
                          (client_networks p) of
                          None \<Rightarrow> None
                        | Some True \<Rightarrow> Some (Inl mismatch)
                        | Some False \<Rightarrow> Some ok)))"

section \<open>What the validators accept\<close>

definition usable_address :: "TunnelAddress \<Rightarrow> bool" where
  "usable_address t \<longleftrightarrow>
     address_prefix t \<le> maximum_prefix (address t) \<and> \<not> is_unspecified (address t)
     \<and> \<not> is_multicast (address t)"

lemma check_interface_addresses_ok:
  "check_interface_addresses unique ts = ok \<longleftrightarrow>
     (\<forall>t \<in> set ts. usable_address t \<and> address t \<notin> unique) \<and> distinct (map address ts)"
  by (induction ts arbitrary: unique) (auto simp: usable_address_def not_less intro: rev_image_eqI)

lemma validate_interface_addresses_ok:
  "validate_interface_addresses ts = ok \<longleftrightarrow>
     ts \<noteq> [] \<and> length ts \<le> 16 \<and> (\<forall>t \<in> set ts. usable_address t) \<and> distinct (map address ts)"
  by (simp add: validate_interface_addresses_def check_interface_addresses_ok not_less)

lemma check_allowed_ips_ok:
  "check_allowed_ips unique ns = ok \<longleftrightarrow>
     (\<forall>n \<in> set ns. valid_network n \<and> n \<notin> unique) \<and> distinct ns"
  by (induction ns arbitrary: unique) auto

definition host_route :: "AllowedIp \<Rightarrow> bool" where
  "host_route n \<longleftrightarrow>
     prefix_length n = maximum_prefix (network n) \<and> \<not> is_unspecified (network n)
     \<and> \<not> is_multicast (network n)"

lemma check_host_routes_ok:
  "check_host_routes unique ns = ok \<longleftrightarrow>
     (\<forall>n \<in> set ns. host_route n \<and> n \<notin> unique) \<and> distinct ns"
  by (induction ns arbitrary: unique) (auto simp: host_route_def)

lemma validate_keepalive_ok:
  "validate_keepalive k = ok \<longleftrightarrow> (\<forall>s. k = Some s \<longrightarrow> 1 \<le> unat s \<and> unat s \<le> 300)"
  by (auto simp: validate_keepalive_def MAXIMUM_KEEPALIVE_SECONDS_def word_less_nat_alt not_less
      Suc_le_eq unat_gt_0 split: option.splits)

lemma validate_mtu_ok: "validate_mtu m = ok \<longleftrightarrow> 1280 \<le> unat m \<and> unat m \<le> 9000"
  by (auto simp: validate_mtu_def MINIMUM_MTU_def MAXIMUM_MTU_def word_le_nat_alt)

lemma WireGuardConfig_validate_ok:
  "WireGuardConfig_validate c = ok \<longleftrightarrow>
     (\<exists>b \<in> set (peer_public_key c). b \<noteq> 0) \<and> trim (host (wg_endpoint c)) \<noteq> [] \<and>
     validate_interface_addresses (tunnel_addresses c) = ok \<and>
     allowed_ips c \<noteq> [] \<and> length (allowed_ips c) \<le> 64 \<and>
     (\<forall>n \<in> set (allowed_ips c). valid_network n) \<and> distinct (allowed_ips c) \<and>
     (\<forall>s. persistent_keepalive_seconds c = Some s \<longrightarrow> 1 \<le> unat s \<and> unat s \<le> 300) \<and>
     1280 \<le> unat (mtu c) \<and> unat (mtu c) \<le> 9000"
  by (auto simp: WireGuardConfig_validate_def is_ok_unit_iff check_allowed_ips_ok
      validate_keepalive_ok validate_mtu_ok list_all_iff not_less)

lemma WireGuardNodePeer_validate_ok:
  "WireGuardNodePeer_validate p = ok \<longleftrightarrow>
     (\<exists>b \<in> set (public_key p). b \<noteq> 0) \<and> peer_allowed_ips p \<noteq> [] \<and>
     length (peer_allowed_ips p) \<le> 16 \<and> (\<forall>n \<in> set (peer_allowed_ips p). host_route n) \<and>
     distinct (peer_allowed_ips p) \<and>
     (\<forall>s. peer_keepalive p = Some s \<longrightarrow> 1 \<le> unat s \<and> unat s \<le> 300)"
  by (auto simp: WireGuardNodePeer_validate_def is_ok_unit_iff check_host_routes_ok
      validate_keepalive_ok list_all_iff not_less)

section \<open>Networks as sets of addresses\<close>

fun same_prefix :: "nat \<Rightarrow> IpAddr \<Rightarrow> IpAddr \<Rightarrow> bool" where
  "same_prefix p (V4 a) (V4 b) = (drop_bit (32 - p) a = drop_bit (32 - p) b)"
| "same_prefix p (V6 a) (V6 b) = (drop_bit (128 - p) a = drop_bit (128 - p) b)"
| "same_prefix p _ _ = False"

definition in_network :: "AllowedIp \<Rightarrow> IpAddr \<Rightarrow> bool" where
  "in_network n a = same_prefix (unat (prefix_length n)) (network n) a"

definition proper_prefix :: "AllowedIp \<Rightarrow> bool" where
  "proper_prefix n \<longleftrightarrow> 0 < prefix_length n \<and> prefix_length n \<le> maximum_prefix (network n)"

definition disjoint_networks :: "AllowedIp \<Rightarrow> AllowedIp \<Rightarrow> bool" where
  "disjoint_networks n m \<longleftrightarrow> \<not> (\<exists>a. in_network n a \<and> in_network m a)"

lemma same_prefix_refl [simp]: "same_prefix p a a"
  by (cases a) simp_all

lemma same_prefix_sym: "same_prefix p a b = same_prefix p b a"
  by (cases a; cases b) auto

lemma same_prefix_trans: "same_prefix p a b \<Longrightarrow> same_prefix p b c \<Longrightarrow> same_prefix p a c"
  by (cases a; cases b; cases c) auto

lemma drop_bit_eq_mono:
  fixes a b :: "'a::len word"
  assumes "drop_bit k a = drop_bit k b" and "k \<le> l"
  shows "drop_bit l a = drop_bit l b"
proof -
  have "drop_bit (l - k) (drop_bit k a) = drop_bit (l - k) (drop_bit k b)" using assms(1) by simp
  then show ?thesis using assms(2) by simp
qed

lemma same_prefix_mono: "same_prefix p a b \<Longrightarrow> q \<le> p \<Longrightarrow> same_prefix q a b"
  by (cases a; cases b) (auto elim: drop_bit_eq_mono)

text \<open>Two words agree under a prefix mask exactly when they agree on the prefix.\<close>

lemma and_mask_eq_iff:
  fixes a b :: "'a::len word"
  shows "a AND push_bit k (- 1) = b AND push_bit k (- 1) \<longleftrightarrow> drop_bit k a = drop_bit k b"
proof
  assume eq: "a AND push_bit k (- 1) = b AND push_bit k (- 1)"
  show "drop_bit k a = drop_bit k b"
  proof (rule bit_word_eqI)
    fix n
    assume "n < LENGTH('a)"
    show "bit (drop_bit k a) n = bit (drop_bit k b) n"
    proof (cases "k + n < LENGTH('a)")
      case True
      have "bit (a AND push_bit k (- 1)) (k + n) = bit (b AND push_bit k (- 1)) (k + n)"
        using eq by simp
      with True show ?thesis by (simp add: bit_simps)
    next
      case False
      then show ?thesis by (simp add: bit_drop_bit_eq) (meson bit_imp_le_length not_le)
    qed
  qed
next
  assume eq: "drop_bit k a = drop_bit k b"
  show "a AND push_bit k (- 1) = b AND push_bit k (- 1)"
  proof (rule bit_word_eqI)
    fix n
    assume n: "n < LENGTH('a)"
    have "bit (drop_bit k a) (n - k) = bit (drop_bit k b) (n - k)" using eq by simp
    with n show "bit (a AND push_bit k (- 1)) n = bit (b AND push_bit k (- 1)) n"
      by (auto simp: bit_simps)
  qed
qed

lemmas and_prefix_eq_iff = and_mask_eq_iff and_mask_eq_iff [simplified]

lemma prefix_mask_proper:
  "0 < unat p \<Longrightarrow> unat p \<le> LENGTH('a::len) \<Longrightarrow>
     prefix_mask p = Some (push_bit (LENGTH('a) - unat p) (- 1) :: 'a word)"
  by (simp add: prefix_mask_def)

lemma proper_prefix_unat:
  "proper_prefix n \<longleftrightarrow>
     0 < unat (prefix_length n) \<and> unat (prefix_length n) \<le> (if is_ipv4 (network n) then 32 else 128)"
  by (simp add: proper_prefix_def maximum_prefix_def word_le_nat_alt unat_gt_0 word_gt_0)

lemma unat_min_u8: "unat (min a b) = min (unat a) (unat (b :: u8))"
  by (simp add: min_def word_le_nat_alt)

lemma networks_overlap_prefix:
  assumes "proper_prefix n" and "proper_prefix m"
  shows "networks_overlap n m =
    Some (same_prefix (min (unat (prefix_length n)) (unat (prefix_length m))) (network n) (network m))"
  using assms unfolding proper_prefix_unat networks_overlap_def Let_def
  by (cases "network n"; cases "network m")
    (simp_all add: prefix_mask_proper unat_min_u8 and_prefix_eq_iff min_less_iff_conj min_le_iff_disj)

lemma networks_overlap_iff:
  assumes "proper_prefix n" and "proper_prefix m"
  shows "networks_overlap n m = Some (\<not> disjoint_networks n m)"
proof -
  let ?p = "unat (prefix_length n)" and ?q = "unat (prefix_length m)"
  have "same_prefix (min ?p ?q) (network n) (network m) \<longleftrightarrow>
      (\<exists>a. same_prefix ?p (network n) a \<and> same_prefix ?q (network m) a)" (is "?l \<longleftrightarrow> ?r")
  proof
    assume ?l
    show ?r
    proof (cases "?p \<le> ?q")
      case True
      then show ?thesis using \<open>?l\<close> by (intro exI [of _ "network m"]) (simp add: min_def)
    next
      case False
      then show ?thesis
        using \<open>?l\<close> by (intro exI [of _ "network n"]) (simp add: min_def same_prefix_sym)
    qed
  next
    assume ?r
    then obtain a where a: "same_prefix ?p (network n) a" "same_prefix ?q (network m) a" by blast
    have "same_prefix (min ?p ?q) (network n) a" by (rule same_prefix_mono [OF a(1)]) simp
    moreover have "same_prefix (min ?p ?q) a (network m)"
      using same_prefix_mono [OF a(2), of "min ?p ?q"] by (simp add: same_prefix_sym)
    ultimately show ?l by (rule same_prefix_trans)
  qed
  then show ?thesis
    unfolding networks_overlap_prefix [OF assms] disjoint_networks_def in_network_def by simp
qed

lemma network_matches_address_iff:
  assumes "proper_prefix n"
  shows "network_matches_address n a =
    Some (prefix_length n = address_prefix a \<and> in_network n (address a))"
  using assms unfolding proper_prefix_unat network_matches_address_def in_network_def
  by (cases "prefix_length n = address_prefix a"; cases "network n"; cases "address a")
    (simp_all add: prefix_mask_proper and_prefix_eq_iff)

lemma any_checked_total:
  assumes "\<forall>x \<in> set xs. f x = Some (g x)"
  shows "any_checked f xs = Some (\<exists>x \<in> set xs. g x)"
  using assms by (induction xs) (auto split: option.splits bool.splits)

section \<open>Gateway policies\<close>

definition client_network_ok :: "AllowedIp \<Rightarrow> bool" where
  "client_network_ok n \<longleftrightarrow>
     0 < prefix_length n \<and> prefix_length n < maximum_prefix (network n) \<and>
     \<not> is_unspecified (network n) \<and> valid_network n"

lemma valid_network_prefix: "valid_network n \<Longrightarrow> prefix_length n \<le> maximum_prefix (network n)"
  by (auto simp: valid_network_def maximum_prefix_def not_less split: IpAddr.splits if_splits)

lemma client_network_ok_iff:
  "client_network_ok n \<longleftrightarrow>
     \<not> (prefix_length n = 0 \<or> prefix_length n = maximum_prefix (network n)
        \<or> is_unspecified (network n) \<or> \<not> valid_network n)"
  using valid_network_prefix [of n] by (auto simp: client_network_ok_def word_gt_0)

lemma client_network_ok_proper: "client_network_ok n \<Longrightarrow> proper_prefix n"
  by (simp add: client_network_ok_def proper_prefix_def less_imp_le)

lemma check_client_networks_total:
  assumes "\<forall>n \<in> set earlier. proper_prefix n"
  shows "\<exists>r. check_client_networks earlier ns = Some r"
    and "check_client_networks earlier ns = Some ok \<longleftrightarrow>
      (\<forall>n \<in> set ns. client_network_ok n) \<and>
      (\<forall>n \<in> set earlier. \<forall>m \<in> set ns. disjoint_networks n m) \<and>
      sorted_wrt disjoint_networks ns"
  using assms
proof (induction ns arbitrary: earlier)
  case Nil
  {
    case 1
    then show ?case by simp
  next
    case 2
    then show ?case by simp
  }
next
  case (Cons n ns)
  have step: "check_client_networks earlier (n # ns) =
      (if \<not> client_network_ok n
       then Some (Inl (InvalidConfig ''invalid WireGuard node gateway client network''))
       else if \<exists>m \<in> set earlier. \<not> disjoint_networks m n
       then Some (Inl (InvalidConfig ''overlapping WireGuard node gateway client networks''))
       else check_client_networks (earlier @ [n]) ns)"
    if "\<forall>n \<in> set earlier. proper_prefix n" for earlier
  proof (cases "client_network_ok n")
    case False
    then show ?thesis by (simp add: client_network_ok_iff)
  next
    case True
    have "any_checked (\<lambda>other. networks_overlap other n) earlier
        = Some (\<exists>m \<in> set earlier. \<not> disjoint_networks m n)"
      using that client_network_ok_proper [OF True]
      by (intro any_checked_total) (simp add: networks_overlap_iff)
    with True show ?thesis by (simp add: client_network_ok_iff split: bool.splits)
  qed
  have more: "client_network_ok n \<Longrightarrow> \<forall>m \<in> set earlier. proper_prefix m \<Longrightarrow>
      \<forall>m \<in> set (earlier @ [n]). proper_prefix m" for earlier
    using client_network_ok_proper by auto
  {
    case 1
    then show ?case unfolding step [OF 1] using Cons.IH(1) [OF more [OF _ 1]] by auto
  next
    case 2
    then show ?case unfolding step [OF 2] using Cons.IH(2) [OF more [OF _ 2]] by auto
  }
qed

lemma GatewayPolicy_validate_ok:
  "GatewayPolicy_validate p = Some ok \<longleftrightarrow>
     client_networks p \<noteq> [] \<and> length (client_networks p) \<le> 16 \<and>
     (\<forall>n \<in> set (client_networks p). client_network_ok n) \<and>
     sorted_wrt disjoint_networks (client_networks p)"
  using check_client_networks_total(2) [of "[]" "client_networks p"]
  by (auto simp: GatewayPolicy_validate_def)

lemma GatewayPolicy_validate_total: "\<exists>r. GatewayPolicy_validate p = Some r"
  using check_client_networks_total(1) [of "[]" "client_networks p"]
  by (simp add: GatewayPolicy_validate_def)

definition network_has_address :: "AllowedIp \<Rightarrow> TunnelAddress \<Rightarrow> bool" where
  "network_has_address n a \<longleftrightarrow> prefix_length n = address_prefix a \<and> in_network n (address a)"

lemma unmatched_check:
  assumes "\<forall>n \<in> set ns. proper_prefix n"
  shows "any_checked (\<lambda>n. map_option Not (any_checked (network_matches_address n) as)) ns
    = Some (\<exists>n \<in> set ns. \<not> (\<exists>a \<in> set as. network_has_address n a))"
proof (rule any_checked_total, rule ballI)
  fix n
  assume "n \<in> set ns"
  with assms have "any_checked (network_matches_address n) as = Some (\<exists>a \<in> set as. network_has_address n a)"
    by (intro any_checked_total) (simp add: network_matches_address_iff network_has_address_def)
  then show "map_option Not (any_checked (network_matches_address n) as)
      = Some (\<not> (\<exists>a \<in> set as. network_has_address n a))" by simp
qed

lemma GatewayPolicy_validate_for_node_ok:
  "GatewayPolicy_validate_for_node p c = Some ok \<longleftrightarrow>
     GatewayPolicy_validate p = Some ok \<and> WireGuardNodeConfig_validate c = ok \<and>
     length (client_networks p) = length (interface_addresses c) \<and>
     (\<forall>n \<in> set (client_networks p). \<exists>a \<in> set (interface_addresses c). network_has_address n a)"
  and GatewayPolicy_validate_for_node_total: "\<exists>r. GatewayPolicy_validate_for_node p c = Some r"
proof -
  obtain r where r: "GatewayPolicy_validate p = Some r" using GatewayPolicy_validate_total by blast
  have u: "any_checked (\<lambda>n. map_option Not (any_checked (network_matches_address n) (interface_addresses c)))
        (client_networks p)
      = Some (\<exists>n \<in> set (client_networks p). \<not> (\<exists>a \<in> set (interface_addresses c). network_has_address n a))"
    if "r = ok"
    using r that by (intro unmatched_check) (auto simp: GatewayPolicy_validate_ok client_network_ok_proper)
  show "GatewayPolicy_validate_for_node p c = Some ok \<longleftrightarrow>
     GatewayPolicy_validate p = Some ok \<and> WireGuardNodeConfig_validate c = ok \<and>
     length (client_networks p) = length (interface_addresses c) \<and>
     (\<forall>n \<in> set (client_networks p). \<exists>a \<in> set (interface_addresses c). network_has_address n a)"
    using r u unfolding GatewayPolicy_validate_for_node_def Let_def
    by (cases r; cases "WireGuardNodeConfig_validate c") (auto split: bool.splits)
  show "\<exists>r. GatewayPolicy_validate_for_node p c = Some r"
    using r u unfolding GatewayPolicy_validate_for_node_def Let_def
    by (cases r; cases "WireGuardNodeConfig_validate c") (auto split: bool.splits)
qed

lemma disjoint_networks_sym: "disjoint_networks n m = disjoint_networks m n"
  by (auto simp: disjoint_networks_def)

lemma in_network_self: "in_network n (network n)"
  by (simp add: in_network_def)

lemma pairwise_disjointD:
  assumes "sorted_wrt disjoint_networks ns" and "n \<in> set ns" and "m \<in> set ns" and "n \<noteq> m"
  shows "disjoint_networks n m"
  using assms by (induction ns) (auto simp: disjoint_networks_sym)

lemma pairwise_disjoint_distinct: "sorted_wrt disjoint_networks ns \<Longrightarrow> distinct ns"
proof (induction ns)
  case Nil
  then show ?case by simp
next
  case (Cons n ns)
  have "\<not> disjoint_networks n n" using in_network_self by (auto simp: disjoint_networks_def)
  with Cons show ?case by auto
qed

text \<open>
  Counting: when every network owns an address, no address has two networks and there are as many
  addresses as networks, every address has a network.
\<close>

lemma matching_is_onto:
  assumes "\<forall>n \<in> N. \<exists>a \<in> A. R n a" and "finite A" and "card A \<le> card N"
    and "\<And>n m a. n \<in> N \<Longrightarrow> m \<in> N \<Longrightarrow> a \<in> A \<Longrightarrow> R n a \<Longrightarrow> R m a \<Longrightarrow> n = m"
  shows "\<forall>a \<in> A. \<exists>n \<in> N. R n a"
proof -
  obtain f where f: "\<forall>n \<in> N. f n \<in> A \<and> R n (f n)" using assms(1) by metis
  have "inj_on f N" using f assms(4) by (metis inj_onI)
  then have "card (f ` N) = card N" by (rule card_image)
  then have "f ` N = A"
    using f assms(2,3) by (intro card_seteq) auto
  then show ?thesis using f by blast
qed

section \<open>Properties\<close>

text \<open>
  C30. Validating a gateway policy never panics (the shifts of the overlap test are always in range),
  and an accepted policy has between 1 and 16 client networks, none of them a default, host,
  multicast or non-canonical prefix, of which no two have an address in common.
\<close>

theorem gateway_policy_networks_disjoint:
  "\<exists>r. GatewayPolicy_validate p = Some r \<and>
     (r = ok \<longleftrightarrow>
        client_networks p \<noteq> [] \<and> length (client_networks p) \<le> 16 \<and>
        (\<forall>n \<in> set (client_networks p). client_network_ok n) \<and>
        distinct (client_networks p) \<and>
        (\<forall>n \<in> set (client_networks p). \<forall>m \<in> set (client_networks p). n \<noteq> m \<longrightarrow>
           \<not> (\<exists>a. in_network n a \<and> in_network m a)))"
proof -
  obtain r where r: "GatewayPolicy_validate p = Some r" using GatewayPolicy_validate_total by blast
  have "sorted_wrt disjoint_networks ns \<longleftrightarrow>
      distinct ns \<and> (\<forall>n \<in> set ns. \<forall>m \<in> set ns. n \<noteq> m \<longrightarrow> disjoint_networks n m)" for ns
    using pairwise_disjointD [of ns] pairwise_disjoint_distinct [of ns]
    by (auto simp: sorted_wrt_iff_nth_less distinct_conv_nth)
  then show ?thesis
    using r GatewayPolicy_validate_ok [of p] by (auto simp: disjoint_networks_def)
qed

lemmas network_eval =
  GatewayPolicy_validate_def GatewayPolicy_validate_for_node_def WireGuardNodeConfig_validate_def
  validate_interface_addresses_def validate_mtu_def MINIMUM_MTU_def MAXIMUM_MTU_def
  valid_network_def networks_overlap_def network_matches_address_def prefix_mask_def
  maximum_prefix_def octets_def min_def Let_def mask_eq_exp_minus_1

definition example_gateway :: WireGuardNodeGatewayPolicy where
  "example_gateway =
     \<lparr>client_networks =
        [\<lparr>network = V4 0x0A140000, prefix_length = 24\<rparr>, \<lparr>network = V4 0x0A150000, prefix_length = 16\<rparr>]\<rparr>"

theorem gateway_policy_networks_disjoint_witness:
  "GatewayPolicy_validate example_gateway = Some ok \<and>
   \<not> (\<exists>a. in_network \<lparr>network = V4 0x0A140000, prefix_length = 24\<rparr> a
        \<and> in_network \<lparr>network = V4 0x0A150000, prefix_length = 16\<rparr> a)"
proof -
  have v: "GatewayPolicy_validate example_gateway = Some ok"
    by (simp add: example_gateway_def network_eval)
  show ?thesis
    using v gateway_policy_networks_disjoint [of example_gateway] by (auto simp: example_gateway_def)
qed

lemma gateway_policy_matches_interface_facts:
  assumes "GatewayPolicy_validate_for_node p c = Some ok"
  shows "\<forall>n \<in> set (client_networks p). \<exists>!a. a \<in> set (interface_addresses c) \<and> network_has_address n a"
    and "\<forall>a \<in> set (interface_addresses c). \<exists>!n. n \<in> set (client_networks p) \<and> network_has_address n a"
proof -
  let ?N = "set (client_networks p)" and ?A = "set (interface_addresses c)"
  from assms have v: "sorted_wrt disjoint_networks (client_networks p)"
    "length (client_networks p) = length (interface_addresses c)"
    "\<forall>n \<in> ?N. \<exists>a \<in> ?A. network_has_address n a"
    "WireGuardNodeConfig_validate c = ok"
    by (auto simp: GatewayPolicy_validate_for_node_ok GatewayPolicy_validate_ok)
  have "distinct (map address (interface_addresses c))"
    using v(4) by (simp add: WireGuardNodeConfig_validate_def is_ok_unit_iff validate_interface_addresses_ok)
  then have cards: "card ?N = length (client_networks p)" "card ?A = length (interface_addresses c)"
    using pairwise_disjoint_distinct [OF v(1)] by (simp_all add: distinct_card distinct_map)
  have one: "n = m" if "n \<in> ?N" "m \<in> ?N" "network_has_address n a" "network_has_address m a" for n m a
    using pairwise_disjointD [OF v(1) that(1,2)] that(3,4)
    by (auto simp: disjoint_networks_def network_has_address_def)
  have onto: "\<forall>a \<in> ?A. \<exists>n \<in> ?N. network_has_address n a"
    by (rule matching_is_onto [OF v(3)]) (use cards v(2) one in auto)
  then show "\<forall>a \<in> ?A. \<exists>!n. n \<in> ?N \<and> network_has_address n a" using one by blast
  obtain g where g: "\<forall>a \<in> ?A. g a \<in> ?N \<and> network_has_address (g a) a" using onto by metis
  have "g ` ?A = ?N" using g one v(3) by (fastforce simp: image_iff)
  then have "inj_on g ?A" using cards v(2) by (intro eq_card_imp_inj_on) simp_all
  then have "a = b" if "n \<in> ?N" "a \<in> ?A" "b \<in> ?A" "network_has_address n a" "network_has_address n b" for n a b
    using g one that by (metis inj_onD)
  then show "\<forall>n \<in> ?N. \<exists>!a. a \<in> ?A \<and> network_has_address n a" using v(3) by blast
qed

text \<open>
  C31. The policy an accepted node start carries matches its interface exactly: every client network
  holds the address of exactly one interface address of the same prefix length, and every
  interface address lies in exactly one client network.  The check never panics.
\<close>

theorem gateway_policy_matches_interface:
  "\<exists>r. GatewayPolicy_validate_for_node p c = Some r \<and>
     (r = ok \<longrightarrow>
        (\<forall>n \<in> set (client_networks p). \<exists>!a. a \<in> set (interface_addresses c) \<and> network_has_address n a) \<and>
        (\<forall>a \<in> set (interface_addresses c). \<exists>!n. n \<in> set (client_networks p) \<and> network_has_address n a))"
proof -
  obtain r where "GatewayPolicy_validate_for_node p c = Some r"
    using GatewayPolicy_validate_for_node_total by blast
  then show ?thesis using gateway_policy_matches_interface_facts [of p c] by auto
qed

definition example_node_config :: WireGuardNodeConfig where
  "example_node_config =
     \<lparr>listen_port = 51820,
      interface_addresses = [\<lparr>address = V4 0x0A150001, address_prefix = 16\<rparr>,
                             \<lparr>address = V4 0x0A140001, address_prefix = 24\<rparr>],
      node_mtu = 1420\<rparr>"

theorem gateway_policy_matches_interface_witness:
  "GatewayPolicy_validate_for_node example_gateway example_node_config = Some ok \<and>
   (\<exists>!n. n \<in> set (client_networks example_gateway) \<and>
      network_has_address n \<lparr>address = V4 0x0A140001, address_prefix = 24\<rparr>)"
proof -
  have v: "GatewayPolicy_validate_for_node example_gateway example_node_config = Some ok"
    by (simp add: example_gateway_def example_node_config_def network_eval)
  show ?thesis
    using v gateway_policy_matches_interface [of example_gateway example_node_config]
    by (auto simp: example_node_config_def)
qed

end
