(* ===== verification/Linux_Tools.thy ===== *)
theory Linux_Tools
  imports WireGuard_Config
begin

unbundle bit_operations_syntax

text \<open>
  \<^verbatim>\<open>core/transport/src/linux.rs\<close>: the process runner over the standard library's
  processes, the trust checks on tool and key paths, interface names, and the text the commands
  carry (endpoints, prefixes, base64 keys) or return (handshake tables).
\<close>

section \<open>The system command runner\<close>

text \<open>
  What \<^verbatim>\<open>std::process\<close> reports: a failed start, or an exit status with its text and the
  captured streams.  A child that is fed on standard input can also fail to expose the pipe, to
  take the data, or to be waited for.
\<close>

record process_result =
  success :: bool
  status_text :: string
  stdout :: bytes
  stderr :: bytes

datatype input_process =
    SpawnError string
  | NoStdin
  | WriteError string
  | WaitError string
  | Finished process_result

definition OUTPUT_LIMIT :: nat where
  "OUTPUT_LIMIT = 64 * 1024"

definition exit_error :: "process_result \<Rightarrow> TransportError" where
  "exit_error r =
     Network (''platform command exited with '' @ status_text r @ '': ''
       @ trim (take_chars 256 (from_utf8_lossy (stderr r))))"

definition system_output :: "string + process_result \<Rightarrow> TransportError + bytes" where
  "system_output p =
     (case p of
        Inl e \<Rightarrow> Inl (Network (''platform command failed to start: '' @ e))
      | Inr r \<Rightarrow>
          if success r
          then (if OUTPUT_LIMIT < length (stdout r)
                then Inl (Network ''platform command output exceeds safe bounds'')
                else Inr (stdout r))
          else Inl (exit_error r))"

definition system_run :: "string + process_result \<Rightarrow> TransportError checked" where
  "system_run p = (case system_output p of Inl e \<Rightarrow> Inl e | Inr _ \<Rightarrow> ok)"

definition system_input :: "bytes \<Rightarrow> input_process \<Rightarrow> TransportError checked" where
  "system_input i p =
     (if OUTPUT_LIMIT < length i
      then Inl (Network ''platform command input exceeds safe bounds'')
      else case p of
             SpawnError e \<Rightarrow> Inl (Network (''platform command failed to start: '' @ e))
           | NoStdin \<Rightarrow> Inl (Network ''platform command stdin unavailable'')
           | WriteError e \<Rightarrow> Inl (Network (''platform command input failed: '' @ e))
           | WaitError e \<Rightarrow> Inl (Network (''platform command wait failed: '' @ e))
           | Finished r \<Rightarrow> if success r then ok else Inl (exit_error r))"

section \<open>Trusted paths and names\<close>

definition trusted_executable :: "path \<Rightarrow> metadata \<Rightarrow> bool" where
  "trusted_executable p m \<longleftrightarrow>
     path_is_absolute p \<and> meta_is_file m \<and> \<not> meta_is_symlink m \<and> meta_mode m AND 0x49 \<noteq> 0"

definition validate_executable :: "path \<Rightarrow> (world, TransportError, unit) rsm" where
  "validate_executable p =
     bindE (symlink_metadata p) (\<lambda>found.
       case found of
         None \<Rightarrow> throw (InvalidConfig ''platform executable is unavailable'')
       | Some m \<Rightarrow>
           reject_if (\<not> path_is_absolute p \<or> \<not> meta_is_file m \<or> meta_is_symlink m
               \<or> meta_mode m AND 0x49 = 0)
             (InvalidConfig ''platform executable must be an absolute executable regular file''))"

record LinuxTools =
  tool_ip :: path
  tool_wg :: path
  private_key :: path

record LinuxDnsTools =
  tool_resolvectl :: path

record LinuxNodeGatewayTools =
  tool_nft :: path
  tool_sysctl :: path

definition LinuxTools_validate :: "LinuxTools \<Rightarrow> (world, TransportError, unit) rsm" where
  "LinuxTools_validate t =
     seqE (validate_executable (tool_ip t))
     (seqE (validate_executable (tool_wg t))
     (bindE (symlink_metadata (private_key t)) (\<lambda>found.
       case found of
         None \<Rightarrow> throw (InvalidConfig ''WireGuard private key is unavailable'')
       | Some m \<Rightarrow>
           reject_if (\<not> path_is_absolute (private_key t) \<or> \<not> meta_is_file m \<or> meta_is_symlink m
               \<or> meta_mode m AND 0x3F \<noteq> 0)
             (InvalidConfig ''WireGuard private key must be a private regular file''))))"

definition LinuxDnsTools_validate :: "LinuxDnsTools \<Rightarrow> (world, TransportError, unit) rsm" where
  "LinuxDnsTools_validate t = validate_executable (tool_resolvectl t)"

definition LinuxNodeGatewayTools_validate ::
  "LinuxNodeGatewayTools \<Rightarrow> (world, TransportError, unit) rsm" where
  "LinuxNodeGatewayTools_validate t =
     seqE (validate_executable (tool_nft t)) (validate_executable (tool_sysctl t))"

definition interface_char :: "char \<Rightarrow> bool" where
  "interface_char c \<longleftrightarrow> is_ascii_alphanumeric c \<or> c = CHR ''_'' \<or> c = CHR ''-''"

definition valid_interface :: "string \<Rightarrow> bool" where
  "valid_interface i \<longleftrightarrow> i \<noteq> [] \<and> length i \<le> 15 \<and> list_all interface_char i"

section \<open>Text of command arguments\<close>

definition endpoint_text :: "Endpoint \<Rightarrow> string" where
  "endpoint_text e =
     (if CHR '':'' \<in> set (host e)
      then ''['' @ host e @ '']:'' @ show_dec (unat (port e))
      else host e @ '':'' @ show_dec (unat (port e)))"

definition prefix_text :: "IpAddr \<Rightarrow> u8 \<Rightarrow> string" where
  "prefix_text a p = show_ip a @ ''/'' @ show_dec (unat p)"

definition ALPHABET :: string where
  "ALPHABET = ''ABCDEFGHIJKLMNOPQRSTUVWXYZabcdefghijklmnopqrstuvwxyz0123456789+/''"

fun chunks3 :: "u8 list \<Rightarrow> u8 list list" where
  "chunks3 (a # b # c # rest) = [a, b, c] # chunks3 rest"
| "chunks3 [] = []"
| "chunks3 xs = [xs]"

definition encode_chunk :: "u8 list \<Rightarrow> string" where
  "encode_chunk chunk =
     (let first = chunk ! 0;
          second = (if 1 < length chunk then chunk ! 1 else 0);
          third = (if 2 < length chunk then chunk ! 2 else 0)
      in [ALPHABET ! unat (drop_bit 2 first),
          ALPHABET ! unat (push_bit 4 (first AND 3) OR drop_bit 4 second),
          if 1 < length chunk then ALPHABET ! unat (push_bit 2 (second AND 15) OR drop_bit 6 third)
          else CHR ''='',
          if 2 < length chunk then ALPHABET ! unat (third AND 63) else CHR ''=''])"

definition encode_key :: "u8 list \<Rightarrow> string" where
  "encode_key key = concat (map encode_chunk (chunks3 key))"

section \<open>Handshake tables\<close>

definition MAXIMUM_HANDSHAKE_AGE_SECONDS :: nat where
  "MAXIMUM_HANDSHAKE_AGE_SECONDS = 180"

definition parse_u64 :: "string \<Rightarrow> nat option" where
  "parse_u64 s = parse_uint 10 (2 ^ 64 - 1) s"

definition second_field :: "string \<Rightarrow> nat option" where
  "second_field line =
     (case split_ascii_whitespace line of _ # f # _ \<Rightarrow> parse_u64 f | _ \<Rightarrow> None)"

definition latest_handshake :: "bytes \<Rightarrow> nat option" where
  "latest_handshake output =
     (case from_utf8 output of
        None \<Rightarrow> None
      | Some text \<Rightarrow>
          (case List.map_filter second_field (str_lines text) of
             [] \<Rightarrow> None
           | t # ts \<Rightarrow> (let latest = fold max ts t in if latest \<noteq> 0 then Some latest else None)))"

definition recent :: "nat \<Rightarrow> nat \<Rightarrow> bool" where
  "recent now t \<longleftrightarrow> t \<le> now \<and> now - t \<le> MAXIMUM_HANDSHAKE_AGE_SECONDS"

fun count_handshakes :: "nat \<Rightarrow> nat \<Rightarrow> nat \<Rightarrow> string list \<Rightarrow> (nat \<times> nat) option" where
  "count_handshakes now seen fresh [] = Some (seen, fresh)"
| "count_handshakes now seen fresh (line # rest) =
     (case split_ascii_whitespace line of
        [_, f] \<Rightarrow>
          (case parse_u64 f of
             None \<Rightarrow> None
           | Some t \<Rightarrow>
               count_handshakes now (Suc seen) (if t \<noteq> 0 \<and> recent now t then Suc fresh else fresh) rest)
      | _ \<Rightarrow> None)"

definition node_handshakes :: "bytes \<Rightarrow> (world, 'e, (nat \<times> nat) option) rsm" where
  "node_handshakes output =
     bindE unix_now (\<lambda>now.
     ret (case from_utf8 output of
            None \<Rightarrow> None
          | Some text \<Rightarrow> count_handshakes (unat now) 0 0 (str_lines text)))"

section \<open>Frames and first facts\<close>

lemma tools_frame [frame_intros]:
  assumes "\<And>p. P (ReadMetadata p)"
  shows "onlyW P (validate_executable p)" "onlyW P (LinuxTools_validate t)"
    "onlyW P (LinuxDnsTools_validate d)" "onlyW P (LinuxNodeGatewayTools_validate g)"
  unfolding validate_executable_def LinuxTools_validate_def LinuxDnsTools_validate_def
    LinuxNodeGatewayTools_validate_def
  using assms by (intro frame_intros; simp)+

lemma validate_executable_ok:
  "validate_executable p w = (Inr (), w') \<Longrightarrow>
     \<exists>m. metadata_reply (os w) (trace w) p = Some m \<and> trusted_executable p m"
  by (auto simp: validate_executable_def bindE_def symlink_metadata_def trusted_executable_def
      reject_if_def throw_def ret_def split: option.splits if_splits)

lemma system_output_bounded: "system_output p = Inr out \<Longrightarrow> length out \<le> 65536"
  by (auto simp: system_output_def OUTPUT_LIMIT_def split: sum.splits if_splits)

end
