(* ===== verification/Key_Encoding.thy ===== *)
theory Key_Encoding
  imports Linux_Tools
begin

unbundle bit_operations_syntax

text \<open>
  The base64 text of a public key: \<open>encode_key\<close> of \<^verbatim>\<open>core/transport/src/linux.rs\<close>
  against a reference decoder over the natural numbers.
\<close>

section \<open>A reference decoder\<close>

text \<open>The standard base64 alphabet: capital letters, small letters, digits, plus and slash.\<close>

definition base64_alphabet :: string where
  "base64_alphabet = map char_of ([65..<91] @ [97..<123] @ [48..<58] @ [43, 47 :: nat])"

definition sextet :: "char \<Rightarrow> nat option" where
  "sextet c =
     (if c \<in> set base64_alphabet then Some (length (takeWhile (\<lambda>d. d \<noteq> c) base64_alphabet)) else None)"

definition decode_quad :: "char \<Rightarrow> char \<Rightarrow> char \<Rightarrow> char \<Rightarrow> u8 list option" where
  "decode_quad a b c d =
     (case (sextet a, sextet b) of
        (Some x, Some y) \<Rightarrow>
          if c = CHR ''='' then (if d = CHR ''='' then Some [of_nat (x * 4 + y div 16)] else None)
          else (case sextet c of
                  None \<Rightarrow> None
                | Some z \<Rightarrow>
                    if d = CHR ''=''
                    then Some [of_nat (x * 4 + y div 16), of_nat (y mod 16 * 16 + z div 4)]
                    else (case sextet d of
                            None \<Rightarrow> None
                          | Some w \<Rightarrow> Some [of_nat (x * 4 + y div 16), of_nat (y mod 16 * 16 + z div 4),
                                           of_nat (z mod 4 * 64 + w)]))
      | _ \<Rightarrow> None)"

fun decode_base64 :: "string \<Rightarrow> u8 list option" where
  "decode_base64 [] = Some []"
| "decode_base64 (a # b # c # d # rest) =
     (case (decode_quad a b c d, decode_base64 rest) of
        (Some xs, Some ys) \<Rightarrow> Some (xs @ ys)
      | _ \<Rightarrow> None)"
| "decode_base64 _ = None"

section \<open>The bit arithmetic of one chunk\<close>

lemma ALPHABET_standard: "base64_alphabet = ALPHABET"
  by code_simp

lemma ALPHABET_sextets: "\<forall>n < 64. sextet (ALPHABET ! n) = Some n"
proof -
  have "\<forall>n \<in> set [0..<64]. sextet (ALPHABET ! n) = Some n"
    unfolding sextet_def ALPHABET_standard by code_simp
  then show ?thesis by simp
qed

lemma sextet_ALPHABET: "n < 64 \<Longrightarrow> sextet (ALPHABET ! n) = Some n"
  using ALPHABET_sextets by blast

lemma ALPHABET_not_pad: "n < 64 \<Longrightarrow> ALPHABET ! n \<noteq> CHR ''=''"
proof
  assume "n < 64" and "ALPHABET ! n = CHR ''=''"
  then have "sextet CHR ''='' = Some n" using sextet_ALPHABET by metis
  then show False by (simp add: sextet_def ALPHABET_standard ALPHABET_def)
qed

lemma unat_shift_or:
  fixes x y :: u8
  assumes "unat x < 2 ^ (8 - k)" and "unat y < 2 ^ k" and "k \<le> 8"
  shows "unat (push_bit k x OR y) = unat x * 2 ^ k + unat y"
proof -
  have y: "take_bit k y = y"
    using assms(2) by (metis take_bit_nat_eq_self_iff unsigned_take_bit_eq unsigned_word_eqI)
  have or: "push_bit k x + y = push_bit k x OR y"
  proof (rule disjunctive_add)
    fix n
    have "bit y n \<Longrightarrow> n < k" using y by (metis bit_take_bit_iff)
    then show "\<not> bit (push_bit k x) n \<or> \<not> bit y n" by (auto simp: bit_push_bit_iff)
  qed
  have xk: "unat x * 2 ^ k + unat y < 256"
  proof -
    have "(unat x + 1) * 2 ^ k \<le> 2 ^ (8 - k) * 2 ^ k" using assms(1) by (intro mult_le_mono1) simp
    also have "\<dots> = 256" using assms(3) by (simp flip: power_add)
    finally show ?thesis using assms(2) by simp
  qed
  moreover have "unat (push_bit k x) = unat x * 2 ^ k"
    unfolding unsigned_push_bit_eq using xk by (simp add: push_bit_eq_mult take_bit_eq_mod)
  ultimately show ?thesis
    by (simp flip: or add: unat_word_ariths)
qed

lemma byte_bound: "unat (x :: u8) < 256"
  using unsigned_less [of x] by simp

lemma unat_and_mask: "unat (x AND mask k :: u8) = unat x mod 2 ^ k"
  unfolding take_bit_eq_mask [symmetric] unsigned_take_bit_eq by (simp add: take_bit_eq_mod)

lemma unat_drop_bit: "unat (drop_bit k (x :: u8)) = unat x div 2 ^ k"
  unfolding unsigned_drop_bit_eq using byte_bound [of x] by (simp add: drop_bit_eq_div take_bit_eq_mod)

lemma low_bits:
  fixes x :: u8
  shows "unat (x AND 3) = unat x mod 4" "unat (x AND 15) = unat x mod 16" "unat (x AND 63) = unat x mod 64"
  using unat_and_mask [of x 2] unat_and_mask [of x 4] unat_and_mask [of x 6]
  by (simp_all add: mask_eq_exp_minus_1)

lemma sextets:
  fixes a b :: u8
  shows "unat (push_bit 4 (a AND 3) OR drop_bit 4 b) = unat a mod 4 * 16 + unat b div 16"
    "unat (push_bit 2 (a AND 15) OR drop_bit 6 b) = unat a mod 16 * 4 + unat b div 64"
  using byte_bound [of b]
  by (subst unat_shift_or; simp add: low_bits unat_drop_bit less_mult_imp_div_less)+

text \<open>The high parts of a byte are small, so recombining the sextets gives back the bytes.\<close>

lemma high_parts:
  fixes b :: u8
  shows "unat b div 16 div 16 = 0" "unat b div 64 div 4 = 0"
    "unat b div 16 mod 16 = unat b div 16" "unat b div 64 mod 4 = unat b div 64"
  using byte_bound [of b] by (simp_all add: less_mult_imp_div_less)

lemma sextet_bounds:
  fixes a b :: u8
  shows "unat a div 4 < 64" "unat a mod 4 * 16 + unat b div 16 < 64"
    "unat a mod 16 * 4 + unat b div 64 < 64" "unat a mod 64 < 64"
proof -
  have "unat b div 16 < 16" "unat b div 64 < 4" "unat a div 4 < 64"
    using byte_bound [of b] byte_bound [of a] by (simp_all add: less_mult_imp_div_less)
  moreover have "unat a mod 4 < 4" "unat a mod 16 < 16" by simp_all
  ultimately show "unat a div 4 < 64" "unat a mod 4 * 16 + unat b div 16 < 64"
    "unat a mod 16 * 4 + unat b div 64 < 64" "unat a mod 64 < 64"
    by linarith+
qed

text \<open>The characters of a chunk by the sextets they stand for.\<close>

lemma encode_chunk_sextets:
  "encode_chunk [a, b, c] =
     [ALPHABET ! (unat a div 4), ALPHABET ! (unat a mod 4 * 16 + unat b div 16),
      ALPHABET ! (unat b mod 16 * 4 + unat c div 64), ALPHABET ! (unat c mod 64)]"
  "encode_chunk [a, b] =
     [ALPHABET ! (unat a div 4), ALPHABET ! (unat a mod 4 * 16 + unat b div 16),
      ALPHABET ! (unat b mod 16 * 4 + unat (0 :: u8) div 64), CHR ''='']"
  "encode_chunk [a] =
     [ALPHABET ! (unat a div 4), ALPHABET ! (unat a mod 4 * 16 + unat (0 :: u8) div 16),
      CHR ''='', CHR ''='']"
  unfolding encode_chunk_def Let_def sextets low_bits unat_drop_bit by (simp_all add: sextets)

lemmas chunk_simps =
  encode_chunk_sextets decode_quad_def sextet_ALPHABET sextet_bounds ALPHABET_not_pad high_parts

lemma decode_encode_chunk3:
  "decode_base64 (encode_chunk [a, b, c] @ rest) = map_option ((@) [a, b, c]) (decode_base64 rest)"
  by (simp add: chunk_simps del: of_nat_add of_nat_mult of_nat_numeral split: option.split)

lemma decode_encode_chunk2: "decode_base64 (encode_chunk [a, b]) = Some [a, b]"
  unfolding encode_chunk_sextets
  by (simp add: chunk_simps del: of_nat_add of_nat_mult of_nat_numeral unsigned_0)

lemma decode_encode_chunk1: "decode_base64 (encode_chunk [a]) = Some [a]"
  unfolding encode_chunk_sextets
  by (simp add: chunk_simps del: of_nat_add of_nat_mult of_nat_numeral unsigned_0)

lemma decode_encode_key: "decode_base64 (encode_key key) = Some key"
proof (induction key rule: chunks3.induct)
  case (1 a b c rest)
  then show ?case by (simp add: encode_key_def decode_encode_chunk3)
qed (simp_all add: encode_key_def decode_encode_chunk1 decode_encode_chunk2)

lemma length_encode_key: "length (encode_key key) = 4 * ((length key + 2) div 3)"
proof (induction key rule: chunks3.induct)
  case (1 a b c rest)
  have "(length rest + 5) div 3 = (length rest + 2) div 3 + 1" by linarith
  with 1 show ?case by (simp add: encode_key_def encode_chunk_def Let_def add.commute)
qed (simp_all add: encode_key_def encode_chunk_def Let_def)

lemma encode_key_inj: "encode_key k = encode_key k' \<Longrightarrow> k = k'"
  by (metis decode_encode_key option.inject)

text \<open>
  C32. The key text handed to \<^verbatim>\<open>wg\<close> is standard padded base64 of the documented length:
  decoding it gives back the bytes of the key, for every key, and four characters stand for every
  started group of three bytes.\<close>

theorem encode_key_roundtrip:
  "decode_base64 (encode_key key) = Some key \<and> length (encode_key key) = 4 * ((length key + 2) div 3)"
  by (simp add: decode_encode_key length_encode_key)

end
