(* ===== verification/Linux_Node.thy ===== *)
theory Linux_Node
  imports Key_Encoding
begin

text \<open>
  \<^verbatim>\<open>core/transport/src/linux.rs\<close>: \<open>LinuxWireGuardNode\<close>, the server side of the
  tunnel, which owns one interface and the peers provisioned on it.  The hash set of keys is a
  set and the hash map of routes is a map.  The theorems show which peers own which routes and
  relate the recorded peers to those the successful commands of the trace have configured.
\<close>

section \<open>State\<close>

definition MAXIMUM_NODE_PEERS :: nat where
  "MAXIMUM_NODE_PEERS = 4096"

record LinuxWireGuardNode =
  node_tools :: LinuxTools
  node_runner :: runner
  node_interface :: "string option"
  peers :: "u8 list set"
  assigned_routes :: "AllowedIp \<rightharpoonup> u8 list"
  node_health_failures :: u32

definition LinuxWireGuardNode_new ::
  "LinuxTools \<Rightarrow> runner \<Rightarrow> (world, TransportError, LinuxWireGuardNode) rsm" where
  "LinuxWireGuardNode_new tools r =
     seqE (LinuxTools_validate tools)
     (seqE (reject_if (from_utf8 (private_key tools) = None)
        (InvalidConfig ''WireGuard private key path is not UTF-8''))
     (ret \<lparr>node_tools = tools, node_runner = r, node_interface = None, peers = {},
           assigned_routes = Map.empty, node_health_failures = 0\<rparr>))"

section \<open>Operations\<close>

definition node_command ::
  "LinuxWireGuardNode \<Rightarrow> path \<Rightarrow> string list \<Rightarrow> (world, TransportError, unit) rsm" where
  "node_command self p args = run_command (node_runner self) \<lparr>program = p, arguments = args\<rparr>"

definition node_delete_interface :: "LinuxWireGuardNode \<Rightarrow> string \<Rightarrow> (world, TransportError, unit) rsm" where
  "node_delete_interface self interface =
     node_command self (tool_ip (node_tools self)) [''link'', ''delete'', ''dev'', interface]"

definition configure_node ::
  "LinuxWireGuardNode \<Rightarrow> string \<Rightarrow> WireGuardNodeConfig \<Rightarrow> ConnectContext \<Rightarrow> (world, TransportError, unit) rsm" where
  "configure_node self interface config context =
     seqE (check context)
     (seqE (node_command self (tool_wg (node_tools self))
        [''set'', interface, ''private-key'', from_utf8_lossy (private_key (node_tools self)),
         ''listen-port'', show_dec (unat (listen_port config))])
     (seqE (for_each (\<lambda>a. seqE (check context)
          (node_command self (tool_ip (node_tools self))
            [''address'', ''add'', prefix_text (address a) (address_prefix a), ''dev'', interface]))
        (interface_addresses config))
     (seqE (check context)
       (node_command self (tool_ip (node_tools self))
         [''link'', ''set'', ''dev'', interface, ''mtu'', show_dec (unat (node_mtu config)), ''up'']))))"

definition node_cleanup_failed :: "TransportError \<Rightarrow> TransportError \<Rightarrow> TransportError" where
  "node_cleanup_failed setup_error cleanup_error =
     Network (''WireGuard node setup failed: '' @ TransportError_display setup_error
       @ ''; cleanup failed: '' @ TransportError_display cleanup_error)"

definition node_start ::
  "string \<Rightarrow> WireGuardNodeConfig \<Rightarrow> ConnectContext \<Rightarrow> (LinuxWireGuardNode \<times> world, TransportError, unit) rsm" where
  "node_start interface config context =
     bindE get_self (\<lambda>self.
     seqE (reject_if (node_interface self \<noteq> None) AlreadyConnected)
     (seqE (reject_if (\<not> valid_interface interface) (InvalidConfig ''invalid WireGuard node interface name''))
     (seqE (of_result (WireGuardNodeConfig_validate config))
     (seqE (on_world (check context))
     (seqE (on_world (node_command self (tool_ip (node_tools self))
        [''link'', ''add'', ''dev'', interface, ''type'', ''wireguard'']))
     (bindE (outcome_of (on_world (configure_node self interface config context))) (\<lambda>configured.
      case configured of
        Inl setup_error \<Rightarrow>
          bindE (outcome_of (on_world (node_delete_interface self interface))) (\<lambda>deleted.
          case deleted of
            Inl cleanup_error \<Rightarrow> throw (node_cleanup_failed setup_error cleanup_error)
          | Inr _ \<Rightarrow> throw setup_error)
      | Inr _ \<Rightarrow> modify_self (node_interface_update (\<lambda>_. Some interface)))))))))"

fun insert_routes :: "AllowedIp list \<Rightarrow> u8 list \<Rightarrow> (AllowedIp \<rightharpoonup> u8 list) \<Rightarrow> (AllowedIp \<rightharpoonup> u8 list)" where
  "insert_routes [] k m = m"
| "insert_routes (route # routes) k m = insert_routes routes k (m(route \<mapsto> k))"

definition node_add_peer :: "WireGuardNodePeer \<Rightarrow> (LinuxWireGuardNode \<times> world, TransportError, unit) rsm" where
  "node_add_peer peer =
     seqE (of_result (WireGuardNodePeer_validate peer))
     (bindE get_self (\<lambda>self.
      case node_interface self of
        None \<Rightarrow> throw NotConnected
      | Some interface \<Rightarrow>
          seqE (reject_if (MAXIMUM_NODE_PEERS \<le> card (peers self))
            (InvalidConfig ''WireGuard node peer capacity reached''))
          (seqE (reject_if (public_key peer \<in> peers self)
            (InvalidConfig ''WireGuard node peer is already managed''))
          (seqE (reject_if (list_ex (\<lambda>route. assigned_routes self route \<noteq> None) (peer_allowed_ips peer))
            (InvalidConfig ''WireGuard node peer route is already assigned''))
          (let args = [''set'', interface, ''peer'', encode_key (public_key peer), ''allowed-ips'',
                 join '','' (map (\<lambda>n. prefix_text (network n) (prefix_length n)) (peer_allowed_ips peer))];
               args = (case peer_keepalive peer of
                         None \<Rightarrow> args
                       | Some seconds \<Rightarrow> args @ [''persistent-keepalive'', show_dec (unat seconds)])
           in seqE (on_world (node_command self (tool_wg (node_tools self)) args))
             (seqE (modify_self (peers_update (insert (public_key peer))))
             (modify_self (assigned_routes_update (insert_routes (peer_allowed_ips peer) (public_key peer))))))))))"

definition retain_routes :: "u8 list \<Rightarrow> (AllowedIp \<rightharpoonup> u8 list) \<Rightarrow> (AllowedIp \<rightharpoonup> u8 list)" where
  "retain_routes k m = (\<lambda>route. if m route = Some k then None else m route)"

definition node_remove_peer :: "u8 list \<Rightarrow> (LinuxWireGuardNode \<times> world, TransportError, unit) rsm" where
  "node_remove_peer k =
     bindE get_self (\<lambda>self.
      case node_interface self of
        None \<Rightarrow> throw NotConnected
      | Some interface \<Rightarrow>
          seqE (reject_if (k \<notin> peers self) (InvalidConfig ''WireGuard node peer is not managed''))
          (seqE (on_world (node_command self (tool_wg (node_tools self))
             [''set'', interface, ''peer'', encode_key k, ''remove'']))
          (seqE (modify_self (peers_update (\<lambda>ks. ks - {k})))
          (modify_self (assigned_routes_update (retain_routes k))))))"

definition node_stop :: "(LinuxWireGuardNode \<times> world, TransportError, unit) rsm" where
  "node_stop =
     bindE get_self (\<lambda>self.
      case node_interface self of
        None \<Rightarrow> throw NotConnected
      | Some interface \<Rightarrow>
          seqE (on_world (node_delete_interface self interface))
          (modify_self (\<lambda>self. self\<lparr>node_interface := None, peers := {}, assigned_routes := Map.empty\<rparr>)))"

definition unavailable_node :: "nat \<Rightarrow> u32 \<Rightarrow> WireGuardNodeHealth" where
  "unavailable_node configured failures =
     \<lparr>node_status = Unavailable, configured_peers = configured, observed_peers = 0, recent_handshakes = 0,
      node_failures = failures\<rparr>"

definition node_health :: "(LinuxWireGuardNode \<times> world, TransportError, WireGuardNodeHealth) rsm" where
  "node_health =
     bindE get_self (\<lambda>self.
     let configured = card (peers self);
         failed = (let failures = saturating_add (node_health_failures self) 1
                   in seqE (modify_self (node_health_failures_update (\<lambda>_. failures)))
                     (ret (unavailable_node configured failures)))
     in case node_interface self of
          None \<Rightarrow> ret (unavailable_node configured (node_health_failures self))
        | Some interface \<Rightarrow>
            bindE (outcome_of (on_world (output_command (node_runner self)
                \<lparr>program = tool_wg (node_tools self),
                 arguments = [''show'', interface, ''latest-handshakes'']\<rparr>))) (\<lambda>reply.
            case reply of
              Inl _ \<Rightarrow> failed
            | Inr output \<Rightarrow>
                bindE (on_world (node_handshakes output)) (\<lambda>counts.
                case counts of
                  None \<Rightarrow> failed
                | Some (observed, fresh) \<Rightarrow>
                    seqE (modify_self (node_health_failures_update (\<lambda>_. 0)))
                    (ret \<lparr>node_status = (if observed = configured then Healthy else Degraded),
                          configured_peers = configured, observed_peers = observed,
                          recent_handshakes = fresh, node_failures = 0\<rparr>))))"

section \<open>Route ownership\<close>

text \<open>
  Every assigned route belongs to a managed peer and is a host route, every managed peer has a
  route, the capacity is respected, and an inactive node manages nothing.
\<close>

definition node_inv :: "LinuxWireGuardNode \<Rightarrow> bool" where
  "node_inv n \<longleftrightarrow>
     finite (peers n) \<and> card (peers n) \<le> MAXIMUM_NODE_PEERS \<and>
     ran (assigned_routes n) = peers n \<and> (\<forall>route \<in> dom (assigned_routes n). host_route route) \<and>
     (node_interface n = None \<longrightarrow> peers n = {})"

lemma insert_routes_apply:
  "insert_routes routes k m route = (if route \<in> set routes then Some k else m route)"
  by (induction routes arbitrary: m) auto

lemma ran_insert_routes:
  assumes "routes \<noteq> []" and "\<forall>route \<in> set routes. m route = None"
  shows "ran (insert_routes routes k m) = insert k (ran m)"
proof -
  obtain route where "route \<in> set routes" using assms(1) by (cases routes) auto
  then show ?thesis
    using assms(2) by (auto simp: ran_def insert_routes_apply split: if_splits) (metis option.distinct(1))
qed

lemma ran_retain_routes: "ran (retain_routes k m) = ran m - {k}"
proof -
  have "retain_routes k m route = Some x \<longleftrightarrow> m route = Some x \<and> x \<noteq> k" for route x
    by (auto simp: retain_routes_def)
  then show ?thesis by (auto simp: ran_def)
qed

lemma retain_routes_Some: "retain_routes k m route = Some x \<Longrightarrow> route \<in> dom m"
  by (auto simp: retain_routes_def split: if_splits)

lemma peer_validate_routes:
  "WireGuardNodePeer_validate p = ok \<Longrightarrow> peer_allowed_ips p \<noteq> [] \<and> (\<forall>n \<in> set (peer_allowed_ips p). host_route n)"
  by (auto simp: WireGuardNodePeer_validate_def is_ok_unit_iff check_host_routes_ok split: if_splits)

lemma node_command_any: "(\<And>w'. Q () w') \<Longrightarrow> (\<And>e w'. E e w') \<Longrightarrow> wp (node_command self p args) Q E w"
  by (rule wp_any) auto

lemma add_peer_inv:
  assumes "node_inv (fst s)"
  shows "always (node_add_peer peer) (\<lambda>t. node_inv (fst t)) s"
proof (cases "WireGuardNodePeer_validate peer")
  case (Inl e)
  then show ?thesis using assms by (simp add: node_add_peer_def wp_simps)
next
  case (Inr u)
  then have routes: "peer_allowed_ips peer \<noteq> []" "\<forall>n \<in> set (peer_allowed_ips peer). host_route n"
    using peer_validate_routes by auto
  then show ?thesis
    using assms Inr unfolding node_add_peer_def wp_simps Let_def
    by (auto simp: node_inv_def list_ex_iff card_insert_if insert_routes_apply dom_def ran_insert_routes wp_simps
        intro!: node_command_any split: option.split if_splits)
qed

lemma remove_peer_inv:
  assumes "node_inv (fst s)"
  shows "always (node_remove_peer k) (\<lambda>t. node_inv (fst t)) s"
  using assms unfolding node_remove_peer_def wp_simps
  by (auto simp: node_inv_def ran_retain_routes wp_simps card_Diff_singleton_if
      intro!: node_command_any dest: retain_routes_Some split: option.split)

lemma node_stop_inv:
  assumes "node_inv (fst s)"
  shows "always node_stop (\<lambda>t. node_inv (fst t)) s"
  using assms unfolding node_stop_def wp_simps node_delete_interface_def
  by (auto simp: node_inv_def wp_simps intro!: node_command_any split: option.split)

lemma node_start_inv:
  assumes "node_inv (fst s)"
  shows "always (node_start i config context) (\<lambda>t. node_inv (fst t)) s"
  using assms unfolding node_start_def wp_simps node_delete_interface_def
  by (auto simp: node_inv_def wp_simps intro!: node_command_any wp_any [of _ _ "check _"] wp_any [of _ _ "configure_node _ _ _ _"]
      split: sum.split)

lemma node_health_inv:
  assumes "node_inv (fst s)"
  shows "wp node_health (\<lambda>_ t. node_inv (fst t)) (\<lambda>_ _. False) s"
  using assms unfolding node_health_def wp_simps node_handshakes_def Let_def
  by (auto simp: node_inv_def wp_simps Let_def split: option.split sum.split prod.split)

section \<open>Peers of the kernel interface\<close>

text \<open>
  The keys configured on the node's interface, read off the successful commands of its runner:
  \<^verbatim>\<open>wg set\<close> adds or removes a peer, and deleting the link drops all of them.
\<close>

definition peer_effect :: "string list \<Rightarrow> string set \<Rightarrow> string set" where
  "peer_effect args ks =
     (if take 3 args = [''link'', ''delete'', ''dev''] then {}
      else if 4 < length args \<and> args ! 0 = ''set'' \<and> args ! 2 = ''peer''
        then (if args ! 4 = ''remove'' then ks - {args ! 3} else insert (args ! 3) ks)
      else ks)"

definition node_effect :: "runner \<Rightarrow> event \<Rightarrow> string set \<Rightarrow> string set" where
  "node_effect r ev ks =
     (case ev of
        CommandRun r' c accepted \<Rightarrow> if accepted \<and> r' = r then peer_effect (arguments c) ks else ks
      | _ \<Rightarrow> ks)"

definition kernel_peers :: "LinuxWireGuardNode \<Rightarrow> world \<Rightarrow> string set" where
  "kernel_peers self w = fold (node_effect (node_runner self)) (trace w) {}"

lemma kernel_peers_log [simp]:
  "kernel_peers self (log_event (CommandRun r c b) w) =
     (if b \<and> r = node_runner self then peer_effect (arguments c) (kernel_peers self w) else kernel_peers self w)"
  "kernel_peers self (log_event (CommandOutput r c b) w) = kernel_peers self w"
  "kernel_peers self (log_event (ReadCancelled t b) w) = kernel_peers self w"
  "kernel_peers self (log_event (ReadInstant n) w) = kernel_peers self w"
  "kernel_peers self (log_event (ReadUnixTime u) w) = kernel_peers self w"
  "kernel_peers self (cancel t w) = kernel_peers self w"
  by (simp_all add: kernel_peers_def node_effect_def)

lemma kernel_peers_update [simp]:
  "kernel_peers (node_interface_update f self) w = kernel_peers self w"
  "kernel_peers (peers_update g self) w = kernel_peers self w"
  "kernel_peers (assigned_routes_update h self) w = kernel_peers self w"
  "kernel_peers (node_health_failures_update u self) w = kernel_peers self w"
  by (simp_all add: kernel_peers_def)

text \<open>The recorded peers are the configured ones.\<close>

definition node_synced :: "LinuxWireGuardNode \<times> world \<Rightarrow> bool" where
  "node_synced s \<longleftrightarrow> node_inv (fst s) \<and> kernel_peers (fst s) (snd s) = encode_key ` peers (fst s)"

lemma wp_node_command_peers:
  assumes "kernel_peers self w = ks" and "\<And>w'. kernel_peers self w' = peer_effect args ks \<Longrightarrow> Q () w'"
    and "\<And>e w'. kernel_peers self w' = ks \<Longrightarrow> E e w'"
  shows "wp (node_command self p args) Q E w"
  using assms by (auto simp: node_command_def wp_simps split: sum.splits)

lemma wp_check_peers:
  assumes "kernel_peers self w = ks" and "\<And>w'. kernel_peers self w' = ks \<Longrightarrow> Q () w'"
    and "\<And>e w'. kernel_peers self w' = ks \<Longrightarrow> E e w'"
  shows "wp (check context) Q E w"
  using assms by (auto simp: check_def wp_simps Let_def)

lemma configure_node_peers:
  "always (configure_node self i config context) (\<lambda>w'. kernel_peers self w' = kernel_peers self w) w"
proof -
  let ?I = "\<lambda>w'. kernel_peers self w' = kernel_peers self w"
  have address: "always (for_each (\<lambda>a. seqE (check context) (node_command self (tool_ip (node_tools self))
      [''address'', ''add'', prefix_text (address a) (address_prefix a), ''dev'', i])) as) ?I w'"
    if "?I w'" for as w'
    using that
    by (intro wp_for_each_inv)
      (auto simp: peer_effect_def wp_simps intro!: wp_check_peers [where self = self] wp_node_command_peers)
  show ?thesis
    unfolding configure_node_def wp_simps
    by (auto simp: peer_effect_def intro!: wp_check_peers [where self = self] wp_node_command_peers
        wp_mono [OF address])
qed

lemma key_image: "encode_key k \<in> encode_key ` ks \<longleftrightarrow> k \<in> ks"
  by (auto dest: encode_key_inj)

lemma key_image_remove: "encode_key ` (ks - {k}) = encode_key ` ks - {encode_key k}"
  by (auto dest: encode_key_inj)

lemma add_peer_synced:
  assumes "kernel_peers (fst s) (snd s) = encode_key ` peers (fst s)"
  shows "always (node_add_peer peer) (\<lambda>t. kernel_peers (fst t) (snd t) = encode_key ` peers (fst t)) s"
  using assms unfolding node_add_peer_def wp_simps Let_def
  by (auto simp: wp_simps peer_effect_def intro!: wp_node_command_peers split: option.split sum.split)

lemma remove_peer_synced:
  assumes "kernel_peers (fst s) (snd s) = encode_key ` peers (fst s)"
  shows "always (node_remove_peer k) (\<lambda>t. kernel_peers (fst t) (snd t) = encode_key ` peers (fst t)) s"
  using assms unfolding node_remove_peer_def wp_simps
  by (auto simp: wp_simps peer_effect_def key_image_remove intro!: wp_node_command_peers split: option.split)

lemma node_stop_synced:
  assumes "kernel_peers (fst s) (snd s) = encode_key ` peers (fst s)"
  shows "always node_stop (\<lambda>t. kernel_peers (fst t) (snd t) = encode_key ` peers (fst t)) s"
  using assms unfolding node_stop_def wp_simps node_delete_interface_def
  by (auto simp: wp_simps peer_effect_def intro!: wp_node_command_peers split: option.split)

lemma node_start_synced:
  assumes "node_synced s"
  shows "always (node_start i config context) (\<lambda>t. kernel_peers (fst t) (snd t) = encode_key ` peers (fst t)) s"
proof -
  obtain n w where s: "s = (n, w)" by fastforce
  have "node_interface n = None \<Longrightarrow> peers n = {}" "kernel_peers n w = encode_key ` peers n"
    using assms by (auto simp: s node_synced_def node_inv_def)
  then show ?thesis
    unfolding node_start_def wp_simps node_delete_interface_def s
    by (auto simp: wp_simps peer_effect_def
        intro!: wp_check_peers [where self = n] wp_node_command_peers wp_mono [OF configure_node_peers]
        split: sum.split)
qed

lemma node_health_synced:
  assumes "kernel_peers (fst s) (snd s) = encode_key ` peers (fst s)"
  shows "wp node_health (\<lambda>_ t. kernel_peers (fst t) (snd t) = encode_key ` peers (fst t)) (\<lambda>_ _. False) s"
  using assms unfolding node_health_def wp_simps node_handshakes_def Let_def
  by (auto simp: wp_simps Let_def split: option.split sum.split prod.split)

section \<open>Histories of a node\<close>

inductive node_step :: "LinuxWireGuardNode \<times> world \<Rightarrow> LinuxWireGuardNode \<times> world \<Rightarrow> bool" where
  step_start: "node_start i config context s = (r, t) \<Longrightarrow> node_step s t"
| step_add: "node_add_peer peer s = (r, t) \<Longrightarrow> node_step s t"
| step_remove: "node_remove_peer k s = (r, t) \<Longrightarrow> node_step s t"
| step_stop: "node_stop s = (r, t) \<Longrightarrow> node_step s t"
| step_health: "node_health s = (q, t) \<Longrightarrow> node_step s t"
| step_signal: "node_step (n, w) (n, cancel c w)"

lemma always_health:
  assumes "wp node_health (\<lambda>_. I) (\<lambda>_ _. False) s"
  shows "always node_health I s"
  using assms by (rule wp_mono) auto

lemma node_step_synced:
  assumes "node_step s t" and "node_synced s"
  shows "node_synced t"
proof -
  have inv: "node_inv (fst s)" and keys: "kernel_peers (fst s) (snd s) = encode_key ` peers (fst s)"
    using assms(2) by (auto simp: node_synced_def)
  show ?thesis
    using assms(1)
  proof cases
    case (step_start i config "context" r)
    then show ?thesis
      using alwaysD [OF node_start_inv [OF inv]] alwaysD [OF node_start_synced [OF assms(2)]] by (auto simp: node_synced_def)
  next
    case (step_add peer r)
    then show ?thesis
      using alwaysD [OF add_peer_inv [OF inv]] alwaysD [OF add_peer_synced [OF keys]] by (auto simp: node_synced_def)
  next
    case (step_remove k r)
    then show ?thesis
      using alwaysD [OF remove_peer_inv [OF inv]] alwaysD [OF remove_peer_synced [OF keys]] by (auto simp: node_synced_def)
  next
    case (step_stop r)
    then show ?thesis
      using alwaysD [OF node_stop_inv [OF inv]] alwaysD [OF node_stop_synced [OF keys]] by (auto simp: node_synced_def)
  next
    case (step_health q)
    then show ?thesis
      using alwaysD [OF always_health [OF node_health_inv [OF inv]]]
        alwaysD [OF always_health [OF node_health_synced [OF keys]]] by (auto simp: node_synced_def)
  next
    case (step_signal n w c)
    then show ?thesis using assms(2) by (simp add: node_synced_def)
  qed
qed

lemma node_run_synced: "rtranclp node_step s t \<Longrightarrow> node_synced s \<Longrightarrow> node_synced t"
  by (induction rule: rtranclp_induct) (auto intro: node_step_synced)

lemma node_inv_new: "LinuxWireGuardNode_new tools r w = (Inr n, w') \<Longrightarrow> node_inv n \<and> peers n = {} \<and> node_interface n = None"
  by (auto simp: LinuxWireGuardNode_new_def seqE_def bindE_def reject_if_def ret_def throw_def node_inv_def
      split: prod.splits sum.splits if_splits)

text \<open>What a peer operation changes.\<close>

lemma add_peer_effect:
  "wp (node_add_peer peer)
     (\<lambda>_ t. node_interface (fst s) \<noteq> None \<and> public_key peer \<notin> peers (fst s) \<and>
        card (peers (fst s)) < MAXIMUM_NODE_PEERS \<and>
        (\<forall>route \<in> set (peer_allowed_ips peer). assigned_routes (fst s) route = None) \<and>
        fst t = (fst s)\<lparr>peers := insert (public_key peer) (peers (fst s)),
          assigned_routes := insert_routes (peer_allowed_ips peer) (public_key peer) (assigned_routes (fst s))\<rparr>)
     (\<lambda>_ t. fst t = fst s) s"
  unfolding node_add_peer_def wp_simps Let_def
  by (auto simp: list_ex_iff wp_simps intro!: node_command_any split: option.split sum.split)

lemma remove_peer_effect:
  "wp (node_remove_peer k)
     (\<lambda>_ t. k \<in> peers (fst s) \<and> node_interface (fst s) \<noteq> None \<and>
        fst t = (fst s)\<lparr>peers := peers (fst s) - {k}, assigned_routes := retain_routes k (assigned_routes (fst s))\<rparr>)
     (\<lambda>_ t. fst t = fst s) s"
  unfolding node_remove_peer_def wp_simps
  by (auto simp: wp_simps intro!: node_command_any split: option.split)

lemma retain_insert_routes:
  assumes "k \<notin> ran m" and "\<forall>route \<in> set routes. m route = None"
  shows "retain_routes k (insert_routes routes k m) = m"
  using assms by (auto simp: fun_eq_iff retain_routes_def insert_routes_apply ran_def)

text \<open>On a platform that accepts the commands, valid requests succeed.\<close>

lemma wp_node_command_favourable:
  assumes "favourable (node_runner self) ctx w"
    and "\<And>w'. favourable (node_runner self) ctx w' \<Longrightarrow> Q () w'"
  shows "wp (node_command self p args) Q E w"
  unfolding node_command_def using assms by (rule wp_run_favourable)

lemma configure_node_favourable:
  assumes "favourable (node_runner self) ctx w"
  shows "wp (configure_node self i config ctx) (\<lambda>_ w'. favourable (node_runner self) ctx w') (\<lambda>_ _. False) w"
proof -
  let ?I = "favourable (node_runner self) ctx"
  have address: "wp (for_each (\<lambda>a. seqE (check ctx) (node_command self (tool_ip (node_tools self))
      [''address'', ''add'', prefix_text (address a) (address_prefix a), ''dev'', i])) as) (\<lambda>_. ?I) (\<lambda>_ _. False) w'"
    if "?I w'" for as w'
    using that
    by (intro wp_for_each_inv)
      (auto simp: wp_simps intro!: wp_check_favourable wp_node_command_favourable [where ctx = ctx])
  show ?thesis
    unfolding configure_node_def wp_simps
    by (rule wp_check_favourable [OF assms], rule wp_node_command_favourable, assumption,
        rule wp_mono [OF address], assumption, rule wp_check_favourable, assumption,
        rule wp_node_command_favourable)
qed

lemma node_start_favourable:
  assumes "favourable (node_runner n) ctx w" and "node_interface n = None" and "valid_interface i"
    and "WireGuardNodeConfig_validate config = ok"
  shows "wp (node_start i config ctx)
    (\<lambda>_ t. fst t = n\<lparr>node_interface := Some i\<rparr> \<and> favourable (node_runner n) ctx (snd t)) (\<lambda>_ _. False) (n, w)"
  using assms unfolding node_start_def wp_simps
  by (auto simp: wp_simps intro!: wp_check_favourable wp_node_command_favourable [where ctx = ctx] wp_mono [OF configure_node_favourable])

lemma add_peer_favourable:
  assumes "favourable (node_runner n) ctx w" and "node_interface n = Some i"
    and "WireGuardNodePeer_validate peer = ok" and "card (peers n) < MAXIMUM_NODE_PEERS"
    and "public_key peer \<notin> peers n" and "\<forall>route \<in> set (peer_allowed_ips peer). assigned_routes n route = None"
  shows "wp (node_add_peer peer)
    (\<lambda>_ t. fst t = n\<lparr>peers := insert (public_key peer) (peers n),
          assigned_routes := insert_routes (peer_allowed_ips peer) (public_key peer) (assigned_routes n)\<rparr> \<and>
       favourable (node_runner n) ctx (snd t)) (\<lambda>_ _. False) (n, w)"
  using assms unfolding node_add_peer_def wp_simps Let_def
  by (auto simp: wp_simps list_ex_iff intro!: wp_node_command_favourable [where ctx = ctx] split: option.split)

lemma remove_peer_favourable:
  assumes "favourable (node_runner n) ctx w" and "node_interface n = Some i" and "k \<in> peers n"
  shows "wp (node_remove_peer k) (\<lambda>_ t. favourable (node_runner n) ctx (snd t)) (\<lambda>_ _. False) (n, w)"
  using assms unfolding node_remove_peer_def wp_simps
  by (auto simp: wp_simps intro!: wp_node_command_favourable [where ctx = ctx])

section \<open>Properties\<close>

text \<open>
  C14. Take a freshly built node whose runner has configured no peer, and any history of starts,
  peer changes, stops and health checks, whatever the commands reply.  The peers configured on
  the kernel interface are then exactly the recorded ones (under their base64 text), at most 4096,
  every recorded peer owns a route, every assigned route is a host route of a recorded peer, and a
  node without an interface has no peer left in the kernel.
\<close>

theorem node_peers_match_kernel:
  assumes "LinuxWireGuardNode_new tools r wb = (Inr n0, w0)" and "kernel_peers n0 w0 = {}"
    and "rtranclp node_step (n0, w0) (n, w)"
  shows "kernel_peers n w = encode_key ` peers n \<and> card (kernel_peers n w) \<le> MAXIMUM_NODE_PEERS \<and>
    (\<forall>k. k \<in> peers n \<longleftrightarrow> (\<exists>route. assigned_routes n route = Some k)) \<and>
    (\<forall>route. assigned_routes n route \<noteq> None \<longrightarrow> host_route route) \<and>
    (node_interface n = None \<longrightarrow> kernel_peers n w = {})"
proof -
  have "node_synced (n0, w0)"
    using node_inv_new [OF assms(1)] assms(2) by (simp add: node_synced_def)
  then have synced: "node_inv n" "kernel_peers n w = encode_key ` peers n"
    using node_run_synced [OF assms(3)] by (auto simp: node_synced_def)
  have "card (encode_key ` peers n) = card (peers n)"
    by (intro card_image inj_onI) (rule encode_key_inj)
  moreover have "k \<in> peers n \<longleftrightarrow> (\<exists>route. assigned_routes n route = Some k)" for k
    using synced(1) by (auto simp: node_inv_def ran_def)
  ultimately show ?thesis using synced by (auto simp: node_inv_def)
qed

definition server_tools :: LinuxTools where
  "server_tools = \<lparr>tool_ip = ''/sbin/ip'', tool_wg = ''/usr/bin/wg'', private_key = ''/etc/key''\<rparr>"

definition fresh_server :: LinuxWireGuardNode where
  "fresh_server =
     \<lparr>node_tools = server_tools, node_runner = 3, node_interface = None, peers = {},
      assigned_routes = Map.empty, node_health_failures = 0\<rparr>"

definition example_peer :: WireGuardNodePeer where
  "example_peer =
     \<lparr>public_key = replicate 32 7, peer_allowed_ips = [\<lparr>network = V4 0x0A140002, prefix_length = 32\<rparr>],
      peer_keepalive = None\<rparr>"

definition server_context :: ConnectContext where
  "server_context = \<lparr>deadline = 5000, cancellation = 0\<rparr>"

lemma server_new:
  "\<exists>w0. LinuxWireGuardNode_new server_tools 3 calm_world = (Inr fresh_server, w0) \<and>
     favourable 3 server_context w0 \<and> kernel_peers fresh_server w0 = {}"
proof -
  have utf8: "from_utf8 (private_key server_tools) \<noteq> None"
    by (simp add: server_tools_def from_utf8_def) code_simp
  show ?thesis
    using utf8
    by (simp add: LinuxWireGuardNode_new_def fresh_server_def server_tools_def LinuxTools_validate_def
        validate_executable_def symlink_metadata_def path_is_absolute_def seqE_def bindE_def reject_if_def ret_def
        throw_def favourable_def server_context_def kernel_peers_def node_effect_def)
qed

lemma server_config: "WireGuardNodeConfig_validate example_node_config = ok" "valid_interface ''wg0''"
  "WireGuardNodePeer_validate example_peer = ok"
  by (simp_all add: example_node_config_def network_eval valid_interface_def interface_char_def
      is_ascii_alphanumeric_def is_ascii_digit_def example_peer_def WireGuardNodePeer_validate_def
      validate_keepalive_def list_all_iff)

lemma server_with_peer:
  "\<exists>w0 n w. LinuxWireGuardNode_new server_tools 3 calm_world = (Inr fresh_server, w0) \<and>
     kernel_peers fresh_server w0 = {} \<and> rtranclp node_step (fresh_server, w0) (n, w) \<and>
     peers n = {public_key example_peer} \<and> favourable 3 server_context w \<and> node_interface n = Some ''wg0''"
proof -
  obtain w0 where new: "LinuxWireGuardNode_new server_tools 3 calm_world = (Inr fresh_server, w0)"
    "favourable 3 server_context w0" "kernel_peers fresh_server w0 = {}"
    using server_new by blast
  obtain r n1 w1 where start: "node_start ''wg0'' example_node_config server_context (fresh_server, w0) = (r, (n1, w1))"
    by (metis prod.exhaust)
  have n1: "n1 = fresh_server\<lparr>node_interface := Some ''wg0''\<rparr>" "favourable 3 server_context w1"
    using wp_resultD [OF node_start_favourable start] new(2) server_config
    by (auto simp: fresh_server_def split: sum.splits)
  obtain q n2 w2 where add: "node_add_peer example_peer (n1, w1) = (q, (n2, w2))"
    by (metis prod.exhaust)
  have n2: "peers n2 = {public_key example_peer}" "favourable 3 server_context w2" "node_interface n2 = Some ''wg0''"
    using wp_resultD [OF add_peer_favourable [where ctx = server_context] add] n1 server_config
    by (auto simp: fresh_server_def MAXIMUM_NODE_PEERS_def split: sum.splits)
  have "rtranclp node_step (fresh_server, w0) (n2, w2)"
    using step_start [OF start] step_add [OF add] by (meson converse_rtranclp_into_rtranclp rtranclp.rtrancl_refl)
  then show ?thesis using new n2 by blast
qed

theorem node_peers_match_kernel_witness:
  "\<exists>w0 n w. LinuxWireGuardNode_new server_tools 3 calm_world = (Inr fresh_server, w0) \<and>
     rtranclp node_step (fresh_server, w0) (n, w) \<and> kernel_peers n w = {encode_key (public_key example_peer)}"
proof -
  obtain w0 n w where run: "LinuxWireGuardNode_new server_tools 3 calm_world = (Inr fresh_server, w0)"
    "kernel_peers fresh_server w0 = {}" "rtranclp node_step (fresh_server, w0) (n, w)"
    "peers n = {public_key example_peer}"
    using server_with_peer by blast
  have "kernel_peers n w = {encode_key (public_key example_peer)}"
    using node_peers_match_kernel [OF run(1-3)] run(4) by simp
  then show ?thesis using run by blast
qed

text \<open>
  C17. Provisioning a peer takes no route of another peer, a failed peer operation changes nothing
  of the recorded state, and removing the peer just added gives back exactly the state before it.
\<close>

theorem add_then_remove_peer:
  assumes "node_inv n" and "node_add_peer peer (n, w) = (r, (n1, w1))"
    and "node_remove_peer (public_key peer) (n1, w2) = (q, (n2, w3))"
  shows "(if is_ok r
      then public_key peer \<in> peers n1 \<and>
        (\<forall>route k. assigned_routes n route = Some k \<longrightarrow> assigned_routes n1 route = Some k) \<and>
        (if is_ok q then n2 = n else n2 = n1)
      else n1 = n)"
proof (cases r)
  case (Inl e)
  then show ?thesis using wp_ErrD [OF add_peer_effect, of _ _ e] assms(2) by fastforce
next
  case (Inr u)
  have added: "public_key peer \<notin> peers n" "\<forall>route \<in> set (peer_allowed_ips peer). assigned_routes n route = None"
    "n1 = n\<lparr>peers := insert (public_key peer) (peers n),
        assigned_routes := insert_routes (peer_allowed_ips peer) (public_key peer) (assigned_routes n)\<rparr>"
    using wp_OkD [OF add_peer_effect assms(2) [unfolded Inr]] by auto
  have routes: "retain_routes (public_key peer)
      (insert_routes (peer_allowed_ips peer) (public_key peer) (assigned_routes n)) = assigned_routes n"
    using added(1,2) assms(1) by (intro retain_insert_routes) (auto simp: node_inv_def)
  have "n2 = (if is_ok q then n else n1)"
  proof (cases q)
    case (Inl e)
    then show ?thesis using wp_ErrD [OF remove_peer_effect assms(3) [unfolded Inl]] by simp
  next
    case (Inr v)
    then show ?thesis
      using wp_OkD [OF remove_peer_effect assms(3) [unfolded Inr]] routes added(1,3) by auto
  qed
  then show ?thesis using added Inr by (auto simp: insert_routes_apply)
qed

text \<open>A node with one peer, on a platform that accepts its commands.\<close>

lemma example_add_remove:
  "\<exists>n w r n1 w1 q n2 w3. node_inv n \<and> node_add_peer example_peer (n, w) = (r, (n1, w1)) \<and>
     node_remove_peer (public_key example_peer) (n1, w1) = (q, (n2, w3)) \<and> is_ok r \<and> is_ok q"
proof -
  define n where "n = fresh_server\<lparr>node_interface := Some ''wg0''\<rparr>"
  have fav: "favourable (node_runner n) server_context calm_world"
    by (simp add: favourable_def server_context_def)
  obtain r n1 w1 where add: "node_add_peer example_peer (n, calm_world) = (r, (n1, w1))" by (metis prod.exhaust)
  have "wp (node_add_peer example_peer)
      (\<lambda>_ t. public_key example_peer \<in> peers (fst t) \<and> favourable (node_runner (fst t)) server_context (snd t) \<and>
         node_interface (fst t) = Some ''wg0'') (\<lambda>_ _. False) (n, calm_world)"
    by (rule wp_mono [OF add_peer_favourable [OF fav]])
      (simp_all add: n_def fresh_server_def MAXIMUM_NODE_PEERS_def server_config)
  from wp_resultD [OF this add]
  have n1: "is_ok r" "public_key example_peer \<in> peers n1" "favourable (node_runner n1) server_context w1"
    "node_interface n1 = Some ''wg0''"
    by (simp_all split: sum.splits)
  obtain q n2 w3 where remove: "node_remove_peer (public_key example_peer) (n1, w1) = (q, (n2, w3))"
    by (metis prod.exhaust)
  have "is_ok q"
    using wp_resultD [OF remove_peer_favourable [OF n1(3,4,2)] remove] by (auto split: sum.splits)
  moreover have "node_inv n" by (simp add: n_def fresh_server_def node_inv_def)
  ultimately show ?thesis using add remove n1(1) by blast
qed

theorem add_then_remove_peer_witness:
  "\<exists>n w r n1 w1 q w3. node_add_peer example_peer (n, w) = (r, (n1, w1)) \<and>
     node_remove_peer (public_key example_peer) (n1, w1) = (q, (n, w3)) \<and> public_key example_peer \<in> peers n1"
proof -
  obtain n w r n1 w1 q n2 w3 where run: "node_inv n" "node_add_peer example_peer (n, w) = (r, (n1, w1))"
    "node_remove_peer (public_key example_peer) (n1, w1) = (q, (n2, w3))" "is_ok r" "is_ok q"
    using example_add_remove by blast
  have "public_key example_peer \<in> peers n1" "n2 = n"
    using add_then_remove_peer [OF run(1-3)] run(4,5) by simp_all
  then show ?thesis using run(2,3) by blast
qed

end
