(* ===== verification/Linux_Gateway.thy ===== *)
theory Linux_Gateway
  imports Linux_Tools
begin

text \<open>
  \<^verbatim>\<open>core/transport/src/linux.rs\<close>: \<open>LinuxWireGuardNodeGateway\<close>, the forwarding and
  source-NAT table of a node.  The table in force is the last one \<^verbatim>\<open>nft\<close> accepted from
  the gateway's runner.
\<close>

section \<open>State and operations\<close>

record LinuxWireGuardNodeGateway =
  gateway_tools :: LinuxNodeGatewayTools
  gateway_runner :: runner
  gateway_active :: bool

definition LinuxWireGuardNodeGateway_new ::
  "LinuxNodeGatewayTools \<Rightarrow> runner \<Rightarrow> (world, TransportError, LinuxWireGuardNodeGateway) rsm" where
  "LinuxWireGuardNodeGateway_new tools r =
     seqE (LinuxNodeGatewayTools_validate tools)
     (ret \<lparr>gateway_tools = tools, gateway_runner = r, gateway_active = False\<rparr>)"

definition forwarding_keys :: "WireGuardNodeGatewayPolicy \<Rightarrow> string list" where
  "forwarding_keys p =
     (if list_ex (\<lambda>n. is_ipv4 (network n)) (client_networks p) then [''net.ipv4.ip_forward''] else [])
     @ (if list_ex (\<lambda>n. \<not> is_ipv4 (network n)) (client_networks p)
        then [''net.ipv6.conf.all.forwarding''] else [])"

abbreviation dquote :: char where
  "dquote \<equiv> CHR 0x22"

definition client_rules :: "string \<Rightarrow> string \<Rightarrow> AllowedIp \<Rightarrow> string" where
  "client_rules wg uplink n =
     (let family = (if is_ipv4 (network n) then ''ip'' else ''ip6'');
          prefix = prefix_text (network n) (prefix_length n)
      in ''add rule inet cyberia_vpn_node forward iifname '' @ [dquote] @ wg @ [dquote] @ '' oifname ''
           @ [dquote] @ uplink @ [dquote] @ '' '' @ family @ '' saddr '' @ prefix @ '' accept'' @ [newline]
         @ ''add rule inet cyberia_vpn_node postrouting oifname '' @ [dquote] @ uplink @ [dquote] @ '' ''
           @ family @ '' saddr '' @ prefix @ '' masquerade'' @ [newline])"

definition node_gateway_rules :: "string \<Rightarrow> string \<Rightarrow> WireGuardNodeGatewayPolicy \<Rightarrow> string" where
  "node_gateway_rules wg uplink p =
     ''add table inet cyberia_vpn_node'' @ [newline]
     @ ''add chain inet cyberia_vpn_node forward { type filter hook forward priority 0; policy drop; }'' @ [newline]
     @ ''add chain inet cyberia_vpn_node postrouting { type nat hook postrouting priority 100; policy accept; }''
       @ [newline]
     @ ''add rule inet cyberia_vpn_node forward ct state established,related accept'' @ [newline]
     @ concat (map (client_rules wg uplink) (client_networks p))"

definition delete_table :: string where
  "delete_table = ''delete table inet cyberia_vpn_node'' @ [newline]"

definition nft_file :: "LinuxWireGuardNodeGateway \<Rightarrow> CommandSpec" where
  "nft_file self = \<lparr>program = tool_nft (gateway_tools self), arguments = [''--file'', ''-'']\<rparr>"

definition require_forwarding ::
  "LinuxWireGuardNodeGateway \<Rightarrow> string \<Rightarrow> (world, TransportError, unit) rsm" where
  "require_forwarding self key =
     bindE (output_command (gateway_runner self)
         \<lparr>program = tool_sysctl (gateway_tools self), arguments = [''-n'', key]\<rparr>) (\<lambda>output.
     reject_if (output \<noteq> ''1'' @ [newline] \<and> output \<noteq> ''1'')
       (InvalidConfig ''kernel IP forwarding is disabled''))"

definition gateway_enable ::
  "string \<Rightarrow> string \<Rightarrow> WireGuardNodeGatewayPolicy \<Rightarrow> ConnectContext
    \<Rightarrow> (LinuxWireGuardNodeGateway \<times> world, TransportError fault, unit) rsm" where
  "gateway_enable wg uplink p context =
     bindE get_self (\<lambda>self.
     seqE (reject_if (gateway_active self) (Error AlreadyConnected))
     (seqE (reject_if (\<not> valid_interface wg \<or> \<not> valid_interface uplink \<or> wg = uplink)
        (Error (InvalidConfig ''invalid WireGuard node gateway interface'')))
     (seqE (checked_result (GatewayPolicy_validate p))
     (seqE (map_err Error (on_world (check context)))
     (seqE (for_each (\<lambda>key. map_err Error (on_world (require_forwarding self key))) (forwarding_keys p))
     (seqE (map_err Error (on_world (check context)))
     (seqE (map_err Error (on_world (input_command (gateway_runner self) (nft_file self)
         (node_gateway_rules wg uplink p))))
     (modify_self (gateway_active_update (\<lambda>_. True))))))))))"

definition gateway_disable :: "(LinuxWireGuardNodeGateway \<times> world, TransportError, unit) rsm" where
  "gateway_disable =
     bindE get_self (\<lambda>self.
     seqE (reject_if (\<not> gateway_active self) NotConnected)
     (seqE (on_world (input_command (gateway_runner self) (nft_file self) delete_table))
     (modify_self (gateway_active_update (\<lambda>_. False)))))"

section \<open>The table in force\<close>

text \<open>
  The last input that \<^verbatim>\<open>nft\<close> accepted, unless it deleted the table.  The commands of a
  policy add to the table, so this is the whole table only when the policy was applied without one
  in force; \<open>gateway_enable\<close> refuses to run while the gateway is active, so no other case arises.
\<close>

definition table_effect :: "LinuxWireGuardNodeGateway \<Rightarrow> event \<Rightarrow> string option \<Rightarrow> string option" where
  "table_effect self ev cur =
     (case ev of
        CommandInput r c input accepted \<Rightarrow>
          if accepted \<and> r = gateway_runner self \<and> c = nft_file self
          then (if input = delete_table then None else Some input) else cur
      | _ \<Rightarrow> cur)"

definition forwarding_table :: "LinuxWireGuardNodeGateway \<Rightarrow> world \<Rightarrow> string option" where
  "forwarding_table self w = fold (table_effect self) (trace w) None"

lemma forwarding_table_log [simp]:
  "forwarding_table self (log_event (CommandInput r c i b) w) =
     table_effect self (CommandInput r c i b) (forwarding_table self w)"
  "forwarding_table self (log_event (CommandOutput r c b) w) = forwarding_table self w"
  "forwarding_table self (log_event (CommandRun r c b) w) = forwarding_table self w"
  "forwarding_table self (log_event (ReadCancelled t b) w) = forwarding_table self w"
  "forwarding_table self (log_event (ReadInstant n) w) = forwarding_table self w"
  "forwarding_table self (log_event (ReadUnixTime u) w) = forwarding_table self w"
  "forwarding_table self (cancel t w) = forwarding_table self w"
  by (simp_all add: forwarding_table_def table_effect_def)

lemma nft_file_update [simp]: "nft_file (gateway_active_update f self) = nft_file self"
  by (simp add: nft_file_def)

lemma forwarding_table_update [simp]: "forwarding_table (gateway_active_update f self) w = forwarding_table self w"
proof -
  have "table_effect (gateway_active_update f self) = table_effect self"
    by (auto simp: table_effect_def nft_file_def fun_eq_iff split: event.split)
  then show ?thesis by (simp add: forwarding_table_def)
qed

lemma rules_not_delete: "node_gateway_rules wg uplink p \<noteq> delete_table"
  by (simp add: node_gateway_rules_def delete_table_def)

lemma wp_check_table:
  assumes "forwarding_table self w = T"
    and "\<And>w'. forwarding_table self w' = T \<Longrightarrow> Q () w'" and "\<And>e w'. forwarding_table self w' = T \<Longrightarrow> E e w'"
  shows "wp (check context) Q E w"
  using assms by (auto simp: check_def wp_simps Let_def)

lemma require_forwarding_table:
  assumes "forwarding_table self (snd t) = T"
  shows "always (for_each (\<lambda>key. map_err Error (on_world (require_forwarding self key))) keys)
    (\<lambda>u. fst u = fst t \<and> forwarding_table self (snd u) = T) t"
  by (rule wp_for_each_inv [where I = "\<lambda>u. fst u = fst t \<and> forwarding_table self (snd u) = T"])
    (use assms in \<open>auto simp: require_forwarding_def wp_simps split: sum.splits\<close>)

definition gateway_synced :: "LinuxWireGuardNodeGateway \<times> world \<Rightarrow> bool" where
  "gateway_synced s \<longleftrightarrow> (gateway_active (fst s) \<longleftrightarrow> forwarding_table (fst s) (snd s) \<noteq> None)"

lemma gateway_enable_law:
  assumes "gateway_synced s"
  shows "wp (gateway_enable wg uplink p context)
    (\<lambda>_ t. gateway_synced t \<and> fst t = (fst s)\<lparr>gateway_active := True\<rparr> \<and> GatewayPolicy_validate p = Some ok \<and>
       valid_interface wg \<and> valid_interface uplink \<and> wg \<noteq> uplink \<and>
       forwarding_table (fst t) (snd t) = Some (node_gateway_rules wg uplink p))
    (\<lambda>e t. e \<noteq> Panic \<and> fst t = fst s \<and> forwarding_table (fst t) (snd t) = forwarding_table (fst s) (snd s)) s"
proof -
  obtain g w where s: "s = (g, w)" by fastforce
  obtain r where r: "GatewayPolicy_validate p = Some r" using GatewayPolicy_validate_total by blast
  have keys: "always (for_each (\<lambda>key. map_err Error (on_world (require_forwarding g key))) (forwarding_keys p))
      (\<lambda>u. fst u = g \<and> forwarding_table g (snd u) = T) (g, w')" if "forwarding_table g w' = T" for w' T
    using require_forwarding_table [of g "(g, w')" T] that by simp
  have no_panic: "wp (for_each (\<lambda>key. map_err Error (on_world (require_forwarding g key))) ks)
      (\<lambda>_ _. True) (\<lambda>e _. e \<noteq> Panic) u" for ks and u :: "LinuxWireGuardNodeGateway \<times> world"
    by (rule wp_for_each_inv [where I = "\<lambda>_. True", THEN wp_mono]) (auto simp: wp_simps intro: wp_any)
  note loop = wp_conj [OF keys no_panic]
  show ?thesis
    using assms r unfolding gateway_enable_def wp_simps s
    by (auto simp: gateway_synced_def table_effect_def rules_not_delete wp_simps is_ok_unit_iff
        intro!: wp_check_table [where self = g] wp_mono [OF loop] split: sum.split)
qed

lemma gateway_disable_law:
  assumes "gateway_synced s"
  shows "wp gateway_disable
    (\<lambda>_ t. gateway_active (fst s) \<and> fst t = (fst s)\<lparr>gateway_active := False\<rparr> \<and>
       forwarding_table (fst t) (snd t) = None)
    (\<lambda>_ t. fst t = fst s \<and> forwarding_table (fst t) (snd t) = forwarding_table (fst s) (snd s)) s"
  using assms unfolding gateway_disable_def wp_simps
  by (auto simp: gateway_synced_def table_effect_def split: sum.split)

section \<open>The commands of the table\<close>

definition client_lines :: "string \<Rightarrow> string \<Rightarrow> AllowedIp \<Rightarrow> string list" where
  "client_lines wg uplink n =
     (let source = (if is_ipv4 (network n) then ''ip'' else ''ip6'') @ '' saddr ''
            @ prefix_text (network n) (prefix_length n);
          out = ''oifname '' @ [dquote] @ uplink @ [dquote]
      in [''add rule inet cyberia_vpn_node forward iifname '' @ [dquote] @ wg @ [dquote] @ '' '' @ out @ '' ''
            @ source @ '' accept'',
          ''add rule inet cyberia_vpn_node postrouting '' @ out @ '' '' @ source @ '' masquerade''])"

definition gateway_lines :: "string \<Rightarrow> string \<Rightarrow> WireGuardNodeGatewayPolicy \<Rightarrow> string list" where
  "gateway_lines wg uplink p =
     [''add table inet cyberia_vpn_node'',
      ''add chain inet cyberia_vpn_node forward { type filter hook forward priority 0; policy drop; }'',
      ''add chain inet cyberia_vpn_node postrouting { type nat hook postrouting priority 100; policy accept; }'',
      ''add rule inet cyberia_vpn_node forward ct state established,related accept'']
     @ concat (map (client_lines wg uplink) (client_networks p))"

lemma node_gateway_rules_print: "node_gateway_rules wg uplink p = print_lines (gateway_lines wg uplink p)"
proof -
  have "client_rules wg uplink n = concat (map (\<lambda>l. l @ [newline]) (client_lines wg uplink n))" for n
    by (simp add: client_rules_def client_lines_def Let_def)
  then have "concat (map (client_rules wg uplink) ns)
      = concat (map (\<lambda>l. l @ [newline]) (concat (map (client_lines wg uplink) ns)))" for ns
    by (induction ns) simp_all
  then show ?thesis by (simp add: node_gateway_rules_def gateway_lines_def print_lines_def)
qed

lemma interface_char_plain:
  "interface_char c \<Longrightarrow> c \<noteq> newline \<and> c \<noteq> dquote \<and> c \<noteq> CHR '' '' \<and> c \<noteq> CHR '';'' \<and> c \<noteq> CHR ''{'' \<and> c \<noteq> CHR ''}''"
  by (auto simp: interface_char_def is_ascii_alphanumeric_def is_ascii_digit_def)

lemma valid_interface_plain: "valid_interface i \<Longrightarrow> newline \<notin> set i \<and> dquote \<notin> set i"
  using interface_char_plain by (auto simp: valid_interface_def list_all_iff)

lemma prefix_text_no_newline: "newline \<notin> set (prefix_text a p)"
  using show_ip_no_newline [of a] show_dec_no_newline by (simp add: prefix_text_def)

lemma clean_client_lines:
  assumes "valid_interface wg" and "valid_interface uplink" and "l \<in> set (client_lines wg uplink n)"
  shows "clean_line l"
  using assms(3) valid_interface_plain [OF assms(1)] valid_interface_plain [OF assms(2)]
    prefix_text_no_newline [of "network n" "prefix_length n"]
  by (auto simp: client_lines_def Let_def clean_line_def strip_cr_def split: if_splits)

lemma clean_gateway_lines:
  assumes "valid_interface wg" and "valid_interface uplink" and "l \<in> set (gateway_lines wg uplink p)"
  shows "clean_line l"
proof -
  have "clean_line l" if "l \<in> set (take 4 (gateway_lines wg uplink p))"
    using that by (auto simp: gateway_lines_def clean_line_def strip_cr_def)
  moreover have "l \<in> set (take 4 (gateway_lines wg uplink p)) \<or> (\<exists>n. l \<in> set (client_lines wg uplink n))"
    using assms(3) by (auto simp: gateway_lines_def)
  ultimately show ?thesis using clean_client_lines [OF assms(1,2)] by blast
qed

section \<open>Properties\<close>

text \<open>
  C15. Enabling a gateway never panics, and it is all or nothing: on success the drop-by-default table
  in force is exactly the two commands per client network of a validated policy between two valid
  and different interfaces, with nothing injected; on any failure the table in force and the
  gateway's state are as before.
\<close>

theorem gateway_enable_exact:
  assumes "gateway_active g \<longleftrightarrow> forwarding_table g w \<noteq> None"
    and "gateway_enable wg uplink p context (g, w) = (r, (g', w'))"
  shows "r \<noteq> Inl Panic \<and>
    (if is_ok r
     then gateway_active g' \<and> GatewayPolicy_validate p = Some ok \<and>
       (\<exists>rules. forwarding_table g' w' = Some rules \<and> str_lines rules = gateway_lines wg uplink p) \<and>
       (\<forall>c \<in> set wg \<union> set uplink. c \<noteq> newline \<and> c \<noteq> dquote \<and> c \<noteq> CHR '' '')
     else g' = g \<and> forwarding_table g' w' = forwarding_table g w)"
proof -
  have "gateway_synced (g, w)" using assms(1) by (simp add: gateway_synced_def)
  note law = wp_resultD [OF gateway_enable_law [OF this] assms(2)]
  show ?thesis
  proof (cases r)
    case (Inl e)
    then show ?thesis using law by auto
  next
    case (Inr u)
    then have ok: "gateway_active g'" "GatewayPolicy_validate p = Some ok" "valid_interface wg" "valid_interface uplink"
      "forwarding_table g' w' = Some (node_gateway_rules wg uplink p)"
      using law by auto
    have "str_lines (node_gateway_rules wg uplink p) = gateway_lines wg uplink p"
      unfolding node_gateway_rules_print using clean_gateway_lines [OF ok(3,4)] by (rule str_lines_print)
    moreover have "\<forall>c \<in> set wg \<union> set uplink. c \<noteq> newline \<and> c \<noteq> dquote \<and> c \<noteq> CHR '' ''"
      using ok(3,4) interface_char_plain unfolding valid_interface_def list_all_iff by blast
    ultimately show ?thesis using ok Inr by simp
  qed
qed

definition example_gateway_state :: LinuxWireGuardNodeGateway where
  "example_gateway_state =
     \<lparr>gateway_tools = \<lparr>tool_nft = ''/usr/sbin/nft'', tool_sysctl = ''/usr/sbin/sysctl''\<rparr>,
      gateway_runner = 4, gateway_active = False\<rparr>"

text \<open>A platform whose kernel forwards.\<close>

definition forwarding_world :: world where
  "forwarding_world = calm_world\<lparr>os := calm_platform\<lparr>output_reply := \<lambda>_ _ _. Inr ''1''\<rparr>\<rparr>"

lemma example_gateway_valid: "GatewayPolicy_validate example_gateway = Some ok"
  by (simp add: example_gateway_def network_eval)

lemma example_enable:
  "is_ok (fst (gateway_enable ''wg0'' ''eth0'' example_gateway \<lparr>deadline = 5000, cancellation = 0\<rparr>
     (example_gateway_state, forwarding_world)))"
proof -
  have keys: "forwarding_keys example_gateway = [''net.ipv4.ip_forward'']"
    by (simp add: forwarding_keys_def example_gateway_def)
  have names: "valid_interface ''wg0''" "valid_interface ''eth0''"
    by (simp_all add: valid_interface_def interface_char_def is_ascii_alphanumeric_def is_ascii_digit_def)
  show ?thesis
    by (simp add: gateway_enable_def keys names example_gateway_valid example_gateway_state_def forwarding_world_def
        for_each.simps require_forwarding_def check_def bindE_def seqE_def get_self_def modify_self_def reject_if_def
        throw_def ret_def checked_result_def map_err_def of_result_def on_world_def is_cancelled_def instant_now_def
        output_command_def input_command_def Let_def)
qed

theorem gateway_enable_exact_witness:
  "\<exists>r g' w'. gateway_enable ''wg0'' ''eth0'' example_gateway \<lparr>deadline = 5000, cancellation = 0\<rparr>
       (example_gateway_state, forwarding_world) = (r, (g', w')) \<and> gateway_active g' \<and>
     (\<exists>rules. forwarding_table g' w' = Some rules \<and> length (str_lines rules) = 8)"
proof -
  obtain r g' w' where run: "gateway_enable ''wg0'' ''eth0'' example_gateway \<lparr>deadline = 5000, cancellation = 0\<rparr>
       (example_gateway_state, forwarding_world) = (r, (g', w'))"
    by (metis prod.exhaust)
  have "is_ok r" using example_enable run by simp
  moreover have "gateway_active example_gateway_state \<longleftrightarrow> forwarding_table example_gateway_state forwarding_world \<noteq> None"
    by (simp add: example_gateway_state_def forwarding_table_def forwarding_world_def)
  moreover have "length (gateway_lines ''wg0'' ''eth0'' example_gateway) = 8"
    by (simp add: gateway_lines_def client_lines_def example_gateway_def Let_def)
  ultimately show ?thesis using gateway_enable_exact [OF _ run] run by (metis (no_types, lifting))
qed

end
