(* ===== verification/Linux_Managed_Node.thy ===== *)
theory Linux_Managed_Node
  imports Linux_Node Linux_Gateway
begin

text \<open>
  \<^verbatim>\<open>core/transport/src/linux.rs\<close>: \<open>LinuxManagedWireGuardNode\<close>, which composes the node
  with its forwarding gateway.  The theorems show that forwarding is in force only while the
  tunnel link exists, at every point of every history, and what a failed start or stop leaves.
\<close>

section \<open>State and operations\<close>

record LinuxManagedWireGuardNode =
  managed_interface :: string
  uplink_interface :: string
  managed_node :: LinuxWireGuardNode
  managed_gateway :: LinuxWireGuardNodeGateway
  managed_active :: bool

definition LinuxManagedWireGuardNode_new ::
  "string \<Rightarrow> string \<Rightarrow> LinuxWireGuardNode \<Rightarrow> LinuxWireGuardNodeGateway
    \<Rightarrow> TransportError + LinuxManagedWireGuardNode" where
  "LinuxManagedWireGuardNode_new i uplink n g =
     (if \<not> valid_interface i \<or> \<not> valid_interface uplink \<or> i = uplink
      then Inl (InvalidConfig ''invalid managed WireGuard node interface'')
      else Inr \<lparr>managed_interface = i, uplink_interface = uplink, managed_node = n, managed_gateway = g,
                managed_active = False\<rparr>)"

definition on_node ::
  "(LinuxWireGuardNode \<times> world, 'e, 'a) rsm \<Rightarrow> (LinuxManagedWireGuardNode \<times> world, 'e, 'a) rsm" where
  "on_node = on_field managed_node (\<lambda>n m. m\<lparr>managed_node := n\<rparr>)"

definition on_gateway ::
  "(LinuxWireGuardNodeGateway \<times> world, 'e, 'a) rsm \<Rightarrow> (LinuxManagedWireGuardNode \<times> world, 'e, 'a) rsm" where
  "on_gateway = on_field managed_gateway (\<lambda>g m. m\<lparr>managed_gateway := g\<rparr>)"

definition start_cleanup_failed :: "TransportError \<Rightarrow> TransportError \<Rightarrow> TransportError" where
  "start_cleanup_failed setup_error cleanup_error =
     Network (''node gateway setup failed: '' @ TransportError_display setup_error
       @ ''; cleanup failed: '' @ TransportError_display cleanup_error)"

definition enable_or_stop ::
  "string \<Rightarrow> string \<Rightarrow> WireGuardNodeGatewayPolicy \<Rightarrow> ConnectContext
    \<Rightarrow> (LinuxManagedWireGuardNode \<times> world, TransportError fault, unit) rsm" where
  "enable_or_stop i uplink p context =
     bindE (outcome_of (on_gateway (gateway_enable i uplink p context)))
       (\<lambda>enabled.
        case enabled of
          Inl fault \<Rightarrow>
            (case fault of
               Panic \<Rightarrow> throw Panic
             | Error setup_error \<Rightarrow>
                 bindE (outcome_of (on_node node_stop)) (\<lambda>stopped.
                 case stopped of
                   Inl cleanup_error \<Rightarrow> throw (Error (start_cleanup_failed setup_error cleanup_error))
                 | Inr _ \<Rightarrow> throw (Error setup_error)))
        | Inr _ \<Rightarrow> modify_self (managed_active_update (\<lambda>_. True)))"

definition managed_start ::
  "WireGuardNodeConfig \<Rightarrow> WireGuardNodeGatewayPolicy \<Rightarrow> ConnectContext
    \<Rightarrow> (LinuxManagedWireGuardNode \<times> world, TransportError fault, unit) rsm" where
  "managed_start config p context =
     bindE get_self (\<lambda>self.
     seqE (reject_if (managed_active self) (Error AlreadyConnected))
     (seqE (checked_result (GatewayPolicy_validate_for_node p config))
     (seqE (map_err Error (on_node (node_start (managed_interface self) config context)))
     (enable_or_stop (managed_interface self) (uplink_interface self) p context))))"

definition managed_add_peer ::
  "WireGuardNodePeer \<Rightarrow> (LinuxManagedWireGuardNode \<times> world, TransportError, unit) rsm" where
  "managed_add_peer peer =
     bindE get_self (\<lambda>self. seqE (reject_if (\<not> managed_active self) NotConnected) (on_node (node_add_peer peer)))"

definition managed_remove_peer ::
  "u8 list \<Rightarrow> (LinuxManagedWireGuardNode \<times> world, TransportError, unit) rsm" where
  "managed_remove_peer k =
     bindE get_self (\<lambda>self. seqE (reject_if (\<not> managed_active self) NotConnected) (on_node (node_remove_peer k)))"

definition managed_health :: "(LinuxManagedWireGuardNode \<times> world, TransportError, WireGuardNodeHealth) rsm" where
  "managed_health = on_node node_health"

definition managed_stop :: "(LinuxManagedWireGuardNode \<times> world, TransportError, unit) rsm" where
  "managed_stop =
     bindE get_self (\<lambda>self.
     seqE (reject_if (\<not> managed_active self) NotConnected)
     (seqE (on_gateway gateway_disable)
     (seqE (on_node node_stop)
     (modify_self (managed_active_update (\<lambda>_. False))))))"

lemma wp_on_node [wp_simps]:
  "wp (on_node m) Q E s =
     wp m (\<lambda>a t. Q a ((fst s)\<lparr>managed_node := fst t\<rparr>, snd t)) (\<lambda>e t. E e ((fst s)\<lparr>managed_node := fst t\<rparr>, snd t))
       (managed_node (fst s), snd s)"
  by (simp add: on_node_def wp_on_field)

lemma wp_on_gateway [wp_simps]:
  "wp (on_gateway m) Q E s =
     wp m (\<lambda>a t. Q a ((fst s)\<lparr>managed_gateway := fst t\<rparr>, snd t)) (\<lambda>e t. E e ((fst s)\<lparr>managed_gateway := fst t\<rparr>, snd t))
       (managed_gateway (fst s), snd s)"
  by (simp add: on_gateway_def wp_on_field)

section \<open>Links of the kernel\<close>

text \<open>The links the successful commands of a runner have created and not deleted.\<close>

definition link_effect :: "runner \<Rightarrow> event \<Rightarrow> string set \<Rightarrow> string set" where
  "link_effect r ev ls =
     (case ev of
        CommandRun r' c accepted \<Rightarrow>
          if accepted \<and> r' = r \<and> 3 < length (arguments c) then
            (if take 3 (arguments c) = [''link'', ''add'', ''dev''] then insert (arguments c ! 3) ls
             else if take 3 (arguments c) = [''link'', ''delete'', ''dev''] then ls - {arguments c ! 3}
             else ls)
          else ls
      | _ \<Rightarrow> ls)"

definition links_at :: "runner \<Rightarrow> event list \<Rightarrow> string set" where
  "links_at r evs = fold (link_effect r) evs {}"

definition table_at :: "LinuxWireGuardNodeGateway \<Rightarrow> event list \<Rightarrow> string option" where
  "table_at g evs = fold (table_effect g) evs None"

lemma links_at_snoc: "links_at r (evs @ [ev]) = link_effect r ev (links_at r evs)"
  by (simp add: links_at_def)

lemma table_at_snoc: "table_at g (evs @ [ev]) = table_effect g ev (table_at g evs)"
  by (simp add: table_at_def)

lemma forwarding_table_at: "forwarding_table g w = table_at g (trace w)"
  by (simp add: forwarding_table_def table_at_def)

text \<open>Interactions that leave the table alone, and those that leave the links alone.\<close>

definition keeps_links :: "event \<Rightarrow> bool" where
  "keeps_links ev = (\<forall>r ls. link_effect r ev ls = ls)"

definition keeps_table :: "event \<Rightarrow> bool" where
  "keeps_table ev = (\<forall>g T. table_effect g ev T = T)"

lemma keeps_table_tunnel: "tunnel_event ev \<Longrightarrow> keeps_table ev"
  by (cases ev) (auto simp: keeps_table_def table_effect_def)

lemma keeps_links_simps [simp]:
  "keeps_links (CommandOutput r c b)" "keeps_links (CommandInput r c i b)" "keeps_links (ReadCancelled t b)"
  "keeps_links (ReadInstant n)" "keeps_links (ReadUnixTime u)"
  "take 3 args \<noteq> [''link'', ''add'', ''dev''] \<Longrightarrow> take 3 args \<noteq> [''link'', ''delete'', ''dev''] \<Longrightarrow>
     keeps_links (CommandRun r \<lparr>program = p, arguments = args\<rparr> b)"
  by (auto simp: keeps_links_def link_effect_def)

lemma links_at_keep: "\<forall>ev \<in> set evs. keeps_links ev \<Longrightarrow> links_at r (pre @ evs) = links_at r pre"
  by (induction evs rule: rev_induct) (auto simp: keeps_links_def links_at_snoc simp flip: append_assoc)

lemma table_at_keep: "\<forall>ev \<in> set evs. keeps_table ev \<Longrightarrow> table_at g (pre @ evs) = table_at g pre"
  by (induction evs rule: rev_induct) (auto simp: keeps_table_def table_at_snoc simp flip: append_assoc)

text \<open>At every moment of a history, forwarding is in force only if the link exists.\<close>

definition forwarding_covered :: "runner \<Rightarrow> LinuxWireGuardNodeGateway \<Rightarrow> string \<Rightarrow> event list \<Rightarrow> bool" where
  "forwarding_covered r g i evs \<longleftrightarrow> (\<forall>k \<le> length evs. table_at g (take k evs) \<noteq> None \<longrightarrow> i \<in> links_at r (take k evs))"

lemma covered_snoc:
  "forwarding_covered r g i (evs @ [ev]) \<longleftrightarrow>
     forwarding_covered r g i evs \<and> (table_at g (evs @ [ev]) \<noteq> None \<longrightarrow> i \<in> links_at r (evs @ [ev]))"
  by (auto simp: forwarding_covered_def le_Suc_eq)

lemma covered_keep_links:
  assumes "forwarding_covered r g i pre" and "i \<in> links_at r pre" and "\<forall>ev \<in> set evs. keeps_links ev"
  shows "forwarding_covered r g i (pre @ evs)"
  using assms(3)
proof (induction evs rule: rev_induct)
  case Nil
  then show ?case using assms(1) by simp
next
  case (snoc ev evs)
  then have "i \<in> links_at r (pre @ evs @ [ev])" using links_at_keep [of "evs @ [ev]" r pre] assms(2) by simp
  then show ?case using snoc covered_snoc [of r g i "pre @ evs" ev] by simp
qed

lemma covered_keep_table:
  assumes "forwarding_covered r g i pre" and "table_at g pre = None" and "\<forall>ev \<in> set evs. keeps_table ev"
  shows "forwarding_covered r g i (pre @ evs)"
  using assms(3)
proof (induction evs rule: rev_induct)
  case Nil
  then show ?case using assms(1) by simp
next
  case (snoc ev evs)
  then have "table_at g (pre @ evs @ [ev]) = None" using table_at_keep [of "evs @ [ev]" g pre] assms(2) by simp
  then show ?case using snoc covered_snoc [of r g i "pre @ evs" ev] by simp
qed

text \<open>The same for the steps between two worlds.\<close>

lemma extends_links:
  assumes "extends keeps_links w w'"
  shows "links_at r (trace w') = links_at r (trace w)"
  using assms links_at_keep by (auto simp: extends_def)

lemma extends_table:
  assumes "extends tunnel_event w w'"
  shows "table_at g (trace w') = table_at g (trace w)"
  using assms table_at_keep keeps_table_tunnel by (auto simp: extends_def)

lemma extends_covered_links:
  assumes "extends keeps_links w w'" and "forwarding_covered r g i (trace w)" and "i \<in> links_at r (trace w)"
  shows "forwarding_covered r g i (trace w')"
  using assms covered_keep_links by (auto simp: extends_def)

lemma extends_covered_table:
  assumes "extends tunnel_event w w'" and "forwarding_covered r g i (trace w)" and "table_at g (trace w) = None"
  shows "forwarding_covered r g i (trace w')"
  using assms covered_keep_table keeps_table_tunnel by (auto simp: extends_def)

section \<open>What the parts do\<close>

lemma node_handshakes_frame [frame_intros]: "(\<And>t. P (ReadUnixTime t)) \<Longrightarrow> onlyW P (node_handshakes output)"
  unfolding node_handshakes_def by (intro frame_intros; simp)

lemma node_ops_tunnel:
  "only tunnel_event (node_start i config context)" "only tunnel_event node_stop"
  "only tunnel_event (node_add_peer peer)" "only tunnel_event (node_remove_peer k)" "only tunnel_event node_health"
  unfolding node_start_def node_stop_def node_add_peer_def node_remove_peer_def node_health_def Let_def
    node_command_def node_delete_interface_def configure_node_def unavailable_node_def
  by (intro frame_intros; simp)+

lemma node_ops_links:
  "only keeps_links (node_add_peer peer)" "only keeps_links (node_remove_peer k)" "only keeps_links node_health"
  unfolding node_add_peer_def node_remove_peer_def node_health_def Let_def node_command_def unavailable_node_def
  by (intro frame_intros; simp split: option.split)+

lemma gateway_ops_links:
  "only keeps_links (gateway_enable wg uplink p context)" "only keeps_links gateway_disable"
  unfolding gateway_enable_def gateway_disable_def require_forwarding_def
  by (intro frame_intros; simp)+

text \<open>
  A started node has its link.  A start that fails leaves no link behind that was not there
  before, unless deleting the new one failed, which its error says.
\<close>

lemma wp_link_commands:
  assumes "\<And>w'. links_at (node_runner self) (trace w') = L \<Longrightarrow> Q () w'"
    and "\<And>e w'. links_at (node_runner self) (trace w') = links_at (node_runner self) (trace w) \<Longrightarrow> E e w'"
  shows "insert i (links_at (node_runner self) (trace w)) = L \<Longrightarrow>
      wp (node_command self p [''link'', ''add'', ''dev'', i, ''type'', ''wireguard'']) Q E w"
    and "links_at (node_runner self) (trace w) - {i} = L \<Longrightarrow> wp (node_delete_interface self i) Q E w"
  using assms
  by (auto simp: node_command_def node_delete_interface_def wp_simps links_at_snoc link_effect_def split: sum.splits)

lemma configure_node_links: "onlyW keeps_links (configure_node self i config context)"
  unfolding configure_node_def node_command_def
  by (intro frame_intros; simp)+

lemma wp_links_kept:
  assumes "onlyW keeps_links m" and "links_at r (trace w) = L"
  shows "always m (\<lambda>w'. links_at r (trace w') = L) w"
  using assms unfolding onlyW_def by (auto intro: wp_mono simp: extends_links)

lemma node_start_links:
  "wp (node_start i config context)
     (\<lambda>_ t. fst t = (fst s)\<lparr>node_interface := Some i\<rparr> \<and> node_interface (fst s) = None \<and>
        links_at (node_runner (fst s)) (trace (snd t)) = insert i (links_at (node_runner (fst s)) (trace (snd s))))
     (\<lambda>e t. fst t = fst s \<and>
        (links_at (node_runner (fst s)) (trace (snd t)) \<subseteq> links_at (node_runner (fst s)) (trace (snd s)) \<or>
         links_at (node_runner (fst s)) (trace (snd t)) = insert i (links_at (node_runner (fst s)) (trace (snd s))) \<and>
         (\<exists>setup_error cleanup_error. e = node_cleanup_failed setup_error cleanup_error))) s"
proof -
  obtain n w where s: "s = (n, w)" by fastforce
  let ?L = "links_at (node_runner n) (trace w)"
  define left where "left e w' \<longleftrightarrow> links_at (node_runner n) (trace w') \<subseteq> ?L \<or>
    links_at (node_runner n) (trace w') = insert i ?L \<and>
    (\<exists>setup_error cleanup_error. e = node_cleanup_failed setup_error cleanup_error)" for e and w' :: world
  have same: "left e w'" if "links_at (node_runner n) (trace w') = ?L" for e w' using that by (simp add: left_def)
  have checked: "wp (check context) (\<lambda>_ w'. links_at (node_runner n) (trace w') = ?L) left w"
  proof -
    have "onlyW keeps_links (check context)" by (intro frame_intros; simp)
    from wp_links_kept [OF this refl] show ?thesis by (rule wp_mono) (auto intro: same)
  qed
  have added: "wp (node_command n p [''link'', ''add'', ''dev'', i, ''type'', ''wireguard''])
      (\<lambda>_ w'. links_at (node_runner n) (trace w') = insert i ?L) left w'"
    if "links_at (node_runner n) (trace w') = ?L" for p w'
    by (rule wp_link_commands(1) [where L = "insert i ?L"]) (auto simp: that intro: same)
  have deleted: "wp (node_delete_interface n i) (\<lambda>_. left e) (\<lambda>f. left (node_cleanup_failed e f)) w'"
    if "links_at (node_runner n) (trace w') = insert i ?L" for e w'
    by (rule wp_link_commands(2) [OF _ _ refl]) (auto simp: that left_def)
  have configured: "always (configure_node n i config context) (\<lambda>w'. links_at (node_runner n) (trace w') = insert i ?L) w'"
    if "links_at (node_runner n) (trace w') = insert i ?L" for w'
    by (rule wp_links_kept [OF configure_node_links that])
  have "wp (node_start i config context)
      (\<lambda>_ t. fst t = n\<lparr>node_interface := Some i\<rparr> \<and> node_interface n = None \<and>
         links_at (node_runner n) (trace (snd t)) = insert i ?L) (\<lambda>e t. fst t = n \<and> left e (snd t)) (n, w)"
    unfolding node_start_def wp_simps
    by (auto simp: wp_simps same intro!: wp_mono [OF checked] wp_mono [OF added] wp_mono [OF configured] wp_mono [OF deleted]
        split: sum.split)
  then show ?thesis unfolding s left_def by simp
qed

lemma node_stop_effect:
  "wp node_stop
     (\<lambda>_ t. node_interface (fst s) \<noteq> None \<and>
        fst t = (fst s)\<lparr>node_interface := None, peers := {}, assigned_routes := Map.empty\<rparr> \<and>
        (\<forall>r. links_at r (trace (snd t)) =
           links_at r (trace (snd s)) - (if r = node_runner (fst s) then set_option (node_interface (fst s)) else {})))
     (\<lambda>_ t. fst t = fst s \<and> (\<forall>r. links_at r (trace (snd t)) = links_at r (trace (snd s)))) s"
  unfolding node_stop_def wp_simps node_delete_interface_def node_command_def
  by (auto simp: wp_simps links_at_snoc link_effect_def split: option.split sum.split)

lemma node_health_effect:
  "wp node_health (\<lambda>_ t. \<exists>f. fst t = (fst s)\<lparr>node_health_failures := f\<rparr>) (\<lambda>_ _. False) s"
proof -
  have same: "\<exists>f. n = n\<lparr>node_health_failures := f\<rparr>" for n :: LinuxWireGuardNode
    by (intro exI [of _ "node_health_failures n"]) simp
  show ?thesis
    unfolding node_health_def wp_simps node_handshakes_def Let_def
    by (auto simp: wp_simps Let_def same split: option.split sum.split prod.split)
qed

text \<open>Effects and frames together.\<close>

lemma wp_only:
  assumes "wp m Q E s" and "only P m"
  shows "wp m (\<lambda>a t. Q a t \<and> extends P (snd s) (snd t)) (\<lambda>e t. E e t \<and> extends P (snd s) (snd t)) s"
  using wp_conj [OF assms(1), of "\<lambda>_ t. extends P (snd s) (snd t)" "\<lambda>_ t. extends P (snd s) (snd t)"] assms(2)
  unfolding only_def by blast

lemmas node_start_step = wp_only [OF node_start_links node_ops_tunnel(1)]
lemmas node_stop_step = wp_only [OF node_stop_effect node_ops_tunnel(2)]
lemmas node_add_step = wp_only [OF add_peer_effect node_ops_links(1)]
lemmas node_remove_step = wp_only [OF remove_peer_effect node_ops_links(2)]
lemmas node_health_step = wp_only [OF node_health_effect node_ops_links(3)]
lemmas gateway_enable_step = wp_only [OF gateway_enable_law gateway_ops_links(1)]
lemmas gateway_disable_step = wp_only [OF gateway_disable_law gateway_ops_links(2)]

section \<open>The invariant of the composition\<close>

definition managed_inv :: "LinuxManagedWireGuardNode \<times> world \<Rightarrow> bool" where
  "managed_inv s \<longleftrightarrow>
     (let m = fst s; n = managed_node m; g = managed_gateway m; i = managed_interface m; evs = trace (snd s)
      in forwarding_covered (node_runner n) g i evs \<and>
         (gateway_active g \<longleftrightarrow> table_at g evs \<noteq> None) \<and>
         (gateway_active g \<longrightarrow> managed_active m) \<and>
         (managed_active m \<longrightarrow> node_interface n = Some i \<and> i \<in> links_at (node_runner n) evs) \<and>
         (\<forall>rules. table_at g evs = Some rules \<longrightarrow>
            (\<exists>p config. GatewayPolicy_validate_for_node p config = Some ok \<and>
               rules = node_gateway_rules i (uplink_interface m) p)))"

lemma table_at_update [simp]: "table_at (gateway_active_update f g) evs = table_at g evs"
proof -
  have "table_effect (gateway_active_update f g) = table_effect g"
    by (auto simp: table_effect_def nft_file_def fun_eq_iff split: event.split)
  then show ?thesis by (simp add: table_at_def)
qed

lemma covered_update [simp]: "forwarding_covered r (gateway_active_update f g) i evs = forwarding_covered r g i evs"
  by (simp add: forwarding_covered_def)

text \<open>Without forwarding, and with the link, the tunnel side may run and the gateway may act.\<close>

lemma managed_inv_peers:
  assumes "managed_inv (m, w)" and "extends keeps_links w w'" and "extends tunnel_event w w'"
    and "node_runner n = node_runner (managed_node m)" and "node_interface n = node_interface (managed_node m)"
    and "managed_active m \<or> table_at (managed_gateway m) (trace w) = None"
  shows "managed_inv (m\<lparr>managed_node := n\<rparr>, w')"
  using assms(1,6) extends_covered_links [OF assms(2)] extends_covered_table [OF assms(3)]
  by (auto simp: managed_inv_def Let_def assms(4,5) extends_links [OF assms(2)] extends_table [OF assms(3)])

lemma managed_inv_idle:
  assumes "managed_inv (m, w)" and "\<not> managed_active m" and "extends tunnel_event w w'"
    and "node_runner n = node_runner (managed_node m)"
  shows "managed_inv (m\<lparr>managed_node := n\<rparr>, w')"
  using assms(1,2) extends_covered_table [OF assms(3)]
  by (auto simp: managed_inv_def Let_def assms(4) extends_table [OF assms(3)])

lemma managed_inv_idle_same:
  "managed_inv (m, w) \<Longrightarrow> \<not> managed_active m \<Longrightarrow> extends tunnel_event w w' \<Longrightarrow> managed_inv (m, w')"
  using managed_inv_idle [of m w w' "managed_node m"] by simp

lemma managed_idle_table:
  "managed_inv (m, w) \<Longrightarrow> \<not> managed_active m \<Longrightarrow> table_at (managed_gateway m) (trace w) = None"
  by (auto simp: managed_inv_def Let_def)

section \<open>Every operation keeps the invariant\<close>

lemma forwarding_needs_active:
  "managed_inv (m, w) \<Longrightarrow> gateway_synced (managed_gateway m, w)"
  by (simp add: managed_inv_def gateway_synced_def Let_def forwarding_table_at)

lemma managed_inv_enabled:
  assumes "managed_inv (m, w)" and "\<not> managed_active m" and "extends keeps_links w w'"
    and "node_interface (managed_node m) = Some (managed_interface m)"
    and "managed_interface m \<in> links_at (node_runner (managed_node m)) (trace w)"
    and "table_at (managed_gateway m) (trace w') = Some (node_gateway_rules (managed_interface m) (uplink_interface m) p)"
    and "GatewayPolicy_validate_for_node p config = Some ok"
  shows "managed_inv (m\<lparr>managed_gateway := (managed_gateway m)\<lparr>gateway_active := True\<rparr>, managed_active := True\<rparr>, w')"
  using assms(1,2,4-7) extends_covered_links [OF assms(3)]
  by (auto simp: managed_inv_def Let_def extends_links [OF assms(3)])

lemma managed_inv_gateway_failed:
  assumes "managed_inv (m, w)" and "\<not> managed_active m" and "extends keeps_links w w'"
    and "managed_interface m \<in> links_at (node_runner (managed_node m)) (trace w)"
    and "table_at (managed_gateway m) (trace w') = table_at (managed_gateway m) (trace w)"
  shows "managed_inv (m, w')"
  using assms(1,2,4,5) extends_covered_links [OF assms(3)]
  by (auto simp: managed_inv_def Let_def)

text \<open>
  The failures a start may report, and what they leave: in the record, and in the kernel.  A
  link that was not there before the start is the one of the composition, and it is only there
  when the error says that a cleanup failed.
\<close>

definition node_links :: "LinuxManagedWireGuardNode \<Rightarrow> event list \<Rightarrow> string set" where
  "node_links m evs = links_at (node_runner (managed_node m)) evs"

definition cleanup_reported :: "TransportError fault \<Rightarrow> bool" where
  "cleanup_reported e \<longleftrightarrow>
     (\<exists>setup_error cleanup_error. e = Error (start_cleanup_failed setup_error cleanup_error) \<or>
        e = Error (node_cleanup_failed setup_error cleanup_error))"

definition start_failure ::
  "LinuxManagedWireGuardNode \<Rightarrow> event list \<Rightarrow> TransportError fault \<Rightarrow> LinuxManagedWireGuardNode \<Rightarrow> event list \<Rightarrow> bool" where
  "start_failure m evs e m' evs' \<longleftrightarrow>
     (\<exists>n. m' = m\<lparr>managed_node := n\<rparr> \<and>
        (n = managed_node m \<or> node_interface n = None \<or>
         n = (managed_node m)\<lparr>node_interface := Some (managed_interface m)\<rparr> \<and>
         (\<exists>setup_error cleanup_error. e = Error (start_cleanup_failed setup_error cleanup_error)))) \<and>
     (node_links m evs' \<subseteq> node_links m evs \<or>
      node_links m evs' = insert (managed_interface m) (node_links m evs) \<and> cleanup_reported e)"

lemma start_failure_same: "node_links m evs' \<subseteq> node_links m evs \<Longrightarrow> start_failure m evs e m evs'"
  unfolding start_failure_def by (intro conjI exI [of _ "managed_node m"]) simp_all

lemma start_failure_node:
  "node_links m evs' = insert (managed_interface m) (node_links m evs) \<Longrightarrow>
     start_failure m evs (Error (node_cleanup_failed setup_error cleanup_error)) m evs'"
  unfolding start_failure_def cleanup_reported_def by (intro conjI exI [of _ "managed_node m"]) auto

lemma wp_case_fault [wp_simps]:
  "wp (case f of Panic \<Rightarrow> m | Error e \<Rightarrow> g e) Q E s = (case f of Panic \<Rightarrow> wp m Q E s | Error e \<Rightarrow> wp (g e) Q E s)"
  by (simp split: fault.splits)

lemma enable_or_stop_law:
  assumes "managed_inv (m, w)" and "\<not> managed_active m"
    and "node_interface (managed_node m) = Some (managed_interface m)"
    and "managed_interface m \<in> links_at (node_runner (managed_node m)) (trace w)"
    and "GatewayPolicy_validate_for_node p config = Some ok"
  shows "wp (enable_or_stop (managed_interface m) (uplink_interface m) p context)
    (\<lambda>_ t. managed_inv t \<and> managed_active (fst t) \<and>
       table_at (managed_gateway (fst t)) (trace (snd t)) =
         Some (node_gateway_rules (managed_interface m) (uplink_interface m) p) \<and>
       node_links m (trace (snd t)) = node_links m (trace w))
    (\<lambda>e t. e \<noteq> Panic \<and> managed_inv t \<and>
       table_at (managed_gateway (fst t)) (trace (snd t)) = None \<and>
       (\<exists>n. fst t = m\<lparr>managed_node := n\<rparr> \<and>
          (node_interface n = None \<and> node_links m (trace (snd t)) = node_links m (trace w) - {managed_interface m} \<or>
           n = managed_node m \<and> node_links m (trace (snd t)) = node_links m (trace w) \<and>
           (\<exists>setup_error cleanup_error. e = Error (start_cleanup_failed setup_error cleanup_error))))) (m, w)"
    (is "wp _ ?Q ?E _")
proof -
  have idle: "table_at (managed_gateway m) (trace w) = None"
    using managed_idle_table assms(1,2) by blast
  have stop: "wp node_stop (\<lambda>_ t. ?E (Error e) (m\<lparr>managed_node := fst t\<rparr>, snd t))
      (\<lambda>f t. ?E (Error (start_cleanup_failed e f)) (m\<lparr>managed_node := fst t\<rparr>, snd t)) (managed_node m, w')"
    if inv: "managed_inv (m, w')" and links: "node_links m (trace w') = node_links m (trace w)" for e w'
    using links assms(3) managed_inv_idle [OF inv assms(2)] managed_inv_idle_same [OF inv assms(2)] managed_idle_table [OF inv assms(2)]
    by (auto simp: extends_table node_links_def intro!: wp_mono [OF node_stop_step])
      (auto intro!: exI [of _ "managed_node m"])
  show ?thesis
    unfolding enable_or_stop_def wp_simps
    using managed_inv_enabled [OF assms(1,2) _ assms(3,4) _ assms(5)]
      managed_inv_gateway_failed [OF assms(1,2) _ assms(4)] stop
    by (auto simp: wp_simps forwarding_table_at idle node_links_def extends_links
        intro!: wp_mono [OF gateway_enable_step [OF forwarding_needs_active [OF assms(1)]]]
        split: fault.split)
qed

lemma managed_start_law:
  assumes "managed_inv (m, w)"
  shows "wp (managed_start config p context)
    (\<lambda>_ t. managed_inv t \<and> \<not> managed_active m \<and> managed_active (fst t) \<and> GatewayPolicy_validate_for_node p config = Some ok \<and>
       table_at (managed_gateway (fst t)) (trace (snd t)) =
         Some (node_gateway_rules (managed_interface m) (uplink_interface m) p) \<and>
       node_links m (trace (snd t)) = insert (managed_interface m) (node_links m (trace w)))
    (\<lambda>e t. e \<noteq> Panic \<and> managed_inv t \<and> start_failure m (trace w) e (fst t) (trace (snd t)) \<and>
       (managed_active m \<or> table_at (managed_gateway (fst t)) (trace (snd t)) = None)) (m, w)"
proof (cases "managed_active m")
  case True
  then show ?thesis using assms start_failure_same by (simp add: managed_start_def wp_simps)
next
  case False
  obtain q where q: "GatewayPolicy_validate_for_node p config = Some q"
    using GatewayPolicy_validate_for_node_total by blast
  have idle: "table_at (managed_gateway m) (trace w) = None"
    using managed_idle_table assms False by blast
  let ?up = "m\<lparr>managed_node := (managed_node m)\<lparr>node_interface := Some (managed_interface m)\<rparr>\<rparr>"
  let ?Q = "\<lambda>t. managed_inv t \<and> managed_active (fst t) \<and>
    table_at (managed_gateway (fst t)) (trace (snd t)) =
      Some (node_gateway_rules (managed_interface m) (uplink_interface m) p) \<and>
    node_links m (trace (snd t)) = insert (managed_interface m) (node_links m (trace w))"
  let ?E = "\<lambda>e t. e \<noteq> Panic \<and> managed_inv t \<and> start_failure m (trace w) e (fst t) (trace (snd t)) \<and>
    table_at (managed_gateway (fst t)) (trace (snd t)) = None"
  have started: "wp (enable_or_stop (managed_interface m) (uplink_interface m) p context) (\<lambda>_. ?Q) ?E (?up, w')"
    if up: "managed_inv (?up, w')" "node_links m (trace w') = insert (managed_interface m) (node_links m (trace w))"
      "GatewayPolicy_validate_for_node p config = Some ok" for w'
  proof -
    have links: "node_links ?up evs = node_links m evs" for evs by (simp add: node_links_def)
    have "managed_interface ?up \<in> links_at (node_runner (managed_node ?up)) (trace w')"
      using up(2) by (simp add: node_links_def)
    from enable_or_stop_law [OF up(1) _ _ this up(3), of "context"]
    have "wp (enable_or_stop (managed_interface ?up) (uplink_interface ?up) p context) (\<lambda>_. ?Q) ?E (?up, w')"
      by (rule wp_mono) (use up(2) False in \<open>auto simp: start_failure_def cleanup_reported_def links\<close>)
    then show ?thesis by simp
  qed
  show ?thesis
    unfolding managed_start_def wp_simps
    using q False assms start_failure_same [of m _ "trace w"] start_failure_node [of m _ "trace w"] idle started
      managed_inv_idle [OF assms False] managed_inv_idle_same [OF assms False]
    by (auto simp: extends_table is_ok_unit_iff node_links_def intro!: wp_mono [OF node_start_step] split: sum.split
        elim!: wp_mono)
qed

lemma managed_peers_law:
  assumes "managed_inv s"
  shows "always (managed_add_peer peer) managed_inv s" "always (managed_remove_peer k) managed_inv s"
proof -
  obtain m w where s: "s = (m, w)" by fastforce
  have same: "managed_inv (m, w')" if "managed_active m" "extends keeps_links w w'" "extends tunnel_event w w'" for w'
    using managed_inv_peers [of m w w' "managed_node m"] assms that s by simp
  note keep = managed_inv_peers [OF assms [unfolded s]] same
  show "always (managed_add_peer peer) managed_inv s"
    unfolding managed_add_peer_def wp_simps s
    by (auto intro!: assms [unfolded s] keep wp_mono [OF wp_only [OF node_add_step node_ops_tunnel(3)]])
  show "always (managed_remove_peer k) managed_inv s"
    unfolding managed_remove_peer_def wp_simps s
    by (auto intro!: assms [unfolded s] keep wp_mono [OF wp_only [OF node_remove_step node_ops_tunnel(4)]])
qed

lemma managed_health_law:
  assumes "managed_inv s"
  shows "wp managed_health (\<lambda>_. managed_inv) (\<lambda>_ _. False) s"
proof -
  obtain m w where s: "s = (m, w)" by fastforce
  have idle: "managed_active m \<or> table_at (managed_gateway m) (trace w) = None"
    using managed_idle_table [OF assms [unfolded s]] by metis
  show ?thesis
    unfolding managed_health_def wp_simps s
    by (auto intro!: managed_inv_peers [OF assms [unfolded s] _ _ _ _ idle]
        wp_mono [OF wp_only [OF node_health_step node_ops_tunnel(5)]])
qed

lemma managed_inv_disabled:
  assumes "managed_inv (m, w)" and "extends keeps_links w w'" and "managed_active m"
    and "table_at (managed_gateway m) (trace w') = None"
  shows "managed_inv (m\<lparr>managed_gateway := (managed_gateway m)\<lparr>gateway_active := False\<rparr>\<rparr>, w')"
  using assms(1,3,4) extends_covered_links [OF assms(2)]
  by (auto simp: managed_inv_def Let_def extends_links [OF assms(2)])

lemma managed_inv_kept:
  assumes "managed_inv (m, w)" and "extends keeps_links w w'" and "managed_active m"
    and "table_at (managed_gateway m) (trace w') = table_at (managed_gateway m) (trace w)"
  shows "managed_inv (m, w')"
  using assms(1,3,4) extends_covered_links [OF assms(2)]
  by (auto simp: managed_inv_def Let_def extends_links [OF assms(2)])

lemma managed_inv_stop_failed:
  assumes "managed_inv (m, w)" and "table_at (managed_gateway m) (trace w) = None" and "extends tunnel_event w w'"
    and "\<forall>r. links_at r (trace w') = links_at r (trace w)"
  shows "managed_inv (m, w')"
  using assms(1,2,4) extends_covered_table [OF assms(3)]
  by (auto simp: managed_inv_def Let_def extends_table [OF assms(3)])

lemma managed_inv_stopped:
  assumes "managed_inv (m, w)" and "table_at (managed_gateway m) (trace w) = None" and "extends tunnel_event w w'"
    and "node_runner n = node_runner (managed_node m)"
  shows "managed_inv (m\<lparr>managed_node := n, managed_active := False\<rparr>, w')"
  using assms(1,2,4) extends_covered_table [OF assms(3)]
  by (auto simp: managed_inv_def Let_def extends_table [OF assms(3)])

lemma managed_stop_law:
  assumes "managed_inv (m, w)"
  shows "wp managed_stop
    (\<lambda>_ t. managed_inv t \<and> \<not> managed_active (fst t) \<and> node_interface (managed_node (fst t)) = None \<and>
       table_at (managed_gateway (fst t)) (trace (snd t)) = None \<and>
       managed_interface m \<notin> links_at (node_runner (managed_node m)) (trace (snd t)))
    (\<lambda>_ t. managed_inv t \<and> managed_node (fst t) = managed_node m \<and> managed_active (fst t) = managed_active m) (m, w)"
    (is "wp _ ?Q ?E _")
proof (cases "managed_active m")
  case False
  then show ?thesis using assms by (simp add: managed_stop_def wp_simps)
next
  case True
  let ?off = "m\<lparr>managed_gateway := (managed_gateway m)\<lparr>gateway_active := False\<rparr>\<rparr>"
  have up: "node_interface (managed_node m) = Some (managed_interface m)"
    using assms True by (simp add: managed_inv_def Let_def)
  have stop: "wp node_stop (\<lambda>_ t. ?Q () (?off\<lparr>managed_node := fst t, managed_active := False\<rparr>, snd t))
      (\<lambda>e t. ?E e (?off\<lparr>managed_node := fst t\<rparr>, snd t)) (managed_node m, w')"
    if off: "managed_inv (?off, w')" "table_at (managed_gateway m) (trace w') = None" for w'
    using managed_inv_stopped [OF off(1)] managed_inv_stop_failed [OF off(1)] off(2) up True
    by (auto simp: extends_table intro!: wp_mono [OF node_stop_step])
  show ?thesis
    unfolding managed_stop_def wp_simps
    using assms True managed_inv_disabled [OF assms _ True] managed_inv_kept [OF assms _ True] stop
    by (auto simp: forwarding_table_at intro!: wp_mono [OF gateway_disable_step [OF forwarding_needs_active [OF assms]]])
qed

section \<open>Histories\<close>

inductive managed_step :: "LinuxManagedWireGuardNode \<times> world \<Rightarrow> LinuxManagedWireGuardNode \<times> world \<Rightarrow> bool" where
  managed_starts: "managed_start config p context s = (r, t) \<Longrightarrow> managed_step s t"
| managed_adds: "managed_add_peer peer s = (q, t) \<Longrightarrow> managed_step s t"
| managed_removes: "managed_remove_peer k s = (q, t) \<Longrightarrow> managed_step s t"
| managed_checks: "managed_health s = (h, t) \<Longrightarrow> managed_step s t"
| managed_stops: "managed_stop s = (q, t) \<Longrightarrow> managed_step s t"
| managed_signal: "managed_step (m, w) (m, cancel c w)"

lemma managed_always:
  assumes "managed_inv s"
  shows "always (managed_start config p context) managed_inv s" "always managed_stop managed_inv s"
    "always managed_health managed_inv s"
proof -
  obtain m w where s: "s = (m, w)" by fastforce
  show "always (managed_start config p context) managed_inv s"
    using managed_start_law [OF assms [unfolded s]] unfolding s by (rule wp_mono) auto
  show "always managed_stop managed_inv s"
    using managed_stop_law [OF assms [unfolded s]] unfolding s by (rule wp_mono) auto
  show "always managed_health managed_inv s"
    using managed_health_law [OF assms] by (rule wp_mono) auto
qed

lemma managed_step_inv:
  assumes "managed_step s t" and "managed_inv s"
  shows "managed_inv t"
  using assms(1)
proof cases
  case (managed_signal m w c)
  then show ?thesis using assms(2) by (simp add: managed_inv_def)
qed (use managed_always [OF assms(2)] managed_peers_law [OF assms(2)] in \<open>blast dest: alwaysD\<close>)+

lemma managed_run_inv: "rtranclp managed_step s t \<Longrightarrow> managed_inv s \<Longrightarrow> managed_inv t"
  by (induction rule: rtranclp_induct) (auto intro: managed_step_inv)

lemma managed_inv_new:
  assumes "LinuxManagedWireGuardNode_new i uplink n g = Inr m" and "\<not> gateway_active g"
    and "\<forall>ev \<in> set (trace w). tunnel_event ev"
  shows "managed_inv (m, w)"
proof -
  have m: "managed_gateway m = g" "\<not> managed_active m"
    using assms(1) by (auto simp: LinuxManagedWireGuardNode_new_def split: if_splits)
  have "\<forall>ev \<in> set (trace w). keeps_table ev"
    using assms(3) keeps_table_tunnel by blast
  then have "table_at g (trace w) = None" "forwarding_covered r g i (trace w)" for r i
    using table_at_keep [of "trace w" g "[]"] covered_keep_table [of r g i "[]" "trace w"]
    by (simp_all add: table_at_def forwarding_covered_def)
  then show ?thesis using m assms(2) by (simp add: managed_inv_def Let_def)
qed

section \<open>An example composition\<close>

definition example_managed :: LinuxManagedWireGuardNode where
  "example_managed =
     \<lparr>managed_interface = ''wg0'', uplink_interface = ''eth0'', managed_node = fresh_server,
      managed_gateway = example_gateway_state, managed_active = False\<rparr>"

lemma example_managed_new:
  "LinuxManagedWireGuardNode_new ''wg0'' ''eth0'' fresh_server example_gateway_state = Inr example_managed"
  by (simp add: LinuxManagedWireGuardNode_new_def example_managed_def valid_interface_def interface_char_def
      is_ascii_alphanumeric_def is_ascii_digit_def)

lemma example_policy_matches: "GatewayPolicy_validate_for_node example_gateway example_node_config = Some ok"
  by (simp add: example_gateway_def example_node_config_def network_eval)

lemma example_managed_inv: "managed_inv (example_managed, forwarding_world)"
  by (rule managed_inv_new [OF example_managed_new])
    (simp_all add: example_gateway_state_def forwarding_world_def)

text \<open>A gateway succeeds where the kernel forwards and \<^verbatim>\<open>nft\<close> accepts its input.\<close>

lemma wp_require_forwarding:
  assumes "os w = os forwarding_world" and "\<And>w'. extends keeps_links w w' \<Longrightarrow> cancelled w' = cancelled w \<Longrightarrow> Q () w'"
  shows "wp (require_forwarding g key) Q E w"
  using assms
  by (simp add: require_forwarding_def wp_simps forwarding_world_def extends_log)

lemma gateway_enable_succeeds:
  assumes "\<not> gateway_active g" and "favourable r server_context w" and "os w = os forwarding_world"
  shows "wp (gateway_enable ''wg0'' ''eth0'' example_gateway server_context) (\<lambda>_ _. True) (\<lambda>_ _. False) (g, w)"
proof -
  let ?I = "\<lambda>w'. os w' = os forwarding_world \<and> cancellation server_context \<notin> cancelled w'"
  have names: "valid_interface ''wg0''" "valid_interface ''eth0''"
    by (simp_all add: valid_interface_def interface_char_def is_ascii_alphanumeric_def is_ascii_digit_def)
  have checked: "wp (check server_context) Q E w'" if "?I w'" "\<And>w''. ?I w'' \<Longrightarrow> Q () w''" for Q E w'
    using that by (simp add: check_def wp_simps Let_def forwarding_world_def server_context_def)
  have keys: "wp (for_each (\<lambda>key. map_err Error (on_world (require_forwarding g key))) ks)
      (\<lambda>_ t. ?I (snd t)) (\<lambda>_ _. False) (g, w')" if "?I w'" for ks w'
    using that
    by (intro wp_for_each_inv)
      (auto simp: wp_simps extends_def intro!: wp_require_forwarding)
  have "?I w" using assms(2,3) by (simp add: favourable_def)
  then show ?thesis
    using assms(1) names unfolding gateway_enable_def wp_simps
    by (auto simp: example_gateway_valid wp_simps forwarding_world_def [symmetric] intro!: checked wp_mono [OF keys])
      (simp add: forwarding_world_def)
qed

lemma example_start:
  "\<exists>m w. managed_start example_node_config example_gateway server_context (example_managed, forwarding_world)
     = (ok, (m, w))"
proof -
  have fav: "favourable (node_runner fresh_server) server_context forwarding_world"
    by (simp add: favourable_def forwarding_world_def server_context_def)
  have "wp (managed_start example_node_config example_gateway server_context) (\<lambda>_ _. True) (\<lambda>_ _. False)
      (example_managed, forwarding_world)"
    unfolding managed_start_def enable_or_stop_def wp_simps
    using wp_only [OF node_start_favourable [OF fav, of "''wg0''" example_node_config] node_ops_tunnel(1)]
    by (auto simp: example_managed_def example_policy_matches server_config fresh_server_def example_gateway_state_def
        wp_simps extends_def elim!: wp_mono
        intro!: wp_mono [OF gateway_enable_succeeds])
  then show ?thesis by (auto simp: wp_def split: prod.splits sum.splits)
qed

section \<open>Properties\<close>

text \<open>
  C13. Take a freshly composed node over a fresh gateway, and any history of starts, peer changes,
  health checks and stops, whatever the commands reply.  At every moment of that history the
  forwarding table was in force only while the tunnel link existed: forwarding starts after the
  link and ends before it.  The table in force is the one of a policy that was validated against
  the node's own configuration, for the interfaces of the composition.
\<close>

theorem forwarding_only_with_link:
  assumes "LinuxManagedWireGuardNode_new i uplink n g = Inr m0" and "\<not> gateway_active g"
    and "\<forall>ev \<in> set (trace w0). tunnel_event ev" and "rtranclp managed_step (m0, w0) (m, w)"
  shows "(\<forall>k \<le> length (trace w). table_at (managed_gateway m) (take k (trace w)) \<noteq> None \<longrightarrow>
       managed_interface m \<in> links_at (node_runner (managed_node m)) (take k (trace w))) \<and>
    (table_at (managed_gateway m) (trace w) \<noteq> None \<longrightarrow>
       managed_active m \<and> node_interface (managed_node m) = Some (managed_interface m) \<and>
       (\<exists>p config. GatewayPolicy_validate_for_node p config = Some ok \<and>
          table_at (managed_gateway m) (trace w) =
            Some (node_gateway_rules (managed_interface m) (uplink_interface m) p)))"
proof -
  have "managed_inv (m, w)"
    using managed_run_inv [OF assms(4)] managed_inv_new [OF assms(1-3)] by simp
  then show ?thesis by (auto simp: managed_inv_def Let_def forwarding_covered_def)
qed

theorem forwarding_only_with_link_witness:
  "\<exists>m w. rtranclp managed_step (example_managed, forwarding_world) (m, w) \<and>
     table_at (managed_gateway m) (trace w) \<noteq> None \<and>
     managed_interface m \<in> links_at (node_runner (managed_node m)) (trace w)"
proof -
  obtain m w where run: "managed_start example_node_config example_gateway server_context
      (example_managed, forwarding_world) = (ok, (m, w))"
    using example_start by blast
  have path: "rtranclp managed_step (example_managed, forwarding_world) (m, w)"
    using managed_starts [OF run] by blast
  have "table_at (managed_gateway m) (trace w) \<noteq> None"
    using wp_OkD [OF managed_start_law [OF example_managed_inv] run] by simp
  moreover have "\<not> gateway_active example_gateway_state" "\<forall>ev \<in> set (trace forwarding_world). tunnel_event ev"
    by (simp_all add: example_gateway_state_def forwarding_world_def)
  note fresh = this
  have "table_at (managed_gateway m) (take (length (trace w)) (trace w)) \<noteq> None \<longrightarrow>
      managed_interface m \<in> links_at (node_runner (managed_node m)) (take (length (trace w)) (trace w))"
    using forwarding_only_with_link [OF example_managed_new fresh path] by blast
  ultimately show ?thesis using path by auto
qed

text \<open>
  C16. A start of a composed node never panics.  If it succeeds, the table of the requested policy
  is in force and the link of the composition exists.  If it fails on an inactive node, no table
  is in force, and in the kernel no link exists that was not there before the start, unless
  deleting the new link failed too: then it is the link of the composition, and the error says
  that the cleanup failed.  The node records the interface only in that case.
\<close>

theorem managed_start_outcome:
  assumes "managed_inv (m, w)" and "\<not> managed_active m" and "node_interface (managed_node m) = None"
    and "managed_start config p context (m, w) = (r, (m', w'))"
  shows "r \<noteq> Inl Panic \<and>
    (if is_ok r
     then managed_active m' \<and> table_at (managed_gateway m') (trace w') =
         Some (node_gateway_rules (managed_interface m) (uplink_interface m) p) \<and>
       links_at (node_runner (managed_node m)) (trace w') =
         insert (managed_interface m) (links_at (node_runner (managed_node m)) (trace w))
     else \<not> managed_active m' \<and> table_at (managed_gateway m') (trace w') = None \<and>
       (node_interface (managed_node m') \<noteq> None \<longrightarrow>
          (\<exists>setup_error cleanup_error. r = Inl (Error (start_cleanup_failed setup_error cleanup_error)))) \<and>
       (links_at (node_runner (managed_node m)) (trace w') \<subseteq> links_at (node_runner (managed_node m)) (trace w) \<or>
        links_at (node_runner (managed_node m)) (trace w') =
          insert (managed_interface m) (links_at (node_runner (managed_node m)) (trace w)) \<and>
        (\<exists>setup_error cleanup_error. r = Inl (Error (start_cleanup_failed setup_error cleanup_error)) \<or>
           r = Inl (Error (node_cleanup_failed setup_error cleanup_error)))))"
  using wp_resultD [OF managed_start_law [OF assms(1)] assms(4)] assms(2,3)
  by (cases r) (auto simp: start_failure_def cleanup_reported_def node_links_def)

text \<open>A platform on which \<^verbatim>\<open>ip\<close> works and \<^verbatim>\<open>wg\<close> does not.\<close>

definition refusing_world :: world where
  "refusing_world = calm_world\<lparr>os := calm_platform\<lparr>run_reply :=
     \<lambda>_ _ c. if take 1 (arguments c) = [''set''] then Inl (Network ''refused'') else ok\<rparr>\<rparr>"

lemma refused_start:
  obtains m w where "managed_start example_node_config example_gateway server_context (example_managed, refusing_world)
    = (Inl (Error (Network ''refused'')), (m, w))"
proof -
  let ?I = "\<lambda>w. os w = os refusing_world \<and> cancellation server_context \<notin> cancelled w"
  have checked: "wp (check server_context) Q E w" if "?I w" "\<And>w'. ?I w' \<Longrightarrow> Q () w'" for Q E w
    using that by (simp add: check_def wp_simps Let_def refusing_world_def server_context_def)
  have "?I refusing_world" by (simp add: refusing_world_def)
  then have "wp (managed_start example_node_config example_gateway server_context) (\<lambda>_ _. False)
      (\<lambda>e _. e = Error (Network ''refused'')) (example_managed, refusing_world)"
    unfolding managed_start_def node_start_def configure_node_def wp_simps
    by (auto simp: example_managed_def example_policy_matches server_config fresh_server_def wp_simps node_command_def
        node_delete_interface_def intro!: checked split: sum.split)
      (simp_all add: refusing_world_def)
  then show ?thesis using that by (auto simp: wp_def split: prod.splits sum.splits)
qed

lemma refusing_managed_inv: "managed_inv (example_managed, refusing_world)"
  by (rule managed_inv_new [OF example_managed_new])
    (simp_all add: example_gateway_state_def refusing_world_def)

theorem managed_start_outcome_witness:
  "(\<exists>r m w. managed_start example_node_config example_gateway server_context (example_managed, forwarding_world)
      = (r, (m, w)) \<and>
    managed_active m \<and> table_at (managed_gateway m) (trace w) = Some (node_gateway_rules ''wg0'' ''eth0'' example_gateway)) \<and>
   (\<exists>e m w. managed_start example_node_config example_gateway server_context (example_managed, refusing_world)
      = (Inl e, (m, w)) \<and> links_at (node_runner fresh_server) (trace w) = {})"
proof
  obtain m w where run: "managed_start example_node_config example_gateway server_context
      (example_managed, forwarding_world) = (ok, (m, w))"
    using example_start by blast
  have "\<not> managed_active example_managed" "node_interface (managed_node example_managed) = None"
    by (simp_all add: example_managed_def fresh_server_def)
  then have "managed_active m" "table_at (managed_gateway m) (trace w) =
      Some (node_gateway_rules (managed_interface example_managed) (uplink_interface example_managed) example_gateway)"
    using managed_start_outcome [OF example_managed_inv _ _ run] by simp_all
  then show "\<exists>r m w. managed_start example_node_config example_gateway server_context (example_managed, forwarding_world)
      = (r, (m, w)) \<and>
    managed_active m \<and> table_at (managed_gateway m) (trace w) = Some (node_gateway_rules ''wg0'' ''eth0'' example_gateway)"
    using run by (auto simp: example_managed_def)
next
  obtain m w where run: "managed_start example_node_config example_gateway server_context
      (example_managed, refusing_world) = (Inl (Error (Network ''refused'')), (m, w))"
    by (rule refused_start)
  have idle: "\<not> managed_active example_managed" "node_interface (managed_node example_managed) = None"
    "managed_node example_managed = fresh_server"
    by (simp_all add: example_managed_def fresh_server_def)
  have "links_at (node_runner fresh_server) (trace w) \<subseteq> links_at (node_runner fresh_server) (trace refusing_world)"
    using managed_start_outcome [OF refusing_managed_inv idle(1,2) run]
    by (simp add: idle(3) start_cleanup_failed_def node_cleanup_failed_def)
  then have "links_at (node_runner fresh_server) (trace w) = {}"
    by (simp add: refusing_world_def links_at_def)
  with run show "\<exists>e m w. managed_start example_node_config example_gateway server_context (example_managed, refusing_world)
      = (Inl e, (m, w)) \<and> links_at (node_runner fresh_server) (trace w) = {}" by blast
qed

text \<open>
  C18. A stop that removes forwarding but fails to delete the link leaves a composition that can
  neither be stopped nor started any more: every later stop and start is rejected at once,
  without a command, although the link and its peers are still there.
\<close>

theorem managed_stop_stuck:
  assumes "managed_inv (m, w)" and "managed_stop (m, w) = (Inl e, (m', w'))" and "managed_active m"
    and "\<not> gateway_active (managed_gateway m')"
  shows "managed_stop (m', v) = (Inl NotConnected, (m', v)) \<and>
    managed_start config p context (m', v) = (Inl (Error AlreadyConnected), (m', v)) \<and>
    managed_node m' = managed_node m \<and> node_interface (managed_node m') = Some (managed_interface m') \<and>
    managed_interface m' \<in> links_at (node_runner (managed_node m')) (trace w')"
proof -
  have left: "managed_inv (m', w')" "managed_node m' = managed_node m" "managed_active m'"
    using wp_ErrD [OF managed_stop_law [OF assms(1)] assms(2)] assms(3) by auto
  then show ?thesis
    using assms(4)
    by (simp add: managed_stop_def managed_start_def on_gateway_def on_field_def gateway_disable_def bindE_def seqE_def
        get_self_def reject_if_def throw_def ret_def managed_inv_def Let_def)
qed

text \<open>A running composition on a platform that refuses to delete links.\<close>

definition running_managed :: LinuxManagedWireGuardNode where
  "running_managed =
     example_managed\<lparr>managed_node := fresh_server\<lparr>node_interface := Some ''wg0''\<rparr>,
       managed_gateway := example_gateway_state\<lparr>gateway_active := True\<rparr>, managed_active := True\<rparr>"

definition busy_link_world :: world where
  "busy_link_world =
     \<lparr>trace = [CommandRun 3 \<lparr>program = ''/sbin/ip'', arguments = [''link'', ''add'', ''dev'', ''wg0'', ''type'', ''wireguard'']\<rparr> True,
        CommandInput 4 (nft_file example_gateway_state) (node_gateway_rules ''wg0'' ''eth0'' example_gateway) True],
      cancelled = {}, os = calm_platform\<lparr>run_reply := \<lambda>_ _ _. Inl (Network ''device busy'')\<rparr>\<rparr>"

lemma running_managed_inv: "managed_inv (running_managed, busy_link_world)"
proof -
  let ?up = "CommandRun 3 \<lparr>program = ''/sbin/ip'', arguments = [''link'', ''add'', ''dev'', ''wg0'', ''type'', ''wireguard'']\<rparr> True"
  let ?on = "CommandInput 4 (nft_file example_gateway_state) (node_gateway_rules ''wg0'' ''eth0'' example_gateway) True"
  let ?g = "example_gateway_state"
  have links: "links_at 3 [?up] = {''wg0''}" "links_at 3 [?up, ?on] = {''wg0''}"
    by (simp_all add: links_at_def link_effect_def)
  have runner: "gateway_runner ?g = 4" by (simp add: example_gateway_state_def)
  have table: "table_at ?g [] = None" "table_at ?g [?up] = None"
    "table_at ?g [?up, ?on] = Some (node_gateway_rules ''wg0'' ''eth0'' example_gateway)"
    by (simp_all add: table_at_def table_effect_def rules_not_delete runner)
  have "forwarding_covered 3 ?g ''wg0'' []" using table by (simp add: forwarding_covered_def)
  then have covered: "forwarding_covered 3 ?g ''wg0'' [?up, ?on]"
    using covered_snoc [of 3 ?g "''wg0''" "[]" ?up] covered_snoc [of 3 ?g "''wg0''" "[?up]" ?on] links table by simp
  have node: "node_runner fresh_server = 3" by (simp add: fresh_server_def)
  show ?thesis
    using covered table links example_policy_matches
    by (auto simp: managed_inv_def Let_def running_managed_def busy_link_world_def example_managed_def node)
qed

lemma running_managed_stop:
  "managed_stop (running_managed, busy_link_world) =
     (Inl (Network ''device busy''),
      (running_managed\<lparr>managed_gateway := example_gateway_state\<rparr>, snd (snd (managed_stop (running_managed, busy_link_world)))))"
  by (simp add: managed_stop_def running_managed_def example_managed_def fresh_server_def busy_link_world_def
      example_gateway_state_def on_gateway_def on_node_def on_field_def gateway_disable_def node_stop_def
      node_delete_interface_def node_command_def run_command_def input_command_def on_world_def modify_self_def
      bindE_def seqE_def get_self_def reject_if_def throw_def ret_def Let_def)

theorem managed_stop_stuck_witness:
  "\<exists>m w. managed_active m \<and> managed_stop (m, w) = (Inl NotConnected, (m, w)) \<and>
     managed_interface m \<in> links_at (node_runner (managed_node m)) (trace w)"
proof -
  define w where "w = snd (snd (managed_stop (running_managed, busy_link_world)))"
  define m where "m = running_managed\<lparr>managed_gateway := example_gateway_state\<rparr>"
  have run: "managed_stop (running_managed, busy_link_world) = (Inl (Network ''device busy''), (m, w))"
    using running_managed_stop by (simp add: w_def m_def)
  have "managed_active running_managed" "\<not> gateway_active (managed_gateway m)" "managed_active m"
    by (simp_all add: running_managed_def m_def example_gateway_state_def)
  then show ?thesis using managed_stop_stuck [OF running_managed_inv run] by blast
qed

end
