(* ===== verification/KillSwitch.thy ===== *)
theory KillSwitch
  imports Transport
begin

text \<open>
  \<^verbatim>\<open>core/killswitch/src/lib.rs\<close>, first part: traffic policies and the kill-switch state
  machine.
\<close>

section \<open>The state machine\<close>

datatype TrafficPolicy = Disabled | BlockNonTunnel | TunnelOnly string

record KillSwitch =
  always_on :: bool
  policy :: TrafficPolicy

definition KillSwitch_new :: "bool \<Rightarrow> KillSwitch" where
  "KillSwitch_new on = \<lparr>always_on = on, policy = (if on then BlockNonTunnel else Disabled)\<rparr>"

definition KillSwitch_enable :: "KillSwitch \<Rightarrow> KillSwitch" where
  "KillSwitch_enable k = k\<lparr>policy := BlockNonTunnel\<rparr>"

definition KillSwitch_disable :: "KillSwitch \<Rightarrow> KillSwitchError + KillSwitch" where
  "KillSwitch_disable k = (if always_on k then Inl AlwaysOn else Inr (k\<lparr>policy := Disabled\<rparr>))"

definition tunnel_char :: "char \<Rightarrow> bool" where
  "tunnel_char c \<longleftrightarrow> is_ascii_alphanumeric c \<or> c = CHR ''-'' \<or> c = CHR ''_'' \<or> c = CHR ''.''"

definition valid_tunnel_interface :: "string \<Rightarrow> bool" where
  "valid_tunnel_interface i \<longleftrightarrow> i \<noteq> [] \<and> length i \<le> 63 \<and> list_all tunnel_char i"

definition tunnel_established :: "KillSwitch \<Rightarrow> string \<Rightarrow> KillSwitchError + KillSwitch" where
  "tunnel_established k i =
     (if policy k = Disabled then Inl NotEnabled
      else if \<not> valid_tunnel_interface i then Inl InvalidTunnelInterface
      else Inr (k\<lparr>policy := TunnelOnly i\<rparr>))"

definition tunnel_lost :: "KillSwitch \<Rightarrow> KillSwitch" where
  "tunnel_lost k = (if policy k \<noteq> Disabled then k\<lparr>policy := BlockNonTunnel\<rparr> else k)"

section \<open>Transitions\<close>

inductive ks_step :: "KillSwitch \<Rightarrow> KillSwitch \<Rightarrow> bool" where
  enable: "ks_step k (KillSwitch_enable k)"
| disable: "KillSwitch_disable k = Inr k' \<Longrightarrow> ks_step k k'"
| established: "tunnel_established k i = Inr k' \<Longrightarrow> ks_step k k'"
| lost: "ks_step k (tunnel_lost k)"

inductive_cases ks_stepE: "ks_step k k'"

text \<open>The states a sequence of transitions can reach from a new switch.\<close>

inductive ks_reachable :: "bool \<Rightarrow> KillSwitch \<Rightarrow> bool" for on where
  init: "ks_reachable on (KillSwitch_new on)"
| step: "ks_reachable on k \<Longrightarrow> ks_step k k' \<Longrightarrow> ks_reachable on k'"

lemmas ks_defs = KillSwitch_new_def KillSwitch_enable_def KillSwitch_disable_def
  tunnel_established_def tunnel_lost_def

lemma ks_policy_simps [simp]:
  "policy (KillSwitch_enable k) = BlockNonTunnel" "always_on (KillSwitch_enable k) = always_on k"
  "always_on (tunnel_lost k) = always_on k"
  "policy (tunnel_lost k) = (if policy k = Disabled then Disabled else BlockNonTunnel)"
  by (simp_all add: ks_defs)

lemma ks_reachable_inv:
  assumes "ks_reachable on k"
  shows "always_on k = on \<and> (on \<longrightarrow> policy k \<noteq> Disabled)
    \<and> (\<forall>i. policy k = TunnelOnly i \<longrightarrow> valid_tunnel_interface i)"
  using assms
proof (induction rule: ks_reachable.induct)
  case init
  then show ?case by (simp add: ks_defs)
next
  case (step k k')
  then show ?case by (auto elim!: ks_stepE simp: ks_defs split: if_splits)
qed

text \<open>
  C9. The switch is fail-secure: in every reachable state an always-on switch keeps filtering and
  every admitted tunnel has a validated name; and in one transition a tunnel is only admitted from
  an armed state, never out of the disabled one.
\<close>

theorem kill_switch_fail_secure:
  assumes "ks_reachable on k"
  shows "(on \<longrightarrow> policy k \<noteq> Disabled) \<and>
    (\<forall>i. policy k = TunnelOnly i \<longrightarrow> valid_tunnel_interface i) \<and>
    (\<forall>k' i. ks_step k k' \<and> policy k' = TunnelOnly i \<longrightarrow> policy k \<noteq> Disabled)"
  using ks_reachable_inv [OF assms] by (auto elim!: ks_stepE simp: ks_defs split: if_splits)

lemma always_on_reaches_tunnel:
  "ks_reachable True \<lparr>always_on = True, policy = TunnelOnly ''cyberia0''\<rparr>"
proof (rule ks_reachable.step [OF ks_reachable.init])
  show "ks_step (KillSwitch_new True) \<lparr>always_on = True, policy = TunnelOnly ''cyberia0''\<rparr>"
    by (rule ks_step.established [of _ "''cyberia0''"])
      (simp add: ks_defs valid_tunnel_interface_def tunnel_char_def is_ascii_alphanumeric_def
        is_ascii_digit_def)
qed

theorem kill_switch_fail_secure_witness:
  "ks_reachable True \<lparr>always_on = True, policy = TunnelOnly ''cyberia0''\<rparr> \<and> valid_tunnel_interface ''cyberia0''"
  using always_on_reaches_tunnel kill_switch_fail_secure [OF always_on_reaches_tunnel] by simp

end
