(* ===== verification/Controller.thy ===== *)
theory Controller
  imports KillSwitch
begin

text \<open>
  \<^verbatim>\<open>core/killswitch/src/lib.rs\<close>, second part: the connection controller, which couples
  any transport with any firewall.  The traits are records of methods; what the controller relies
  on is stated by the locales \<open>firewall_contract\<close> and \<open>transport_contract\<close>.
\<close>

section \<open>The traits\<close>

record 't Transport =
  transport_connect :: "TransportConfig \<Rightarrow> ConnectContext \<Rightarrow> ('t \<times> world, TransportError, Session) rsm"
  transport_disconnect :: "('t \<times> world, TransportError, unit) rsm"
  transport_health :: "('t \<times> world, TransportError, TransportHealth) rsm"

record 'f Firewall =
  firewall_apply :: "TrafficPolicy \<Rightarrow> ('f \<times> world, FirewallError, unit) rsm"

text \<open>The in-memory firewall of the domain tests accepts every policy and does nothing.\<close>

definition memory_firewall :: "unit Firewall" where
  "memory_firewall = \<lparr>firewall_apply = \<lambda>_. ret ()\<rparr>"

section \<open>The controller\<close>

record ('t, 'f) ConnectionController =
  kill_switch :: KillSwitch
  transport :: 't
  firewall :: 'f
  transport_may_be_active :: bool

definition ConnectionController_new ::
  "'f Firewall \<Rightarrow> KillSwitch \<Rightarrow> 't \<Rightarrow> 'f \<Rightarrow> (world, FirewallError, ('t, 'f) ConnectionController) rsm" where
  "ConnectionController_new F k t f w =
     (case firewall_apply F (policy k) (f, w) of
        (Inl e, (_, w')) \<Rightarrow> (Inl e, w')
      | (Inr _, (f', w')) \<Rightarrow>
          (Inr \<lparr>kill_switch = k, transport = t, firewall = f', transport_may_be_active = False\<rparr>, w'))"

abbreviation on_firewall ::
  "('f \<times> world, 'e, 'a) rsm \<Rightarrow> (('t, 'f) ConnectionController \<times> world, 'e, 'a) rsm" where
  "on_firewall \<equiv> on_field firewall (\<lambda>f. firewall_update (\<lambda>_. f))"

abbreviation on_transport ::
  "('t \<times> world, 'e, 'a) rsm \<Rightarrow> (('t, 'f) ConnectionController \<times> world, 'e, 'a) rsm" where
  "on_transport \<equiv> on_field transport (\<lambda>t. transport_update (\<lambda>_. t))"

text \<open>\<^verbatim>\<open>if self.transport.disconnect().is_ok()\<close> of the two abort paths of a connect.\<close>

definition abort_transport ::
  "'t Transport \<Rightarrow> (('t, 'f) ConnectionController \<times> world, 'e, unit) rsm" where
  "abort_transport T =
     bindE (outcome_of (on_transport (transport_disconnect T))) (\<lambda>r.
     if is_ok r then modify_self (transport_may_be_active_update (\<lambda>_. False)) else ret ())"

definition controller_connect ::
  "'t Transport \<Rightarrow> 'f Firewall \<Rightarrow> TransportConfig \<Rightarrow> ConnectContext
    \<Rightarrow> (('t, 'f) ConnectionController \<times> world, ConnectionError, Session) rsm" where
  "controller_connect T F config context =
     bindE get_self (\<lambda>self.
     let blocking = KillSwitch_enable (kill_switch self)
     in seqE (map_err FirewallFailed (on_firewall (firewall_apply F (policy blocking))))
       (seqE (modify_self (kill_switch_update (\<lambda>_. blocking)))
       (seqE (modify_self (transport_may_be_active_update (\<lambda>_. True)))
       (bindE (map_err TransportFailed (on_transport (transport_connect T config context))) (\<lambda>session.
        bindE get_self (\<lambda>self.
        case tunnel_established (kill_switch self) (session_id session) of
          Inl error \<Rightarrow> seqE (abort_transport T) (throw (KillSwitchFailed error))
        | Inr tunnel \<Rightarrow>
            bindE (outcome_of (on_firewall (firewall_apply F (policy tunnel)))) (\<lambda>applied.
            case applied of
              Inl error \<Rightarrow> seqE (abort_transport T) (throw (FirewallFailed error))
            | Inr _ \<Rightarrow> seqE (modify_self (kill_switch_update (\<lambda>_. tunnel))) (ret session))))))))"

definition controller_disconnect ::
  "'t Transport \<Rightarrow> 'f Firewall \<Rightarrow> (('t, 'f) ConnectionController \<times> world, ConnectionError, unit) rsm" where
  "controller_disconnect T F =
     bindE get_self (\<lambda>self.
     let blocking = tunnel_lost (kill_switch self)
     in seqE (map_err FirewallFailed (on_firewall (firewall_apply F (policy blocking))))
       (seqE (modify_self (kill_switch_update (\<lambda>_. blocking)))
       (seqE (map_err TransportFailed (on_transport (transport_disconnect T)))
       (modify_self (transport_may_be_active_update (\<lambda>_. False))))))"

definition controller_disable ::
  "'f Firewall \<Rightarrow> (('t, 'f) ConnectionController \<times> world, ConnectionError, unit) rsm" where
  "controller_disable F =
     bindE get_self (\<lambda>self.
     seqE (reject_if (transport_may_be_active self) (KillSwitchFailed TransportActive))
     (seqE (reject_if (case policy (kill_switch self) of TunnelOnly _ \<Rightarrow> True | _ \<Rightarrow> False) (KillSwitchFailed NotEnabled))
     (case KillSwitch_disable (kill_switch self) of
        Inl e \<Rightarrow> throw (KillSwitchFailed e)
      | Inr disabled \<Rightarrow>
          seqE (map_err FirewallFailed (on_firewall (firewall_apply F (policy disabled))))
          (modify_self (kill_switch_update (\<lambda>_. disabled))))))"

definition controller_health ::
  "'t Transport \<Rightarrow> (('t, 'f) ConnectionController \<times> world, TransportError, TransportHealth) rsm" where
  "controller_health T = on_transport (transport_health T)"

text \<open>No operation changes the mode of the kill switch.\<close>

lemma mode_constant:
  "always (abort_transport T) (\<lambda>u. kill_switch (fst u) = kill_switch (fst s)) s"
  "always (controller_connect T F config context) (\<lambda>u. always_on (kill_switch (fst u)) = always_on (kill_switch (fst s))) s"
  "always (controller_disconnect T F) (\<lambda>u. always_on (kill_switch (fst u)) = always_on (kill_switch (fst s))) s"
  "always (controller_disable F) (\<lambda>u. always_on (kill_switch (fst u)) = always_on (kill_switch (fst s))) s"
  "always (controller_health T) (\<lambda>u. kill_switch (fst u) = kill_switch (fst s)) s"
proof -
  note calls = wp_any [of _ _ "firewall_apply F _"] wp_any [of _ _ "transport_connect T _ _"]
    wp_any [of _ _ "transport_disconnect T"] wp_any [of _ _ "transport_health T"]
  show abort: "always (abort_transport T) (\<lambda>u. kill_switch (fst u) = kill_switch (fst s)) s"
    for s :: "('a, 'b) ConnectionController \<times> world"
    unfolding abort_transport_def wp_simps by (auto intro!: calls simp: wp_simps)
  show "always (controller_connect T F config context)
      (\<lambda>u. always_on (kill_switch (fst u)) = always_on (kill_switch (fst s))) s"
    unfolding controller_connect_def wp_simps Let_def
    by (auto intro!: calls wp_mono [OF abort] simp: wp_simps tunnel_established_def split: sum.split if_splits)
  show "always (controller_disconnect T F)
      (\<lambda>u. always_on (kill_switch (fst u)) = always_on (kill_switch (fst s))) s"
    unfolding controller_disconnect_def wp_simps Let_def by (auto intro!: calls)
  show "always (controller_disable F) (\<lambda>u. always_on (kill_switch (fst u)) = always_on (kill_switch (fst s))) s"
    unfolding controller_disable_def wp_simps
    by (auto intro!: calls simp: KillSwitch_disable_def wp_simps split: sum.split if_splits)
  show "always (controller_health T) (\<lambda>u. kill_switch (fst u) = kill_switch (fst s)) s"
    unfolding controller_health_def wp_simps by (auto intro!: calls)
qed

section \<open>Contracts\<close>

text \<open>
  A firewall makes one complete policy effective or leaves the previous one in force
  (\<open>effective\<close>, read off the history).  The other parts of the program never change it:
  their interactions are the ones of \<open>quiet\<close>, which the firewall's own never are.
\<close>

locale firewall_contract =
  fixes F :: "'f Firewall"
    and finv :: "'f \<Rightarrow> bool"
    and effective :: "event list \<Rightarrow> TrafficPolicy \<Rightarrow> bool"
    and quiet :: "event \<Rightarrow> bool"
  assumes apply_law: "finv (fst s) \<Longrightarrow>
      wp (firewall_apply F p) (\<lambda>_ t. finv (fst t) \<and> effective (trace (snd t)) p)
        (\<lambda>_ t. finv (fst t) \<and> (\<forall>q. effective (trace (snd s)) q \<longrightarrow> effective (trace (snd t)) q)) s"
    and apply_frame: "only (\<lambda>ev. \<not> quiet ev) (firewall_apply F p)"
    and quiet_law: "quiet ev \<Longrightarrow> effective tr p \<Longrightarrow> effective (tr @ [ev]) p"
begin

lemma effective_append: "\<forall>ev \<in> set evs. quiet ev \<Longrightarrow> effective tr p \<Longrightarrow> effective (tr @ evs) p"
proof (induction evs rule: rev_induct)
  case (snoc ev evs)
  then show ?case using quiet_law [of ev "tr @ evs"] by simp
qed simp

lemma effective_extends: "extends quiet w w' \<Longrightarrow> effective (trace w) p \<Longrightarrow> effective (trace w') p"
  by (auto elim!: extendsE intro: effective_append)

end

definition session_named :: "string \<Rightarrow> Session \<Rightarrow> bool" where
  "session_named name session \<longleftrightarrow> session_id session = name"

text \<open>
  A transport is \<open>live\<close> from a successful connect, whose session carries the name of its
  interface, to a successful disconnect.  While it is not
  live, disconnecting and probing it are rejected without touching the platform.
\<close>

locale transport_contract =
  fixes T :: "'t Transport"
    and tinv :: "'t \<Rightarrow> bool"
    and live :: "'t \<Rightarrow> bool"
    and name :: string
    and quiet :: "event \<Rightarrow> bool"
  assumes transport_connect_law: "tinv (fst s) \<Longrightarrow>
      wp (transport_connect T config context)
        (\<lambda>session t. tinv (fst t) \<and> \<not> live (fst s) \<and> live (fst t) \<and> session_named name session)
        (\<lambda>_ t. tinv (fst t) \<and> live (fst t) = live (fst s)) s"
    and transport_disconnect_law: "tinv (fst s) \<Longrightarrow>
      wp (transport_disconnect T) (\<lambda>_ t. tinv (fst t) \<and> \<not> live (fst t))
        (\<lambda>_ t. tinv (fst t) \<and> live (fst t) = live (fst s)) s"
    and transport_health_law: "tinv (fst s) \<Longrightarrow>
      wp (transport_health T) (\<lambda>_ t. tinv (fst t) \<and> live (fst t) = live (fst s)) (\<lambda>_ _. False) s"
    and transport_idle: "\<not> live (fst s) \<Longrightarrow> transport_disconnect T s = (Inl NotConnected, s)"
      "\<not> live (fst s) \<Longrightarrow> snd (snd (transport_health T s)) = snd s"
    and transport_frame: "only quiet (transport_connect T config context)"
      "only quiet (transport_disconnect T)" "only quiet (transport_health T)"

section \<open>The controller's invariant\<close>

text \<open>The commands through which a tunnel is created, changed or observed.\<close>

definition tunnel_command :: "event \<Rightarrow> bool" where
  "tunnel_command ev = (case ev of CommandRun _ _ _ \<Rightarrow> True | CommandOutput _ _ _ \<Rightarrow> True | _ \<Rightarrow> False)"

text \<open>Each of them ran at a moment when some filtering policy was in force.\<close>

definition guarded :: "(event list \<Rightarrow> TrafficPolicy \<Rightarrow> bool) \<Rightarrow> event list \<Rightarrow> bool" where
  "guarded effective tr \<longleftrightarrow>
     (\<forall>n < length tr. tunnel_command (tr ! n) \<longrightarrow> (\<exists>p. p \<noteq> Disabled \<and> effective (take n tr) p))"

definition controller_inv ::
  "('f \<Rightarrow> bool) \<Rightarrow> (event list \<Rightarrow> TrafficPolicy \<Rightarrow> bool) \<Rightarrow> ('t \<Rightarrow> bool) \<Rightarrow> ('t \<Rightarrow> bool)
    \<Rightarrow> string \<Rightarrow> ('t, 'f) ConnectionController \<times> world \<Rightarrow> bool" where
  "controller_inv finv effective tinv live name s \<longleftrightarrow>
     (let c = fst s; k = kill_switch c
      in finv (firewall c) \<and> tinv (transport c)
       \<and> effective (trace (snd s)) (policy k)
       \<and> (policy k = Disabled \<longrightarrow> \<not> transport_may_be_active c)
       \<and> (\<forall>i. policy k = TunnelOnly i \<longrightarrow> live (transport c) \<and> i = name \<and> valid_tunnel_interface i)
       \<and> (live (transport c) \<longrightarrow> transport_may_be_active c)
       \<and> (always_on k \<longrightarrow> policy k \<noteq> Disabled)
       \<and> guarded effective (trace (snd s)))"

lemma guarded_append:
  assumes "guarded effective tr"
    and "\<And>us ev vs. evs = us @ ev # vs \<Longrightarrow> tunnel_command ev \<Longrightarrow> \<exists>p. p \<noteq> Disabled \<and> effective (tr @ us) p"
  shows "guarded effective (tr @ evs)"
  unfolding guarded_def
proof (intro allI impI)
  fix n
  assume n: "n < length (tr @ evs)" and cmd: "tunnel_command ((tr @ evs) ! n)"
  show "\<exists>p. p \<noteq> Disabled \<and> effective (take n (tr @ evs)) p"
  proof (cases "n < length tr")
    case True
    then show ?thesis using assms(1) cmd by (simp add: guarded_def nth_append)
  next
    case False
    let ?m = "n - length tr"
    have "evs = take ?m evs @ evs ! ?m # drop (Suc ?m) evs"
      using n False by (simp add: id_take_nth_drop)
    then show ?thesis using assms(2) cmd False by (simp add: nth_append not_less)
  qed
qed

locale controller_contract =
  firewall_contract F finv effective quiet + transport_contract T tinv live name quiet
  for F :: "'f Firewall" and finv effective quiet and T :: "'t Transport" and tinv live name +
  assumes command_quiet: "tunnel_command ev \<Longrightarrow> quiet ev"
begin

abbreviation inv :: "('t, 'f) ConnectionController \<times> world \<Rightarrow> bool" where
  "inv \<equiv> controller_inv finv effective tinv live name"

lemma session_namedD: "session_named name session \<Longrightarrow> session_id session = name"
  by (simp add: session_named_def)

abbreviation safe :: "world \<Rightarrow> bool" where
  "safe w \<equiv> guarded effective (trace w)"

lemma safe_quiet:
  assumes "safe w" and "effective (trace w) p" and "p \<noteq> Disabled" and "extends quiet w w'"
  shows "safe w'"
proof -
  obtain evs where evs: "trace w' = trace w @ evs" "\<forall>ev \<in> set evs. quiet ev"
    using assms(4) by (auto elim: extendsE)
  show ?thesis
    unfolding evs(1)
  proof (rule guarded_append [OF assms(1)])
    fix us ev vs
    assume "evs = us @ ev # vs"
    then have "effective (trace w @ us) p" using evs(2) assms(2) by (intro effective_append) auto
    then show "\<exists>p. p \<noteq> Disabled \<and> effective (trace w @ us) p" using assms(3) by blast
  qed
qed

lemma safe_firewall:
  assumes "safe w" and "extends (\<lambda>ev. \<not> quiet ev) w w'"
  shows "safe w'"
proof -
  obtain evs where "trace w' = trace w @ evs" "\<forall>ev \<in> set evs. \<not> quiet ev"
    using assms(2) by (auto elim: extendsE)
  then show ?thesis
    using assms(1) command_quiet by (auto intro!: guarded_append)
qed

lemma apply_full:
  assumes "finv f" and "safe w"
  shows "wp (firewall_apply F p) (\<lambda>_ t. finv (fst t) \<and> effective (trace (snd t)) p \<and> safe (snd t))
    (\<lambda>_ t. finv (fst t) \<and> (\<forall>q. effective (trace w) q \<longrightarrow> effective (trace (snd t)) q) \<and> safe (snd t)) (f, w)"
proof -
  have "always (firewall_apply F p) (\<lambda>t. extends (\<lambda>ev. \<not> quiet ev) w (snd t)) (f, w)"
    using apply_frame [of p] unfolding only_def by (metis snd_conv)
  from wp_conj [OF apply_law this] assms show ?thesis
    by (auto intro: safe_firewall elim!: wp_mono)
qed

lemma connect_full:
  assumes "tinv t" and "safe w" and "effective (trace w) p" and "p \<noteq> Disabled"
  shows "wp (transport_connect T config context)
    (\<lambda>session u. tinv (fst u) \<and> \<not> live t \<and> live (fst u) \<and> session_named name session
       \<and> effective (trace (snd u)) p \<and> safe (snd u))
    (\<lambda>_ u. tinv (fst u) \<and> live (fst u) = live t \<and> effective (trace (snd u)) p \<and> safe (snd u)) (t, w)"
proof -
  have "always (transport_connect T config context) (\<lambda>u. extends quiet w (snd u)) (t, w)"
    using transport_frame(1) [of config "context"] unfolding only_def by (metis snd_conv)
  from wp_conj [OF transport_connect_law this] assms show ?thesis
    by (auto intro: safe_quiet effective_extends elim!: wp_mono)
qed

lemma disconnect_full:
  assumes "tinv t" and "safe w" and "effective (trace w) p" and "live t \<Longrightarrow> p \<noteq> Disabled"
  shows "wp (transport_disconnect T)
    (\<lambda>_ u. tinv (fst u) \<and> \<not> live (fst u) \<and> effective (trace (snd u)) p \<and> safe (snd u))
    (\<lambda>_ u. tinv (fst u) \<and> live (fst u) = live t \<and> effective (trace (snd u)) p \<and> safe (snd u)) (t, w)"
proof (cases "live t")
  case True
  have "always (transport_disconnect T) (\<lambda>u. extends quiet w (snd u)) (t, w)"
    using transport_frame(2) unfolding only_def by (metis snd_conv)
  from wp_conj [OF transport_disconnect_law this] assms True show ?thesis
    by (auto intro: safe_quiet effective_extends elim!: wp_mono)
next
  case False
  then show ?thesis using assms transport_idle(1) [of "(t, w)"] by (simp add: wp_def)
qed

lemma health_full:
  assumes "tinv t" and "safe w" and "effective (trace w) p" and "live t \<Longrightarrow> p \<noteq> Disabled"
  shows "wp (transport_health T)
    (\<lambda>_ u. tinv (fst u) \<and> live (fst u) = live t \<and> effective (trace (snd u)) p \<and> safe (snd u))
    (\<lambda>_ _. False) (t, w)"
proof (cases "live t")
  case True
  have "always (transport_health T) (\<lambda>u. extends quiet w (snd u)) (t, w)"
    using transport_frame(3) unfolding only_def by (metis snd_conv)
  from wp_conj [OF transport_health_law this] assms True show ?thesis
    by (auto intro: safe_quiet effective_extends elim!: wp_mono)
next
  case False
  then have "snd (snd (transport_health T (t, w))) = w" using transport_idle(2) [of "(t, w)"] by simp
  then show ?thesis
    using assms transport_health_law [of "(t, w)"] by (auto simp: wp_def split: prod.splits sum.splits)
qed

text \<open>The two abort paths of a connect: the kill switch stays in the blocking state.\<close>

lemma abort_inv:
  fixes s :: "('t, 'f) ConnectionController \<times> world"
  assumes "inv s" and "policy (kill_switch (fst s)) = BlockNonTunnel"
  shows "wp (abort_transport T) (\<lambda>_ u. inv u \<and> policy (kill_switch (fst u)) = BlockNonTunnel) E s"
  using assms unfolding abort_transport_def wp_simps controller_inv_def Let_def
  by (auto intro!: wp_mono [OF disconnect_full [where p = BlockNonTunnel]] simp: wp_simps)

lemma armed_inv:
  assumes "finv (firewall c)" "tinv (transport c)" "safe w" "transport_may_be_active c"
    "effective (trace w) (policy (kill_switch c))" "policy (kill_switch c) \<noteq> Disabled"
    "\<And>i. policy (kill_switch c) = TunnelOnly i \<Longrightarrow>
       live (transport c) \<and> i = name \<and> valid_tunnel_interface i"
  shows "inv (c, w)"
  using assms by (simp add: controller_inv_def Let_def)

lemma tunnel_established_result:
  "tunnel_established k i = Inr k' \<Longrightarrow>
     valid_tunnel_interface i \<and> policy k' = TunnelOnly i \<and> k' = k\<lparr>policy := TunnelOnly i\<rparr>"
  by (auto simp: tunnel_established_def split: if_splits)

lemma connect_inv:
  assumes "inv s"
  shows "wp (controller_connect T F config context)
    (\<lambda>session u. inv u \<and> \<not> live (transport (fst s)) \<and> live (transport (fst u)) \<and>
       session_named name session \<and> policy (kill_switch (fst u)) = TunnelOnly name)
    (\<lambda>e u. inv u \<and> (live (transport (fst s)) \<longrightarrow> live (transport (fst u))) \<and>
       (policy (kill_switch (fst u)) = BlockNonTunnel \<or>
        kill_switch (fst u) = kill_switch (fst s) \<and> transport (fst u) = transport (fst s) \<and> (\<exists>f. e = FirewallFailed f))) s"
proof -
  have s: "finv (firewall (fst s))" "tinv (transport (fst s))" "safe (snd s)"
    using assms by (auto simp: controller_inv_def Let_def)
  have keep: "inv (fst s\<lparr>firewall := f\<rparr>, w)"
    if "finv f" "\<forall>q. effective (trace (snd s)) q \<longrightarrow> effective (trace w) q" "safe w" for f w
    using assms that by (simp add: controller_inv_def Let_def)
  show ?thesis
    unfolding controller_connect_def wp_simps Let_def
    apply (rule wp_mono [OF apply_full])
    apply (simp_all add: s keep)
    apply (rule wp_mono [OF connect_full [where p = BlockNonTunnel]])
    apply (auto simp: s wp_simps session_namedD dest!: tunnel_established_result intro!: armed_inv
        wp_mono [OF abort_inv] wp_mono [OF apply_full] split: sum.split)
    done
qed

lemma disconnect_inv:
  assumes "inv s"
  shows "wp (controller_disconnect T F)
    (\<lambda>_ u. inv u \<and> \<not> live (transport (fst u)) \<and> \<not> transport_may_be_active (fst u) \<and>
       kill_switch (fst u) = tunnel_lost (kill_switch (fst s)))
    (\<lambda>e u. inv u \<and> live (transport (fst u)) = live (transport (fst s)) \<and>
       (kill_switch (fst u) = kill_switch (fst s) \<or> policy (kill_switch (fst u)) = BlockNonTunnel)) s"
  using assms unfolding controller_disconnect_def wp_simps Let_def controller_inv_def
  by (auto intro!: wp_mono [OF apply_full] wp_mono [OF disconnect_full])

lemma disable_inv:
  fixes s :: "('t, 'f) ConnectionController \<times> world"
  assumes "inv s"
  shows "wp (controller_disable F)
    (\<lambda>_ u. inv u \<and> \<not> live (transport (fst s)) \<and> \<not> always_on (kill_switch (fst s)) \<and>
       transport (fst u) = transport (fst s) \<and> policy (kill_switch (fst u)) = Disabled)
    (\<lambda>e u. inv u \<and> transport (fst u) = transport (fst s) \<and> kill_switch (fst u) = kill_switch (fst s)) s"
  using assms unfolding controller_disable_def wp_simps Let_def controller_inv_def
  by (auto intro!: wp_mono [OF apply_full] simp: KillSwitch_disable_def split: sum.splits if_splits TrafficPolicy.splits)

lemma controller_health_inv:
  fixes s :: "('t, 'f) ConnectionController \<times> world"
  assumes "inv s"
  shows "wp (controller_health T) 
    (\<lambda>_ u. inv u \<and> live (transport (fst u)) = live (transport (fst s)) \<and> kill_switch (fst u) = kill_switch (fst s))
    (\<lambda>_ _. False) s"
  using assms unfolding controller_health_def wp_simps Let_def controller_inv_def
  by (auto intro!: wp_mono [OF health_full])

text \<open>The invariant through steps of the rest of the program.\<close>

lemma inv_extends:
  assumes "inv (c, w)" and "policy (kill_switch c) \<noteq> Disabled" and "extends quiet w w'"
  shows "inv (c, w')"
  using assms safe_quiet [OF _ _ assms(2,3)] effective_extends [OF assms(3)]
  by (simp add: controller_inv_def Let_def)

lemma inv_idle:
  assumes "inv (c, w)" and "extends (\<lambda>ev. quiet ev \<and> \<not> tunnel_command ev) w w'"
  shows "inv (c, w')"
proof -
  obtain evs where evs: "trace w' = trace w @ evs" "\<forall>ev \<in> set evs. quiet ev \<and> \<not> tunnel_command ev"
    using assms(2) by (auto elim: extendsE)
  have "safe w'" unfolding evs(1)
    by (rule guarded_append) (use assms(1) evs(2) in \<open>auto simp: controller_inv_def Let_def\<close>)
  moreover have "extends quiet w w'" using assms(2) by (rule extends_mono) simp
  ultimately show ?thesis
    using assms(1) effective_extends by (simp add: controller_inv_def Let_def)
qed

lemma inv_init:
  assumes "ConnectionController_new F k t f w = (Inr c, w')" and "finv f" and "tinv t" and "\<not> live t"
    and "safe w" and "policy k = BlockNonTunnel"
  shows "inv (c, w') \<and> kill_switch c = k \<and> transport c = t"
proof -
  obtain r f' where run: "firewall_apply F (policy k) (f, w) = (r, (f', w'))" "r = Inr ()"
      "c = \<lparr>kill_switch = k, transport = t, firewall = f', transport_may_be_active = False\<rparr>"
    using assms(1) by (auto simp: ConnectionController_new_def split: prod.splits sum.splits)
  then show ?thesis
    using wp_resultD [OF apply_full [OF assms(2,5)] run(1)] assms by (auto simp: controller_inv_def Let_def)
qed

end

end
