(* ===== verification/Nftables.thy ===== *)
theory Nftables
  imports Controller Linux_Tools
begin

unbundle bit_operations_syntax

text \<open>
  \<^verbatim>\<open>core/killswitch/src/linux.rs\<close>: the nftables policy renderer, the backend over an
  injected runner and the system runner.  The ruleset in force is the last one a runner accepted:
  \<^verbatim>\<open>nft --file -\<close> applies its input as one transaction.
\<close>

section \<open>Rendering\<close>

abbreviation quote :: char where
  "quote \<equiv> CHR 0x22"

record NftablesConfig =
  endpoint_address :: IpAddr
  endpoint_port :: u16

definition TABLE_NAME :: string where
  "TABLE_NAME = ''cyberia_vpn''"

definition render :: "NftablesConfig \<Rightarrow> TrafficPolicy \<Rightarrow> NftablesError + string" where
  "render cfg p =
     (let rules = ''add table inet '' @ TABLE_NAME @ [newline] @ ''flush table inet '' @ TABLE_NAME @ [newline]
      in if p = Disabled then Inr (rules @ ''delete table inet '' @ TABLE_NAME @ [newline])
         else
           (let rules = rules @ ''add chain inet '' @ TABLE_NAME
                  @ '' output { type filter hook output priority -100; policy drop; }'' @ [newline];
                rules = rules @ ''add rule inet '' @ TABLE_NAME @ '' output oifname '' @ [quote] @ ''lo''
                  @ [quote] @ '' accept'' @ [newline];
                address_family = (if is_ipv4 (endpoint_address cfg) then ''ip'' else ''ip6'');
                rules = rules @ ''add rule inet '' @ TABLE_NAME @ '' output '' @ address_family @ '' daddr ''
                  @ show_ip (endpoint_address cfg) @ '' udp dport '' @ show_dec (unat (endpoint_port cfg))
                  @ '' accept'' @ [newline]
            in case p of
                 TunnelOnly interface \<Rightarrow>
                   if \<not> valid_tunnel_interface interface then Inl InvalidInterface
                   else Inr (rules @ ''add rule inet '' @ TABLE_NAME @ '' output oifname '' @ [quote]
                     @ interface @ [quote] @ '' accept'' @ [newline])
               | _ \<Rightarrow> Inr rules))"

section \<open>The backend\<close>

record NftablesBackend =
  nft_config :: NftablesConfig
  nft_runner :: runner

definition NftablesBackend_new :: "NftablesConfig \<Rightarrow> runner \<Rightarrow> NftablesBackend" where
  "NftablesBackend_new cfg r = \<lparr>nft_config = cfg, nft_runner = r\<rparr>"

definition NftablesBackend_apply ::
  "TrafficPolicy \<Rightarrow> (NftablesBackend \<times> world, NftablesError, unit) rsm" where
  "NftablesBackend_apply p =
     bindE get_self (\<lambda>self.
     bindE (of_result (render (nft_config self) p)) (\<lambda>rules.
     on_world (nft_apply (nft_runner self) rules)))"

definition nft_firewall :: "NftablesBackend Firewall" where
  "nft_firewall =
     \<lparr>firewall_apply = \<lambda>p. map_err (\<lambda>e. FirewallError (NftablesError_display e)) (NftablesBackend_apply p)\<rparr>"

section \<open>The system runner\<close>

definition nft_validate_executable :: "path \<Rightarrow> (world, NftablesError, unit) rsm" where
  "nft_validate_executable p =
     bindE (symlink_metadata p) (\<lambda>found.
       case found of
         None \<Rightarrow> throw InvalidExecutable
       | Some m \<Rightarrow> reject_if (\<not> path_is_absolute p \<or> \<not> meta_is_file m \<or> meta_is_symlink m
           \<or> meta_mode m AND 0x49 = 0) InvalidExecutable)"

definition SystemNftablesRunner_new :: "path \<Rightarrow> (world, NftablesError, path) rsm" where
  "SystemNftablesRunner_new executable = seqE (nft_validate_executable executable) (ret executable)"

definition system_nft :: "input_process \<Rightarrow> NftablesError checked" where
  "system_nft p =
     (case p of
        SpawnError e \<Rightarrow> Inl (Command (''failed to start nft: '' @ e))
      | NoStdin \<Rightarrow> Inl (Command ''nft stdin is unavailable'')
      | WriteError e \<Rightarrow> Inl (Command (''failed to write nft rules: '' @ e))
      | WaitError e \<Rightarrow> Inl (Command (''failed to wait for nft: '' @ e))
      | Finished r \<Rightarrow>
          if success r then ok
          else Inl (Command (''nft exited with '' @ status_text r @ '': ''
            @ trim (take_chars 256 (from_utf8_lossy (stderr r))))))"

section \<open>The commands of a ruleset\<close>

text \<open>What the renderer means to send, one command a line.\<close>

definition rule_line :: "string \<Rightarrow> string" where
  "rule_line match = ''add rule inet '' @ TABLE_NAME @ '' output '' @ match @ '' accept''"

definition oifname :: "string \<Rightarrow> string" where
  "oifname i = ''oifname '' @ [quote] @ i @ [quote]"

definition endpoint_match :: "NftablesConfig \<Rightarrow> string" where
  "endpoint_match cfg =
     (if is_ipv4 (endpoint_address cfg) then ''ip'' else ''ip6'') @ '' daddr ''
       @ show_ip (endpoint_address cfg) @ '' udp dport '' @ show_dec (unat (endpoint_port cfg))"

definition base_lines :: "string list" where
  "base_lines = [''add table inet '' @ TABLE_NAME, ''flush table inet '' @ TABLE_NAME]"

definition filter_lines :: "NftablesConfig \<Rightarrow> string list" where
  "filter_lines cfg =
     [''add chain inet '' @ TABLE_NAME @ '' output { type filter hook output priority -100; policy drop; }'',
      rule_line (oifname ''lo''), rule_line (endpoint_match cfg)]"

definition policy_lines :: "NftablesConfig \<Rightarrow> TrafficPolicy \<Rightarrow> string list" where
  "policy_lines cfg p =
     base_lines @
     (case p of
        Disabled \<Rightarrow> [''delete table inet '' @ TABLE_NAME]
      | BlockNonTunnel \<Rightarrow> filter_lines cfg
      | TunnelOnly i \<Rightarrow> filter_lines cfg @ [rule_line (oifname i)])"

lemma render_print:
  "render cfg p =
     (case p of
        TunnelOnly i \<Rightarrow> if valid_tunnel_interface i then Inr (print_lines (policy_lines cfg p)) else Inl InvalidInterface
      | _ \<Rightarrow> Inr (print_lines (policy_lines cfg p)))"
  by (simp add: render_def policy_lines_def base_lines_def filter_lines_def rule_line_def oifname_def
      endpoint_match_def print_lines_def Let_def split: TrafficPolicy.split)

lemma tunnel_char_plain:
  "tunnel_char c \<Longrightarrow> c \<noteq> newline \<and> c \<noteq> quote \<and> c \<noteq> CHR '' '' \<and> c \<noteq> CHR '';'' \<and> c \<noteq> CHR ''{'' \<and> c \<noteq> CHR ''}''"
  by (auto simp: tunnel_char_def is_ascii_alphanumeric_def is_ascii_digit_def)

lemma valid_interface_no_newline: "valid_tunnel_interface i \<Longrightarrow> newline \<notin> set i"
  using tunnel_char_plain by (auto simp: valid_tunnel_interface_def list_all_iff)

lemma clean_rule_line: "newline \<notin> set m \<Longrightarrow> clean_line (rule_line m)"
  by (simp add: clean_line_def rule_line_def strip_cr_def TABLE_NAME_def)

lemma clean_policy_lines:
  assumes "\<And>i. p = TunnelOnly i \<Longrightarrow> valid_tunnel_interface i" and "l \<in> set (policy_lines cfg p)"
  shows "clean_line l"
proof -
  have fixed: "clean_line l" if "l \<in> set (base_lines @ filter_lines cfg)"
    using that show_ip_no_newline [of "endpoint_address cfg"] show_dec_no_newline
    by (auto simp: base_lines_def filter_lines_def oifname_def endpoint_match_def intro!: clean_rule_line)
      (auto simp: clean_line_def TABLE_NAME_def strip_cr_def split: if_splits)
  have tunnel: "clean_line (rule_line (oifname i))" if "p = TunnelOnly i" for i
    using that assms(1) valid_interface_no_newline by (auto simp: oifname_def intro!: clean_rule_line)
  have "clean_line (''delete table inet '' @ TABLE_NAME)"
    by (simp add: clean_line_def TABLE_NAME_def strip_cr_def)
  then show ?thesis
    using assms(2) fixed tunnel by (auto simp: policy_lines_def split: TrafficPolicy.splits)
qed

lemma render_Inr:
  assumes "render cfg p = Inr rules"
  shows "rules = print_lines (policy_lines cfg p)" and "\<And>i. p = TunnelOnly i \<Longrightarrow> valid_tunnel_interface i"
  using assms by (auto simp: render_print split: TrafficPolicy.splits if_splits)

lemma str_lines_render:
  assumes "render cfg p = Inr rules"
  shows "str_lines rules = policy_lines cfg p"
  unfolding render_Inr(1) [OF assms]
  using clean_policy_lines [OF render_Inr(2) [OF assms]] by (intro str_lines_print) auto

text \<open>Two policies never share a ruleset, so a ruleset in force determines its policy.\<close>

lemma render_inj:
  assumes "render cfg p = Inr rules" and "render cfg q = Inr rules"
  shows "p = q"
proof -
  have "policy_lines cfg p = policy_lines cfg q"
    using assms by (simp flip: str_lines_render)
  then show ?thesis
    by (auto simp: policy_lines_def filter_lines_def rule_line_def oifname_def split: TrafficPolicy.splits)
qed

section \<open>The ruleset in force\<close>

definition applied :: "runner \<Rightarrow> event \<Rightarrow> string option \<Rightarrow> string option" where
  "applied r ev cur =
     (case ev of NftApply r' rules accepted \<Rightarrow> (if r' = r \<and> accepted then Some rules else cur) | _ \<Rightarrow> cur)"

definition last_ruleset :: "runner \<Rightarrow> event list \<Rightarrow> string option" where
  "last_ruleset r tr = fold (applied r) tr None"

definition in_force :: "runner \<Rightarrow> NftablesConfig \<Rightarrow> event list \<Rightarrow> TrafficPolicy \<Rightarrow> bool" where
  "in_force r cfg tr p \<longleftrightarrow>
     (case last_ruleset r tr of None \<Rightarrow> False | Some rules \<Rightarrow> render cfg p = Inr rules)"

lemma last_ruleset_snoc [simp]: "last_ruleset r (tr @ [ev]) = applied r ev (last_ruleset r tr)"
  by (simp add: last_ruleset_def)

lemma in_force_unique: "in_force r cfg tr p \<Longrightarrow> in_force r cfg tr q \<Longrightarrow> p = q"
  by (auto simp: in_force_def split: option.splits intro: render_inj)

lemma nft_apply_law:
  assumes "nft_runner (fst s) = r" and "nft_config (fst s) = cfg"
  shows "wp (firewall_apply nft_firewall p)
    (\<lambda>_ t. fst t = fst s \<and> in_force r cfg (trace (snd t)) p)
    (\<lambda>_ t. fst t = fst s \<and> (\<forall>q. in_force r cfg (trace (snd s)) q \<longrightarrow> in_force r cfg (trace (snd t)) q)) s"
  using assms unfolding nft_firewall_def NftablesBackend_apply_def
  by (auto simp: wp_simps in_force_def applied_def split: sum.splits)

lemma nft_apply_frame: "only (\<lambda>ev. \<not> tunnel_event ev) (firewall_apply nft_firewall p)"
  unfolding nft_firewall_def NftablesBackend_apply_def by (auto intro!: frame_intros)

lemma in_force_tunnel_event: "tunnel_event ev \<Longrightarrow> in_force r cfg tr p \<Longrightarrow> in_force r cfg (tr @ [ev]) p"
  by (cases ev) (auto simp: in_force_def applied_def)

interpretation nft: firewall_contract nft_firewall "\<lambda>f. nft_runner f = r \<and> nft_config f = cfg"
  "in_force r cfg" tunnel_event
  for r :: runner and cfg :: NftablesConfig
proof unfold_locales
  fix s :: "NftablesBackend \<times> world" and p
  assume "nft_runner (fst s) = r \<and> nft_config (fst s) = cfg"
  then show "wp (firewall_apply nft_firewall p)
      (\<lambda>_ t. (nft_runner (fst t) = r \<and> nft_config (fst t) = cfg) \<and> in_force r cfg (trace (snd t)) p)
      (\<lambda>_ t. (nft_runner (fst t) = r \<and> nft_config (fst t) = cfg) \<and>
         (\<forall>q. in_force r cfg (trace (snd s)) q \<longrightarrow> in_force r cfg (trace (snd t)) q)) s"
    by (auto intro: wp_mono [OF nft_apply_law])
qed (auto intro: nft_apply_frame in_force_tunnel_event)

section \<open>Properties\<close>

text \<open>
  C10. A rendered ruleset consists of exactly the intended commands, one a line, whatever the endpoint
  and the interface name: nothing can be injected into the input of \<^verbatim>\<open>nft\<close>.  It starts with
  a drop-by-default output chain unless filtering is disabled, opens only the loopback interface,
  the endpoint and (under a tunnel policy) the validated tunnel interface, and two different
  policies never share a ruleset.
\<close>

theorem render_is_exact:
  assumes "render cfg p = Inr rules"
  shows "str_lines rules = policy_lines cfg p \<and>
    (\<forall>i. p = TunnelOnly i \<longrightarrow>
       (\<forall>c \<in> set i. c \<noteq> quote \<and> c \<noteq> newline \<and> c \<noteq> CHR '' '' \<and> c \<noteq> CHR '';'' \<and> c \<noteq> CHR ''{'' \<and> c \<noteq> CHR ''}'')) \<and>
    (\<forall>q. render cfg q = Inr rules \<longrightarrow> q = p)"
proof (intro conjI)
  show "str_lines rules = policy_lines cfg p" by (rule str_lines_render [OF assms])
  show "\<forall>i. p = TunnelOnly i \<longrightarrow>
      (\<forall>c \<in> set i. c \<noteq> quote \<and> c \<noteq> newline \<and> c \<noteq> CHR '' '' \<and> c \<noteq> CHR '';'' \<and> c \<noteq> CHR ''{'' \<and> c \<noteq> CHR ''}'')"
    using render_Inr(2) [OF assms] tunnel_char_plain
    unfolding valid_tunnel_interface_def list_all_iff by blast
  show "\<forall>q. render cfg q = Inr rules \<longrightarrow> q = p" using render_inj [OF _ assms] by blast
qed

definition example_nft :: NftablesConfig where
  "example_nft = \<lparr>endpoint_address = V4 0xC000020A, endpoint_port = 51820\<rparr>"

theorem render_is_exact_witness:
  "\<exists>rules. render example_nft (TunnelOnly ''cyberia0'') = Inr rules \<and>
     str_lines rules = policy_lines example_nft (TunnelOnly ''cyberia0'') \<and>
     length (str_lines rules) = 6 \<and> render example_nft BlockNonTunnel \<noteq> Inr rules"
proof -
  have "valid_tunnel_interface ''cyberia0''"
    by (simp add: valid_tunnel_interface_def tunnel_char_def is_ascii_alphanumeric_def is_ascii_digit_def)
  then obtain rules where r: "render example_nft (TunnelOnly ''cyberia0'') = Inr rules"
    by (simp add: render_print)
  show ?thesis
  proof (intro exI conjI)
    show "render example_nft (TunnelOnly ''cyberia0'') = Inr rules" by (rule r)
    show lines: "str_lines rules = policy_lines example_nft (TunnelOnly ''cyberia0'')"
      using render_is_exact [OF r] by blast
    show "length (str_lines rules) = 6"
      by (simp add: lines policy_lines_def base_lines_def filter_lines_def)
    show "render example_nft BlockNonTunnel \<noteq> Inr rules"
      using render_is_exact [OF r] by (metis TrafficPolicy.distinct(5))
  qed
qed

end
