(* ===== verification/WireGuard_Adapter.thy ===== *)
theory WireGuard_Adapter
  imports WireGuard_Config Linux_Tools
begin

text \<open>
  \<^verbatim>\<open>core/transport/src/wireguard.rs\<close>, second part: the trait of a WireGuard backend
  and the lifecycle adapter over any backend.  The operations of a backend are a record of
  methods, which every method of the adapter takes as its first argument; what the adapter relies
  on is the locale \<open>wireguard_backend\<close>.
\<close>

section \<open>The backend trait\<close>

record 'b WireGuardBackend =
  bring_up :: "string \<Rightarrow> WireGuardConfig \<Rightarrow> ConnectContext \<Rightarrow> ('b \<times> world, TransportError, unit) rsm"
  bring_down :: "string \<Rightarrow> ('b \<times> world, TransportError, unit) rsm"
  backend_health :: "('b \<times> world, TransportError, TransportHealth) rsm"

section \<open>The adapter\<close>

record 'b WireGuardAdapter =
  adapter_interface :: string
  profile :: WireGuardConfig
  backend :: 'b
  connected :: bool

definition WireGuardAdapter_new ::
  "string \<Rightarrow> WireGuardConfig \<Rightarrow> 'b \<Rightarrow> TransportError + 'b WireGuardAdapter" where
  "WireGuardAdapter_new interface p b =
     (if \<not> valid_interface interface then Inl (InvalidConfig ''invalid WireGuard interface name'')
      else thenR (WireGuardConfig_validate p)
        (Inr \<lparr>adapter_interface = interface, profile = p, backend = b, connected = False\<rparr>))"

definition adapter_connect ::
  "'b WireGuardBackend \<Rightarrow> TransportConfig \<Rightarrow> ConnectContext
    \<Rightarrow> ('b WireGuardAdapter \<times> world, TransportError, Session) rsm" where
  "adapter_connect ops config context =
     bindE get_self (\<lambda>self.
     seqE (reject_if (connected self) AlreadyConnected)
     (seqE (reject_if (kind config \<noteq> WireGuard \<or> endpoint config \<noteq> wg_endpoint (profile self))
        (InvalidConfig ''WireGuard transport parameters do not match profile''))
     (seqE (of_result (TransportConfig_validate config))
     (seqE (on_world (check context))
     (seqE (on_field backend (\<lambda>b. backend_update (\<lambda>_. b))
        (bring_up ops (adapter_interface self) (profile self) context))
     (seqE (modify_self (connected_update (\<lambda>_. True)))
     (bindE (on_world instant_now) (\<lambda>now.
        ret \<lparr>session_id = adapter_interface self, session_transport = WireGuard,
             established_at = now\<rparr>))))))))"

definition adapter_disconnect ::
  "'b WireGuardBackend \<Rightarrow> ('b WireGuardAdapter \<times> world, TransportError, unit) rsm" where
  "adapter_disconnect ops =
     bindE get_self (\<lambda>self.
     seqE (reject_if (\<not> connected self) NotConnected)
     (seqE (on_field backend (\<lambda>b. backend_update (\<lambda>_. b)) (bring_down ops (adapter_interface self)))
     (modify_self (connected_update (\<lambda>_. False)))))"

definition adapter_health ::
  "'b WireGuardBackend \<Rightarrow> ('b WireGuardAdapter \<times> world, TransportError, TransportHealth) rsm" where
  "adapter_health ops =
     bindE get_self (\<lambda>self.
     if \<not> connected self
     then ret \<lparr>status = Unavailable, round_trip_time = None, consecutive_failures = 0\<rparr>
     else on_field backend (\<lambda>b. backend_update (\<lambda>_. b)) (backend_health ops))"

section \<open>The contract of a backend\<close>

text \<open>The adapter reports a connection exactly while its backend owns the adapter's interface.\<close>

definition adapter_inv :: "('b \<Rightarrow> string option) \<Rightarrow> 'b WireGuardAdapter \<Rightarrow> bool" where
  "adapter_inv active a \<longleftrightarrow>
     active (backend a) = (if connected a then Some (adapter_interface a) else None)"

definition same_identity :: "'b WireGuardAdapter \<Rightarrow> 'b WireGuardAdapter \<Rightarrow> bool" where
  "same_identity a a' \<longleftrightarrow> adapter_interface a' = adapter_interface a \<and> profile a' = profile a"

text \<open>
  A backend owns at most one interface, \<open>active\<close>.  A successful \<open>bring_up\<close> takes it from
  nothing to the requested interface and a successful \<open>bring_down\<close> releases exactly that one;
  a failure leaves ownership as it was.  All interactions satisfy \<open>P\<close>.
\<close>

locale wireguard_backend =
  fixes ops :: "'b WireGuardBackend"
    and active :: "'b \<Rightarrow> string option"
    and P :: "event \<Rightarrow> bool"
  assumes bring_up_law:
      "wp (bring_up ops i p c) (\<lambda>_ t. active (fst s) = None \<and> active (fst t) = Some i)
         (\<lambda>_ t. active (fst t) = active (fst s)) s"
    and bring_down_law:
      "wp (bring_down ops i) (\<lambda>_ t. active (fst s) = Some i \<and> active (fst t) = None)
         (\<lambda>_ t. active (fst t) = active (fst s)) s"
    and health_law: "wp (backend_health ops) (\<lambda>_ t. active (fst t) = active (fst s)) (\<lambda>_ _. False) s"
    and backend_frame:
      "only P (bring_up ops i p c)" "only P (bring_down ops i)" "only P (backend_health ops)"
    and boundary_frame: "\<And>t b. P (ReadCancelled t b)" "\<And>t. P (ReadInstant t)"
begin

lemma new_inv:
  assumes "WireGuardAdapter_new i p b = Inr a" and "active b = None"
  shows "adapter_inv active a \<and> \<not> connected a \<and> backend a = b \<and> adapter_interface a = i \<and> profile a = p
    \<and> valid_interface i \<and> WireGuardConfig_validate p = ok"
  using assms by (auto simp: WireGuardAdapter_new_def adapter_inv_def is_ok_unit_iff split: if_splits)

lemma connect_law:
  assumes "adapter_inv active (fst s)"
  shows "wp (adapter_connect ops config context)
    (\<lambda>session t. \<not> connected (fst s) \<and> connected (fst t) \<and> adapter_inv active (fst t) \<and> same_identity (fst s) (fst t)
       \<and> session_id session = adapter_interface (fst s))
    (\<lambda>_ t. connected (fst t) = connected (fst s) \<and> adapter_inv active (fst t) \<and> same_identity (fst s) (fst t)) s"
  using assms
  unfolding adapter_connect_def wp_simps Let_def adapter_inv_def same_identity_def
  by (auto intro!: wp_any [of _ _ "check context"] wp_mono [OF bring_up_law] split: sum.splits)

lemma disconnect_law:
  assumes "adapter_inv active (fst s)"
  shows "wp (adapter_disconnect ops)
    (\<lambda>_ t. connected (fst s) \<and> \<not> connected (fst t) \<and> adapter_inv active (fst t) \<and> same_identity (fst s) (fst t))
    (\<lambda>_ t. connected (fst t) = connected (fst s) \<and> adapter_inv active (fst t) \<and> same_identity (fst s) (fst t)) s"
  using assms
  unfolding adapter_disconnect_def wp_simps Let_def adapter_inv_def same_identity_def
  by (auto intro!: wp_mono [OF bring_down_law])

lemma adapter_health_law:
  assumes "adapter_inv active (fst s)"
  shows "wp (adapter_health ops)
    (\<lambda>_ t. connected (fst t) = connected (fst s) \<and> adapter_inv active (fst t) \<and> same_identity (fst s) (fst t))
    (\<lambda>_ _. False) s"
  using assms
  unfolding adapter_health_def wp_simps Let_def adapter_inv_def same_identity_def
  by (auto intro!: wp_mono [OF health_law])

text \<open>The adapter adds no interaction of its own beyond the checks of the execution bounds.\<close>

lemma adapter_frame:
  "only P (adapter_connect ops config context)" "only P (adapter_disconnect ops)"
  "only P (adapter_health ops)"
  unfolding adapter_connect_def adapter_disconnect_def adapter_health_def
  by (intro frame_intros backend_frame boundary_frame)+

end

end
