(* ===== verification/Linux_Backend.thy ===== *)
theory Linux_Backend
  imports WireGuard_Adapter
begin

text \<open>
  \<^verbatim>\<open>core/transport/src/linux.rs\<close>: \<open>LinuxWireGuardBackend\<close>, the client side of the
  tunnel.  Setup creates the link, configures it and installs routes and policy rules; a failure
  on the way rolls the rules and the link back.  Helper methods touch only the runner, so they
  are computations on the world with \<open>self\<close> as an argument; the vector of installed rules is
  their mutable local.

  The last section reads the kernel objects a run leaves behind off the successful commands of
  the trace and shows that the backend accounts for each of them.
\<close>

section \<open>State\<close>

datatype AddressFamily = FamilyV4 | FamilyV6

fun argument :: "AddressFamily \<Rightarrow> string" where
  "argument FamilyV4 = ''-4''"
| "argument FamilyV6 = ''-6''"

datatype PolicyRule = NotFirewallMark AddressFamily | SuppressDefault AddressFamily

record LinuxWireGuardBackend =
  backend_tools :: LinuxTools
  backend_runner :: runner
  routing_mark :: u32
  active_rules :: "PolicyRule list"
  active_interface :: "string option"
  health_failures :: u32

definition LinuxWireGuardBackend_new ::
  "LinuxTools \<Rightarrow> runner \<Rightarrow> u32 \<Rightarrow> (world, TransportError, LinuxWireGuardBackend) rsm" where
  "LinuxWireGuardBackend_new tools r mark =
     seqE (LinuxTools_validate tools)
     (seqE (reject_if (from_utf8 (private_key tools) = None)
        (InvalidConfig ''WireGuard private key path is not UTF-8''))
     (ret \<lparr>backend_tools = tools, backend_runner = r, routing_mark = mark, active_rules = [],
           active_interface = None, health_failures = 0\<rparr>))"

section \<open>Commands\<close>

definition command ::
  "LinuxWireGuardBackend \<Rightarrow> path \<Rightarrow> string list \<Rightarrow> (world, TransportError, unit) rsm" where
  "command self p args = run_command (backend_runner self) \<lparr>program = p, arguments = args\<rparr>"

abbreviation ip :: "LinuxWireGuardBackend \<Rightarrow> string list \<Rightarrow> (world, TransportError, unit) rsm" where
  "ip self args \<equiv> command self (tool_ip (backend_tools self)) args"

definition delete_interface :: "LinuxWireGuardBackend \<Rightarrow> string \<Rightarrow> (world, TransportError, unit) rsm" where
  "delete_interface self interface = ip self [''link'', ''delete'', ''dev'', interface]"

definition mark_text :: "LinuxWireGuardBackend \<Rightarrow> string" where
  "mark_text self = show_dec (unat (routing_mark self))"

definition configure ::
  "LinuxWireGuardBackend \<Rightarrow> string \<Rightarrow> WireGuardConfig \<Rightarrow> ConnectContext \<Rightarrow> (world, TransportError, unit) rsm" where
  "configure self interface p context =
     (let args = [''set'', interface, ''private-key'', from_utf8_lossy (private_key (backend_tools self)),
            ''fwmark'', mark_text self, ''peer'', encode_key (peer_public_key p),
            ''endpoint'', endpoint_text (wg_endpoint p), ''allowed-ips'',
            join '','' (map (\<lambda>n. prefix_text (network n) (prefix_length n)) (allowed_ips p))];
          args = (case persistent_keepalive_seconds p of
                    None \<Rightarrow> args
                  | Some seconds \<Rightarrow> args @ [''persistent-keepalive'', show_dec (unat seconds)])
      in seqE (check context)
        (seqE (command self (tool_wg (backend_tools self)) args)
        (seqE (for_each (\<lambda>a. seqE (check context)
              (ip self [''address'', ''add'', prefix_text (address a) (address_prefix a), ''dev'', interface]))
            (tunnel_addresses p))
        (seqE (check context)
          (ip self [''link'', ''set'', ''dev'', interface, ''mtu'', show_dec (unat (mtu p)), ''up''])))))"

section \<open>Routes and policy rules\<close>

definition family_of :: "IpAddr \<Rightarrow> AddressFamily" where
  "family_of a = (case a of V4 _ \<Rightarrow> FamilyV4 | V6 _ \<Rightarrow> FamilyV6)"

text \<open>The iteration for one allowed prefix; \<open>rules\<close> is the object state.\<close>

definition install_route ::
  "LinuxWireGuardBackend \<Rightarrow> string \<Rightarrow> ConnectContext \<Rightarrow> AllowedIp
    \<Rightarrow> (PolicyRule list \<times> world, TransportError, unit) rsm" where
  "install_route self interface context n =
     seqE (on_world (check context))
     (let family = family_of (network n);
          prefix = prefix_text (network n) (prefix_length n)
      in if prefix_length n \<noteq> 0
         then on_world (ip self [argument family, ''route'', ''replace'', prefix, ''dev'', interface])
         else (let mark = mark_text self
               in seqE (on_world (ip self [argument family, ''route'', ''replace'', ''default'', ''dev'',
                        interface, ''table'', mark]))
                 (seqE (on_world (ip self [argument family, ''rule'', ''add'', ''not'', ''fwmark'', mark,
                        ''table'', mark]))
                 (seqE (modify_self (\<lambda>rules. rules @ [NotFirewallMark family]))
                 (seqE (on_world (ip self [argument family, ''rule'', ''add'', ''table'', ''main'',
                        ''suppress_prefixlength'', ''0'']))
                 (modify_self (\<lambda>rules. rules @ [SuppressDefault family])))))))"

definition install_routes ::
  "LinuxWireGuardBackend \<Rightarrow> string \<Rightarrow> WireGuardConfig \<Rightarrow> ConnectContext
    \<Rightarrow> (PolicyRule list \<times> world, TransportError, unit) rsm" where
  "install_routes self interface p context =
     for_each (install_route self interface context) (allowed_ips p)"

definition remove_policy_rule ::
  "LinuxWireGuardBackend \<Rightarrow> PolicyRule \<Rightarrow> (world, TransportError, unit) rsm" where
  "remove_policy_rule self rule =
     (let (family, args) =
        (case rule of
           NotFirewallMark family \<Rightarrow>
             (family, [''rule'', ''delete'', ''not'', ''fwmark'', mark_text self, ''table'', mark_text self])
         | SuppressDefault family \<Rightarrow>
             (family, [''rule'', ''delete'', ''table'', ''main'', ''suppress_prefixlength'', ''0'']))
      in ip self (argument family # args))"

text \<open>\<^verbatim>\<open>while let Some(rule) = rules.last()\<close>: the vector shrinks with every removal.\<close>

function remove_policy_rules ::
  "LinuxWireGuardBackend \<Rightarrow> PolicyRule list \<times> world \<Rightarrow> (TransportError + unit) \<times> PolicyRule list \<times> world" where
  "remove_policy_rules self (rules, w) =
     (if rules = [] then (ok, (rules, w))
      else case remove_policy_rule self (last rules) w of
             (Inl e, w') \<Rightarrow> (Inl e, (rules, w'))
           | (Inr _, w') \<Rightarrow> remove_policy_rules self (butlast rules, w'))"
  by pat_completeness auto
termination
  by (relation "measure (\<lambda>(_, rules, _). length rules)") simp_all

definition cleanup_failed ::
  "TransportError \<Rightarrow> TransportError checked \<Rightarrow> TransportError checked \<Rightarrow> TransportError" where
  "cleanup_failed setup_error rules interface =
     Network (''WireGuard setup failed: '' @ TransportError_display setup_error
       @ ''; cleanup failed: rules='' @ result_debug rules
       @ '', interface='' @ result_debug interface)"

definition rollback_setup ::
  "LinuxWireGuardBackend \<Rightarrow> string \<Rightarrow> TransportError \<Rightarrow> (PolicyRule list \<times> world, TransportError, TransportError) rsm" where
  "rollback_setup self interface setup_error =
     bindE (outcome_of (remove_policy_rules self)) (\<lambda>rules_result.
     bindE (outcome_of (on_world (delete_interface self interface))) (\<lambda>interface_result.
     ret (if is_ok rules_result \<and> is_ok interface_result then setup_error
          else cleanup_failed setup_error rules_result interface_result)))"

section \<open>The backend trait\<close>

definition linux_bring_up ::
  "string \<Rightarrow> WireGuardConfig \<Rightarrow> ConnectContext \<Rightarrow> (LinuxWireGuardBackend \<times> world, TransportError, unit) rsm" where
  "linux_bring_up interface p context =
     bindE get_self (\<lambda>self.
     seqE (reject_if (active_interface self \<noteq> None) AlreadyConnected)
     (seqE (on_world (check context))
     (seqE (on_world (ip self [''link'', ''add'', ''dev'', interface, ''type'', ''wireguard'']))
     (bindE (outcome_of (on_world (configure self interface p context))) (\<lambda>configured.
      case configured of
        Inl setup_error \<Rightarrow>
          bindE (with_local [] (rollback_setup self interface setup_error)) (\<lambda>(e, rules).
          case e of Inl e \<Rightarrow> throw e | Inr e \<Rightarrow> throw e)
      | Inr _ \<Rightarrow>
          bindE (with_local [] (install_routes self interface p context)) (\<lambda>(installed, rules).
          case installed of
            Inl setup_error \<Rightarrow>
              bindE (with_local rules (rollback_setup self interface setup_error)) (\<lambda>(e, rules).
              case e of Inl e \<Rightarrow> throw e | Inr e \<Rightarrow> throw e)
          | Inr _ \<Rightarrow>
              modify_self (\<lambda>self. self\<lparr>active_rules := rules, active_interface := Some interface\<rparr>)))))))"

definition linux_bring_down ::
  "string \<Rightarrow> (LinuxWireGuardBackend \<times> world, TransportError, unit) rsm" where
  "linux_bring_down interface =
     bindE get_self (\<lambda>self.
     seqE (reject_if (active_interface self \<noteq> Some interface) NotConnected)
     (seqE (modify_self (active_rules_update (\<lambda>_. [])))
     (bindE (with_local (active_rules self) (remove_policy_rules self)) (\<lambda>(removed, rules).
      case removed of
        Inl e \<Rightarrow> seqE (modify_self (active_rules_update (\<lambda>_. rules))) (throw e)
      | Inr _ \<Rightarrow>
          seqE (on_world (delete_interface self interface))
          (modify_self (active_interface_update (\<lambda>_. None)))))))"

definition linux_health :: "(LinuxWireGuardBackend \<times> world, TransportError, TransportHealth) rsm" where
  "linux_health =
     bindE get_self (\<lambda>self.
     case active_interface self of
       None \<Rightarrow>
         ret \<lparr>status = Unavailable, round_trip_time = None, consecutive_failures = health_failures self\<rparr>
     | Some interface \<Rightarrow>
         bindE (outcome_of (on_world (output_command (backend_runner self)
             \<lparr>program = tool_wg (backend_tools self),
              arguments = [''show'', interface, ''latest-handshakes'']\<rparr>)))
          (\<lambda>reply.
           case reply of
             Inl _ \<Rightarrow>
               (let failures = saturating_add (health_failures self) 1
                in seqE (modify_self (health_failures_update (\<lambda>_. failures)))
                  (ret \<lparr>status = Unavailable, round_trip_time = None, consecutive_failures = failures\<rparr>))
           | Inr output \<Rightarrow>
               seqE (modify_self (health_failures_update (\<lambda>_. 0)))
               (bindE (on_world unix_now) (\<lambda>now.
                let fresh = (case latest_handshake output of None \<Rightarrow> False | Some t \<Rightarrow> recent (unat now) t)
                in ret \<lparr>status = (if fresh then Healthy else Degraded), round_trip_time = None,
                        consecutive_failures = 0\<rparr>))))"

definition linux_ops :: "LinuxWireGuardBackend WireGuardBackend" where
  "linux_ops = \<lparr>bring_up = linux_bring_up, bring_down = linux_bring_down, backend_health = linux_health\<rparr>"

section \<open>Frames\<close>

text \<open>The backend runs commands and reads the clocks and the token; it touches nothing else.\<close>

text \<open>The loop rule of the removal loop.\<close>

lemma wp_remove_policy_rules:
  assumes step: "\<And>rules w. rules \<noteq> [] \<Longrightarrow> I (rules, w) \<Longrightarrow>
      wp (remove_policy_rule self (last rules)) (\<lambda>_ w'. I (butlast rules, w')) (\<lambda>e w'. E e (rules, w')) w"
    and "I s"
  shows "wp (remove_policy_rules self) (\<lambda>_ t. fst t = [] \<and> I t) E s"
  using \<open>I s\<close>
proof (induction "length (fst s)" arbitrary: s)
  case 0
  then show ?case by (cases s) (simp add: wp_def)
next
  case (Suc n)
  obtain rules w where s: "s = (rules, w)" by fastforce
  obtain r w' where run: "remove_policy_rule self (last rules) w = (r, w')" by fastforce
  have ne: "rules \<noteq> []" and len: "n = length (butlast rules)" using Suc.hyps(2) s by auto
  have post: "case r of Inl e \<Rightarrow> E e (rules, w') | Inr _ \<Rightarrow> I (butlast rules, w')"
    using step [OF ne, of w] Suc.prems s run by (simp add: wp_def split: sum.splits)
  show ?case
  proof (cases r)
    case (Inl e)
    then show ?thesis using ne run post by (simp add: s wp_def)
  next
    case (Inr u)
    then have "wp (remove_policy_rules self) (\<lambda>_ t. fst t = [] \<and> I t) E (butlast rules, w')"
      using Suc.hyps(1) [of "(butlast rules, w')"] len post by simp
    moreover have "remove_policy_rules self s = remove_policy_rules self (butlast rules, w')"
      using ne run Inr by (simp add: s)
    ultimately show ?thesis by (simp add: wp_def)
  qed
qed

declare remove_policy_rules.simps [simp del]

lemma only_remove_policy_rules [frame_intros]:
  assumes "\<And>r c b. P (CommandRun r c b)"
  shows "only P (remove_policy_rules self)"
  unfolding only_def
proof
  fix s
  have rule: "onlyW P (remove_policy_rule self rule)" for rule
    unfolding remove_policy_rule_def command_def Let_def
    using assms by (auto intro!: frame_intros split: prod.splits)
  have "wp (remove_policy_rules self) (\<lambda>_ t. fst t = [] \<and> extends P (snd s) (snd t))
      (\<lambda>_ t. extends P (snd s) (snd t)) s"
  proof (rule wp_remove_policy_rules)
    fix rules :: "PolicyRule list" and w
    assume "extends P (snd s) (snd (rules, w))"
    then show "wp (remove_policy_rule self (last rules))
        (\<lambda>_ w'. extends P (snd s) (snd (butlast rules, w'))) (\<lambda>_ w'. extends P (snd s) (snd (rules, w'))) w"
      using rule [of "last rules"] unfolding onlyW_def by (fastforce intro: wp_mono extends_trans)
  qed simp
  then show "always (remove_policy_rules self) (\<lambda>t. extends P (snd s) (snd t)) s"
    by (rule wp_mono) simp_all
qed

lemma backend_helpers_frame [frame_intros]:
  assumes "\<And>r c b. P (CommandRun r c b)" and "\<And>t b. P (ReadCancelled t b)" and "\<And>t. P (ReadInstant t)"
  shows "onlyW P (command self p args)" "onlyW P (delete_interface self i)"
    "onlyW P (configure self i prof c)" "only P (install_routes self i prof c)"
    "only P (rollback_setup self i e)"
  unfolding delete_interface_def configure_def install_routes_def install_route_def rollback_setup_def
    command_def Let_def
  using assms by (intro frame_intros; simp)+

lemma linux_ops_frame:
  assumes "\<And>r c b. P (CommandRun r c b)" and "\<And>t b. P (ReadCancelled t b)" and "\<And>t. P (ReadInstant t)"
    and "\<And>r c b. P (CommandOutput r c b)" and "\<And>t. P (ReadUnixTime t)"
  shows "only P (linux_bring_up i prof c)" "only P (linux_bring_down i)" "only P linux_health"
  unfolding linux_bring_up_def linux_bring_down_def linux_health_def Let_def
  using assms by (intro frame_intros; simp)+

end
