(* ===== verification/Linux_Ownership.thy ===== *)
theory Linux_Ownership
  imports Linux_Backend
begin

text \<open>
  Which kernel objects a Linux tunnel leaves behind.  The successful \<^verbatim>\<open>ip\<close> commands of
  a trace create and delete links and policy rules; \<open>resources\<close> reads the multiset of live
  objects off the trace.  The theorems relate it to what the backend records in
  \<open>active_interface\<close> and \<open>active_rules\<close>.
\<close>

section \<open>Kernel objects\<close>

datatype resource = Link string | Rule "string list"

text \<open>The object an argument list of \<^verbatim>\<open>ip\<close> names after the given verb.\<close>

definition object_of :: "string \<Rightarrow> string list \<Rightarrow> resource multiset" where
  "object_of verb args =
     (if 3 < length args \<and> take 3 args = [''link'', verb, ''dev''] then {#Link (args ! 3)#}
      else if 2 < length args \<and> args ! 1 = ''rule'' \<and> args ! 2 = verb then {#Rule (hd args # drop 3 args)#}
      else {#})"

definition ip_effect :: "string list \<Rightarrow> resource multiset \<Rightarrow> resource multiset" where
  "ip_effect args live = live - object_of ''delete'' args + object_of ''add'' args"

definition event_effect :: "runner \<Rightarrow> path \<Rightarrow> event \<Rightarrow> resource multiset \<Rightarrow> resource multiset" where
  "event_effect r p ev live =
     (case ev of
        CommandRun r' c done_ok \<Rightarrow>
          if done_ok \<and> r' = r \<and> program c = p then ip_effect (arguments c) live else live
      | _ \<Rightarrow> live)"

definition resources :: "LinuxWireGuardBackend \<Rightarrow> world \<Rightarrow> resource multiset" where
  "resources self w =
     fold (event_effect (backend_runner self) (tool_ip (backend_tools self))) (trace w) {#}"

definition rule_object :: "LinuxWireGuardBackend \<Rightarrow> PolicyRule \<Rightarrow> resource" where
  "rule_object self rule =
     (case rule of
        NotFirewallMark family \<Rightarrow>
          Rule [argument family, ''not'', ''fwmark'', mark_text self, ''table'', mark_text self]
      | SuppressDefault family \<Rightarrow> Rule [argument family, ''table'', ''main'', ''suppress_prefixlength'', ''0''])"

definition rule_objects :: "LinuxWireGuardBackend \<Rightarrow> PolicyRule list \<Rightarrow> resource multiset" where
  "rule_objects self rules = mset (map (rule_object self) rules)"

text \<open>What the backend says it owns.\<close>

definition owned :: "LinuxWireGuardBackend \<Rightarrow> resource multiset" where
  "owned self =
     (case active_interface self of
        None \<Rightarrow> {#}
      | Some i \<Rightarrow> add_mset (Link i) (rule_objects self (active_rules self)))"

section \<open>Effects of the commands\<close>

lemma resources_log [simp]:
  "resources self (log_event (CommandRun r c b) w) =
     (if b \<and> r = backend_runner self \<and> program c = tool_ip (backend_tools self)
      then ip_effect (arguments c) (resources self w) else resources self w)"
  "resources self (log_event (CommandOutput r c b) w) = resources self w"
  "resources self (log_event (ReadCancelled t b) w) = resources self w"
  "resources self (log_event (ReadInstant n) w) = resources self w"
  "resources self (log_event (ReadUnixTime u) w) = resources self w"
  "resources self (cancel t w) = resources self w"
  by (simp_all add: resources_def event_effect_def)

lemma resources_update [simp]:
  "resources (self\<lparr>active_rules := rs\<rparr>) w = resources self w"
  "resources (self\<lparr>active_interface := i\<rparr>) w = resources self w"
  "resources (self\<lparr>health_failures := n\<rparr>) w = resources self w"
  by (simp_all add: resources_def)

lemma rule_object_update [simp]:
  "rule_object (self\<lparr>active_rules := rs\<rparr>) = rule_object self"
  "rule_object (self\<lparr>active_interface := i\<rparr>) = rule_object self"
  "rule_object (self\<lparr>health_failures := n\<rparr>) = rule_object self"
  by (simp_all add: rule_object_def mark_text_def fun_eq_iff split: PolicyRule.split)

lemma rule_objects_update [simp]:
  "rule_objects (self\<lparr>active_rules := rs\<rparr>) rules = rule_objects self rules"
  "rule_objects (self\<lparr>active_interface := i\<rparr>) rules = rule_objects self rules"
  "rule_objects (self\<lparr>health_failures := n\<rparr>) rules = rule_objects self rules"
  by (simp_all add: rule_objects_def)

lemma rule_objects_simps [simp]:
  "rule_objects self [] = {#}"
  "rule_objects self (rule # rules) = add_mset (rule_object self rule) (rule_objects self rules)"
  "rule_objects self (rules @ rules') = rule_objects self rules + rule_objects self rules'"
  "rule_objects self rules = {#} \<longleftrightarrow> rules = []"
  by (simp_all add: rule_objects_def)

lemma rule_objects_last:
  "rules \<noteq> [] \<Longrightarrow>
     rule_objects self rules = add_mset (rule_object self (last rules)) (rule_objects self (butlast rules))"
  using rule_objects_simps(3) [of self "butlast rules" "[last rules]"] by simp

lemma wp_command_resources:
  assumes "resources self w = live"
    and "\<And>w'. resources self w' = (if p = tool_ip (backend_tools self) then ip_effect args live else live) \<Longrightarrow> Q () w'"
    and "\<And>e w'. resources self w' = live \<Longrightarrow> E e w'"
  shows "wp (command self p args) Q E w"
  using assms by (auto simp: command_def wp_simps split: sum.splits)

lemma wp_check_resources:
  assumes "resources self w = live"
    and "\<And>w'. resources self w' = live \<Longrightarrow> Q () w'" and "\<And>e w'. resources self w' = live \<Longrightarrow> E e w'"
  shows "wp (check context) Q E w"
  using assms by (auto simp: check_def wp_simps Let_def)

lemmas effect_simps = ip_effect_def object_of_def

lemma configure_resources:
  "always (configure self i p context) (\<lambda>w'. resources self w' = resources self w) w"
proof -
  let ?I = "\<lambda>w'. resources self w' = resources self w"
  have address: "always (for_each (\<lambda>a. seqE (check context)
      (ip self [''address'', ''add'', prefix_text (address a) (address_prefix a), ''dev'', i])) as) ?I w'"
    if "?I w'" for as w'
    using that
    by (intro wp_for_each_inv)
      (auto simp: effect_simps wp_simps intro!: wp_check_resources wp_command_resources)
  show ?thesis
    unfolding configure_def Let_def wp_simps
    by (auto simp: effect_simps intro!: wp_check_resources wp_command_resources wp_mono [OF address]
        split: option.splits)
qed

text \<open>The rules a setup has installed so far are exactly the ones it will remove again.\<close>

definition accounted :: "LinuxWireGuardBackend \<Rightarrow> resource multiset \<Rightarrow> PolicyRule list \<times> world \<Rightarrow> bool" where
  "accounted self base t \<longleftrightarrow> resources self (snd t) = base + rule_objects self (fst t)"

lemma install_route_accounted:
  assumes "accounted self base t"
  shows "always (install_route self i context n) (accounted self base) t"
  using assms unfolding install_route_def Let_def wp_simps accounted_def
  by (auto simp: effect_simps rule_object_def intro!: wp_check_resources wp_command_resources)

lemma install_routes_accounted:
  assumes "accounted self base t"
  shows "always (install_routes self i p context) (accounted self base) t"
  unfolding install_routes_def
  by (rule wp_for_each_inv [where I = "accounted self base"]) (use install_route_accounted assms in auto)

lemma remove_policy_rule_resources:
  assumes "resources self w = base + rule_objects self rules" and "rules \<noteq> []"
  shows "wp (remove_policy_rule self (last rules))
    (\<lambda>_ w'. resources self w' = base + rule_objects self (butlast rules))
    (\<lambda>_ w'. resources self w' = base + rule_objects self rules) w"
  using assms unfolding remove_policy_rule_def Let_def
  by (auto simp: effect_simps rule_object_def rule_objects_last intro!: wp_command_resources
      split: PolicyRule.split)

lemma remove_policy_rules_accounted:
  assumes "accounted self base t"
  shows "wp (remove_policy_rules self) (\<lambda>_ t. fst t = [] \<and> accounted self base t)
    (\<lambda>_ t. fst t \<noteq> [] \<and> accounted self base t) t"
  by (rule wp_remove_policy_rules)
    (use assms in \<open>auto simp: accounted_def intro: wp_mono [OF remove_policy_rule_resources]\<close>)

text \<open>
  A rollback restores the objects from before the setup, unless one of its own commands fails:
  then the returned error reports it and the leak is what those commands were to remove.
\<close>

definition setup_failed ::
  "LinuxWireGuardBackend \<Rightarrow> string \<Rightarrow> resource multiset \<Rightarrow> TransportError \<Rightarrow> TransportError \<Rightarrow> world \<Rightarrow> bool" where
  "setup_failed self i base setup_error e w \<longleftrightarrow>
     (\<exists>rules rr ir.
        resources self w = base + rule_objects self rules + (if is_ok ir then {#} else {#Link i#}) \<and>
        (is_ok rr \<longleftrightarrow> rules = []) \<and>
        e = (if is_ok rr \<and> is_ok ir then setup_error else cleanup_failed setup_error rr ir))"

lemma rollback_setup_resources:
  assumes "accounted self (add_mset (Link i) base) t"
  shows "wp (rollback_setup self i setup_error) (\<lambda>e t. setup_failed self i base setup_error e (snd t))
    (\<lambda>_ _. False) t"
proof -
  have delete: "wp (delete_interface self i)
      (\<lambda>_ w'. setup_failed self i base setup_error
         (if is_ok rr then setup_error else cleanup_failed setup_error rr (Inr ())) w')
      (\<lambda>e w'. setup_failed self i base setup_error (cleanup_failed setup_error rr (Inl e)) w') w"
    if "resources self w = add_mset (Link i) base + rule_objects self rules" "is_ok rr \<longleftrightarrow> rules = []"
    for rules rr w
  proof (rule wpI)
    fix e w'
    assume "delete_interface self i w = (Inl e, w')"
    then have "resources self w' = add_mset (Link i) base + rule_objects self rules"
      using that(1) by (auto simp: delete_interface_def command_def run_command_def Let_def)
    then show "setup_failed self i base setup_error (cleanup_failed setup_error rr (Inl e)) w'"
      unfolding setup_failed_def
      by (intro exI [of _ rules] exI [of _ rr] exI [of _ "Inl e"]) (use that(2) in simp)
  next
    fix u w'
    assume "delete_interface self i w = (Inr u, w')"
    then have "resources self w' = base + rule_objects self rules"
      using that(1) by (auto simp: delete_interface_def command_def run_command_def Let_def effect_simps)
    then show "setup_failed self i base setup_error
        (if is_ok rr then setup_error else cleanup_failed setup_error rr (Inr ())) w'"
      unfolding setup_failed_def
      by (intro exI [of _ rules] exI [of _ rr] exI [of _ "Inr ()"]) (use that(2) in simp)
  qed
  show ?thesis
    unfolding rollback_setup_def wp_simps
    by (rule wp_mono [OF remove_policy_rules_accounted [OF assms]])
      (auto simp: accounted_def intro!: wp_mono [OF delete])
qed

section \<open>Bringing a tunnel up and down\<close>

lemma owned_simps [simp]:
  "active_interface b = None \<Longrightarrow> owned b = {#}"
  "active_interface b = Some i \<Longrightarrow> owned b = add_mset (Link i) (rule_objects b (active_rules b))"
  by (simp_all add: owned_def)

lemma bring_up_resources:
  "wp (linux_bring_up i p context)
     (\<lambda>_ t. active_interface (fst s) = None \<and> active_interface (fst t) = Some i \<and>
        resources (fst t) (snd t) = resources (fst s) (snd s) + owned (fst t))
     (\<lambda>e t. fst t = fst s \<and>
        (resources (fst s) (snd t) = resources (fst s) (snd s) \<or>
         (\<exists>setup_error. setup_failed (fst s) i (resources (fst s) (snd s)) setup_error e (snd t)))) s"
proof -
  obtain b w where s: "s = (b, w)" by fastforce
  let ?base = "resources b w"
  have rollback: "wp (rollback_setup b i se)
      (\<lambda>e t. \<exists>setup_error. setup_failed b i ?base setup_error e (snd t)) (\<lambda>_ _. False) (rules, w')"
    if "resources b w' = add_mset (Link i) ?base + rule_objects b rules" for rules w' se
    by (rule wp_mono [OF rollback_setup_resources [of _ _ ?base]]) (use that in \<open>auto simp: accounted_def\<close>)
  have routes: "always (install_routes b i p context)
      (\<lambda>t. resources b (snd t) = add_mset (Link i) ?base + rule_objects b (fst t)) ([], w')"
    if "resources b w' = add_mset (Link i) ?base" for w'
    by (rule wp_mono [OF install_routes_accounted [of _ "add_mset (Link i) ?base"]])
      (use that in \<open>auto simp: accounted_def\<close>)
  have conf: "always (configure b i p context) (\<lambda>w'. resources b w' = add_mset (Link i) ?base) w'"
    if "resources b w' = add_mset (Link i) ?base" for w'
    by (rule wp_mono [OF configure_resources]) (use that in auto)
  show ?thesis
    unfolding linux_bring_up_def wp_simps s
    by (auto simp: effect_simps wp_simps intro!: wp_check_resources wp_command_resources
        wp_mono [OF conf] wp_mono [OF routes] wp_mono [OF rollback])
qed

lemma bring_down_resources:
  assumes "resources (fst s) (snd s) = base + owned (fst s)"
  shows "wp (linux_bring_down i)
     (\<lambda>_ t. active_interface (fst s) = Some i \<and> active_interface (fst t) = None \<and>
        resources (fst t) (snd t) = base + owned (fst t))
     (\<lambda>_ t. active_interface (fst t) = active_interface (fst s) \<and>
        resources (fst t) (snd t) = base + owned (fst t)) s"
proof -
  obtain b w where s: "s = (b, w)" by fastforce
  have rules: "wp (remove_policy_rules b)
      (\<lambda>_ t. fst t = [] \<and> resources b (snd t) = add_mset (Link i) base)
      (\<lambda>_ t. resources b (snd t) = add_mset (Link i) base + rule_objects b (fst t)) (active_rules b, w)"
    if "active_interface b = Some i"
    by (rule wp_mono [OF remove_policy_rules_accounted [of _ "add_mset (Link i) base"]])
      (use assms that in \<open>auto simp: accounted_def s\<close>)
  show ?thesis
    using assms unfolding linux_bring_down_def wp_simps delete_interface_def s
    by (auto simp: effect_simps wp_simps intro!: wp_command_resources wp_mono [OF rules])
qed

section \<open>The backend keeps the adapter's contract\<close>

lemma bring_down_ownership:
  "wp (linux_bring_down i)
     (\<lambda>_ t. active_interface (fst s) = Some i \<and> active_interface (fst t) = None)
     (\<lambda>_ t. active_interface (fst t) = active_interface (fst s)) s"
  unfolding linux_bring_down_def wp_simps
  by (auto simp: wp_simps intro!: wp_any [of _ _ "remove_policy_rules _"] wp_any [of _ _ "delete_interface _ _"])

lemma health_ownership:
  "wp linux_health (\<lambda>_ t. active_interface (fst t) = active_interface (fst s)) (\<lambda>_ _. False) s"
  unfolding linux_health_def wp_simps by (auto simp: wp_simps Let_def split: option.split sum.split)

interpretation linux_tunnel: wireguard_backend linux_ops active_interface tunnel_event
proof unfold_locales
  fix i p c s
  show "wp (bring_up linux_ops i p c) (\<lambda>_ t. active_interface (fst s) = None \<and> active_interface (fst t) = Some i)
      (\<lambda>_ t. active_interface (fst t) = active_interface (fst s)) s"
    unfolding linux_ops_def by (auto intro: wp_mono [OF bring_up_resources])
qed (auto simp: linux_ops_def intro: bring_down_ownership health_ownership linux_ops_frame)

section \<open>Teardown can be retried\<close>

text \<open>A platform on which every command of the runner succeeds from now on.\<close>

definition accepts :: "runner \<Rightarrow> platform \<Rightarrow> bool" where
  "accepts r pl \<longleftrightarrow> (\<forall>tr c. run_reply pl tr r c = ok)"

lemma wp_command_accepts:
  assumes "accepts (backend_runner self) (os w)" and "\<And>w'. os w' = os w \<Longrightarrow> Q () w'"
  shows "wp (command self p args) Q E w"
  using assms by (simp add: command_def wp_simps accepts_def)

lemma remove_policy_rules_accepts:
  assumes "accepts (backend_runner self) (os (snd s))"
  shows "wp (remove_policy_rules self) (\<lambda>_ t. os (snd t) = os (snd s)) (\<lambda>_ _. False) s"
proof -
  have "wp (remove_policy_rules self) (\<lambda>_ t. fst t = [] \<and> os (snd t) = os (snd s)) (\<lambda>_ _. False) s"
    by (rule wp_remove_policy_rules)
      (use assms in \<open>auto simp: remove_policy_rule_def Let_def intro!: wp_command_accepts split: PolicyRule.split\<close>)
  then show ?thesis by (rule wp_mono) auto
qed

lemma bring_down_accepts:
  assumes "accepts (backend_runner (fst s)) (os (snd s))" and "active_interface (fst s) = Some i"
  shows "wp (linux_bring_down i) (\<lambda>_ _. True) (\<lambda>_ _. False) s"
  using assms unfolding linux_bring_down_def wp_simps delete_interface_def
  by (auto simp: wp_simps intro!: wp_mono [OF remove_policy_rules_accepts] wp_command_accepts)

text \<open>Setup succeeds on a favourable platform, so that the laws above are about real runs.\<close>

lemma wp_command_favourable:
  assumes "favourable (backend_runner self) context w"
    and "\<And>w'. favourable (backend_runner self) context w' \<Longrightarrow> Q () w'"
  shows "wp (command self p args) Q E w"
  using assms wp_run_favourable by (simp add: command_def)

lemma wp_for_each_favourable:
  assumes "favourable r context (snd s)"
    and "\<And>x t. favourable r context (snd t) \<Longrightarrow> wp (f x) (\<lambda>_ t. favourable r context (snd t)) (\<lambda>_ _. False) t"
  shows "wp (for_each f xs) (\<lambda>_ t. favourable r context (snd t)) (\<lambda>_ _. False) s"
  by (rule wp_for_each_inv) (use assms in auto)

lemma configure_favourable:
  assumes "favourable (backend_runner self) context w"
  shows "wp (configure self i p context) (\<lambda>_. favourable (backend_runner self) context) (\<lambda>_ _. False) w"
proof -
  let ?I = "favourable (backend_runner self) context"
  have address: "wp (for_each (\<lambda>a. seqE (check context)
      (ip self [''address'', ''add'', prefix_text (address a) (address_prefix a), ''dev'', i])) as)
      (\<lambda>_. ?I) (\<lambda>_ _. False) w'"
    if "?I w'" for as w'
    by (rule wp_for_each_inv)
      (use that in \<open>auto simp: wp_simps intro!: wp_check_favourable wp_command_favourable\<close>)
  show ?thesis
    using assms unfolding configure_def Let_def wp_simps
    by (auto intro!: wp_check_favourable wp_command_favourable wp_mono [OF address])
qed

lemma install_routes_favourable:
  assumes "favourable (backend_runner self) context (snd s)"
  shows "wp (install_routes self i p context) (\<lambda>_ t. favourable (backend_runner self) context (snd t))
    (\<lambda>_ _. False) s"
  unfolding install_routes_def install_route_def Let_def
  by (rule wp_for_each_favourable)
    (use assms in \<open>auto simp: wp_simps intro!: wp_check_favourable wp_command_favourable\<close>)

lemma bring_up_favourable:
  assumes "favourable (backend_runner (fst s)) context (snd s)" and "active_interface (fst s) = None"
  shows "wp (linux_bring_up i p context)
    (\<lambda>_ t. favourable (backend_runner (fst s)) context (snd t)) (\<lambda>_ _. False) s"
  using assms unfolding linux_bring_up_def wp_simps
  by (auto simp: wp_simps intro!: wp_check_favourable wp_command_favourable
      wp_mono [OF configure_favourable] wp_mono [OF install_routes_favourable])

section \<open>Properties\<close>

definition example_tools :: LinuxTools where
  "example_tools = \<lparr>tool_ip = ''/usr/sbin/ip'', tool_wg = ''/usr/bin/wg'', private_key = ''/etc/cyberia/key''\<rparr>"

definition example_backend :: LinuxWireGuardBackend where
  "example_backend =
     \<lparr>backend_tools = example_tools, backend_runner = 0, routing_mark = 51820, active_rules = [],
      active_interface = None, health_failures = 0\<rparr>"

definition example_profile :: WireGuardConfig where
  "example_profile =
     \<lparr>peer_public_key = replicate 32 7, wg_endpoint = \<lparr>host = ''192.0.2.10'', port = 51820\<rparr>,
      tunnel_addresses = [\<lparr>address = V4 0x0A140002, address_prefix = 32\<rparr>],
      allowed_ips = [\<lparr>network = V4 0, prefix_length = 0\<rparr>],
      persistent_keepalive_seconds = Some 25, mtu = 1420\<rparr>"

definition example_context :: ConnectContext where
  "example_context = \<lparr>deadline = 5000, cancellation = 0\<rparr>"

lemma example_favourable [simp]: "favourable r example_context calm_world"
  by (simp add: favourable_def example_context_def)

lemma example_backend_simps [simp]:
  "active_interface example_backend = None" "active_rules example_backend = []"
  "backend_runner example_backend = 0"
  by (simp_all add: example_backend_def)

lemma example_up:
  obtains b' w' where "linux_bring_up ''cyberia0'' example_profile example_context (example_backend, calm_world)
    = (ok, (b', w'))"
  using bring_up_favourable [of "(example_backend, calm_world)" example_context "''cyberia0''" example_profile]
  by (cases "linux_bring_up ''cyberia0'' example_profile example_context (example_backend, calm_world)")
    (auto simp: wp_def split: sum.splits prod.splits)

text \<open>
  C6. A setup accounts for every kernel object it creates.  When it succeeds, the links and policy
  rules it added are exactly the ones the backend records as owned.  When it fails, the backend is
  unchanged and everything created on the way is gone again, unless a cleanup command itself
  failed, which the returned error then reports.
\<close>

theorem bring_up_accounts_for_resources:
  assumes "linux_bring_up i p context (b, w) = (r, (b', w'))"
  shows "case r of
      Inr _ \<Rightarrow> active_interface b = None \<and> active_interface b' = Some i \<and>
               resources b' w' = resources b w + owned b'
    | Inl e \<Rightarrow> b' = b \<and>
               (\<exists>leak. resources b w' = resources b w + leak \<and>
                  (leak \<noteq> {#} \<longrightarrow>
                     (\<exists>setup_error rules link. e = cleanup_failed setup_error rules link \<and>
                        \<not> (is_ok rules \<and> is_ok link))))"
proof (cases r)
  case (Inr u)
  then show ?thesis using wp_resultD [OF bring_up_resources assms] by simp
next
  case (Inl e)
  have "b' = b" and "resources b w' = resources b w \<or> (\<exists>se. setup_failed b i (resources b w) se e w')"
    using wp_resultD [OF bring_up_resources assms] Inl by auto
  moreover have "\<exists>leak. resources b w' = resources b w + leak \<and>
      (leak \<noteq> {#} \<longrightarrow> (\<exists>se rules link. e = cleanup_failed se rules link \<and> \<not> (is_ok rules \<and> is_ok link)))"
    if failed: "setup_failed b i (resources b w) se e w'" for se
  proof -
    obtain rules rr ir where
      "resources b w' = resources b w + (rule_objects b rules + (if is_ok ir then {#} else {#Link i#}))"
      "is_ok rr \<longleftrightarrow> rules = []" "e = (if is_ok rr \<and> is_ok ir then se else cleanup_failed se rr ir)"
      using failed unfolding setup_failed_def add.assoc by blast
    then show ?thesis
      by (intro exI [of _ "rule_objects b rules + (if is_ok ir then {#} else {#Link i#})"])
        (intro conjI impI, simp, rule exI [of _ se], rule exI [of _ rr], rule exI [of _ ir], auto)
  qed
  ultimately show ?thesis using Inl by auto
qed

theorem bring_up_accounts_for_resources_witness:
  "\<exists>b' w'. linux_bring_up ''cyberia0'' example_profile example_context (example_backend, calm_world)
      = (ok, (b', w')) \<and> resources b' w' = owned b' \<and> Link ''cyberia0'' \<in># resources b' w'"
proof -
  obtain b' w' where run: "linux_bring_up ''cyberia0'' example_profile example_context
      (example_backend, calm_world) = (ok, (b', w'))"
    by (rule example_up)
  show ?thesis
    using bring_up_accounts_for_resources [OF run] run by (auto simp: resources_def)
qed

text \<open>
  C7. Teardown keeps the accounts balanced whatever fails: after every attempt, successful or not,
  the live objects are again those of others plus the ones the backend records.  A successful
  attempt owns nothing any more, a failed one still owns the interface and can be repeated.
\<close>

theorem bring_down_keeps_accounts:
  assumes "resources b w = base + owned b" and "linux_bring_down i (b, w) = (r, (b', w'))"
  shows "resources b' w' = base + owned b' \<and>
    (if is_ok r then active_interface b = Some i \<and> owned b' = {#}
     else active_interface b' = active_interface b)"
  using wp_resultD [OF bring_down_resources [of "(b, w)" base i] assms(2)] assms(1)
  by (cases r) auto

text \<open>
  C8. Teardown completes as soon as the platform accepts commands: whatever earlier attempts left
  of the rules, one more attempt succeeds and releases every owned object.
\<close>

theorem bring_down_completes:
  assumes "active_interface b = Some i" and "resources b w = base + owned b"
    and "accepts (backend_runner b) (os w)"
  shows "\<exists>b' w'. linux_bring_down i (b, w) = (ok, (b', w')) \<and> resources b' w' = base \<and>
    active_interface b' = None"
proof -
  obtain r b' w' where run: "linux_bring_down i (b, w) = (r, (b', w'))" by (metis prod.exhaust)
  then have "is_ok r"
    using wp_resultD [OF bring_down_accepts [of "(b, w)" i] run] assms by (cases r) auto
  then have r: "r = ok" by (simp add: is_ok_unit_iff)
  show ?thesis
    using wp_OkD [OF bring_down_resources [of "(b, w)" base i]] run assms unfolding r by fastforce
qed

theorem bring_down_keeps_accounts_witness:
  "\<exists>b w. active_interface b = Some ''cyberia0'' \<and> resources b w = {#} + owned b \<and>
     (case linux_bring_down ''cyberia0'' (b, w) of (r, (b', w')) \<Rightarrow> resources b' w' = {#} + owned b')"
proof -
  obtain b w where up: "linux_bring_up ''cyberia0'' example_profile example_context
      (example_backend, calm_world) = (ok, (b, w))"
    by (rule example_up)
  have b: "active_interface b = Some ''cyberia0''" "resources b w = {#} + owned b"
    using wp_OkD [OF bring_up_resources up] by (auto simp: resources_def)
  obtain r b' w' where "linux_bring_down ''cyberia0'' (b, w) = (r, (b', w'))" by (metis prod.exhaust)
  then show ?thesis using b bring_down_keeps_accounts [OF b(2)] by fastforce
qed

theorem bring_down_completes_witness:
  "\<exists>b w b' w'. active_interface b = Some ''cyberia0'' \<and>
     linux_bring_down ''cyberia0'' (b, w) = (ok, (b', w')) \<and> resources b' w' = {#}"
proof -
  obtain b w where up: "linux_bring_up ''cyberia0'' example_profile example_context
      (example_backend, calm_world) = (ok, (b, w))"
    by (rule example_up)
  have b: "active_interface b = Some ''cyberia0''" "resources b w = {#} + owned b"
    using wp_OkD [OF bring_up_resources up] by (auto simp: resources_def)
  have "os w = calm_platform"
    using onlyD [OF linux_ops_frame(1) up, of tunnel_event] by (auto simp: extends_def)
  then show ?thesis using b bring_down_completes [OF b] by (fastforce simp: accepts_def)
qed

end
