(* ===== verification/Linux_Dns.thy ===== *)
theory Linux_Dns
  imports Linux_Tools
begin

text \<open>
  \<^verbatim>\<open>core/transport/src/linux.rs\<close>: \<open>LinuxDnsBackend\<close>, the per-interface resolver
  state of systemd-resolved.  The theorems relate the interface the backend remembers to the
  resolver commands of the trace that no revert has undone yet.
\<close>

section \<open>State and operations\<close>

record LinuxDnsBackend =
  dns_backend_tools :: LinuxDnsTools
  dns_runner :: runner
  dns_interface :: "string option"

definition LinuxDnsBackend_new ::
  "LinuxDnsTools \<Rightarrow> runner \<Rightarrow> (world, TransportError, LinuxDnsBackend) rsm" where
  "LinuxDnsBackend_new tools r =
     seqE (LinuxDnsTools_validate tools)
     (ret \<lparr>dns_backend_tools = tools, dns_runner = r, dns_interface = None\<rparr>)"

definition dns_command :: "LinuxDnsBackend \<Rightarrow> string list \<Rightarrow> (world, TransportError, unit) rsm" where
  "dns_command self args =
     run_command (dns_runner self)
       \<lparr>program = tool_resolvectl (dns_backend_tools self), arguments = args\<rparr>"

text \<open>The closure whose first failing step ends the setup.\<close>

definition dns_setup ::
  "LinuxDnsBackend \<Rightarrow> string \<Rightarrow> DnsConfig \<Rightarrow> ConnectContext \<Rightarrow> (world, TransportError, unit) rsm" where
  "dns_setup self interface config context =
     seqE (dns_command self ([''dns'', interface] @ map show_ip (resolvers config)))
     (seqE (check context)
     (seqE (dns_command self [''domain'', interface, ''~.''])
     (seqE (check context)
     (dns_command self [''default-route'', interface, ''yes'']))))"

definition dns_configure ::
  "string \<Rightarrow> DnsConfig \<Rightarrow> ConnectContext \<Rightarrow> (LinuxDnsBackend \<times> world, TransportError, unit) rsm" where
  "dns_configure interface config context =
     bindE get_self (\<lambda>self.
     seqE (reject_if (dns_interface self \<noteq> None) AlreadyConnected)
     (seqE (reject_if (\<not> valid_interface interface) (InvalidConfig ''invalid DNS interface name''))
     (seqE (of_result (DnsConfig_validate config))
     (seqE (on_world (check context))
     (bindE (outcome_of (on_world (dns_setup self interface config context))) (\<lambda>setup_result.
      case setup_result of
        Inl setup_error \<Rightarrow>
          bindE (outcome_of (on_world (dns_command self [''revert'', interface]))) (\<lambda>cleanup.
          case cleanup of
            Inl cleanup_error \<Rightarrow>
              seqE (modify_self (dns_interface_update (\<lambda>_. Some interface)))
              (throw (Network (''DNS setup failed: '' @ TransportError_display setup_error
                 @ ''; cleanup failed: '' @ TransportError_display cleanup_error)))
          | Inr _ \<Rightarrow> throw setup_error)
      | Inr _ \<Rightarrow> modify_self (dns_interface_update (\<lambda>_. Some interface))))))))"

definition needs_revert :: "LinuxDnsBackend \<Rightarrow> bool" where
  "needs_revert self \<longleftrightarrow> dns_interface self \<noteq> None"

definition dns_revert :: "string \<Rightarrow> (LinuxDnsBackend \<times> world, TransportError, unit) rsm" where
  "dns_revert interface =
     bindE get_self (\<lambda>self.
     seqE (reject_if (dns_interface self \<noteq> Some interface) NotConnected)
     (seqE (on_world (dns_command self [''revert'', interface]))
     (modify_self (dns_interface_update (\<lambda>_. None)))))"

section \<open>Ownership\<close>

lemma dns_configure_ownership:
  "wp (dns_configure i config context)
     (\<lambda>_ t. dns_interface (fst s) = None \<and> dns_interface (fst t) = Some i)
     (\<lambda>_ t. dns_interface (fst t) = dns_interface (fst s) \<or> dns_interface (fst t) = Some i) s"
  unfolding dns_configure_def wp_simps
  by (auto simp: wp_simps intro!: wp_any [of _ _ "check context"] wp_any [of _ _ "dns_setup _ _ _ _"]
      wp_any [of _ _ "dns_command _ _"] split: sum.split)

lemma dns_revert_ownership:
  "wp (dns_revert i)
     (\<lambda>_ t. dns_interface (fst s) = Some i \<and> dns_interface (fst t) = None)
     (\<lambda>_ t. dns_interface (fst t) = dns_interface (fst s)) s"
  unfolding dns_revert_def wp_simps by (auto intro!: wp_any [of _ _ "dns_command _ _"])

section \<open>Resolver state that was not reverted\<close>

definition resolver_verbs :: "string list" where
  "resolver_verbs = [''dns'', ''domain'', ''default-route'']"

text \<open>
  A resolver command, even a failed one, may leave state on its interface; only a successful
  revert removes it.
\<close>

definition dns_effect :: "LinuxDnsBackend \<Rightarrow> event \<Rightarrow> string set \<Rightarrow> string set" where
  "dns_effect self ev touched =
     (case ev of
        CommandRun r c accepted \<Rightarrow>
          if r = dns_runner self \<and> program c = tool_resolvectl (dns_backend_tools self)
          then (case arguments c of
                  verb # i # _ \<Rightarrow>
                    if verb = ''revert'' then (if accepted then touched - {i} else touched)
                    else if verb \<in> set resolver_verbs then insert i touched else touched
                | _ \<Rightarrow> touched)
          else touched
      | _ \<Rightarrow> touched)"

definition touched :: "LinuxDnsBackend \<Rightarrow> world \<Rightarrow> string set" where
  "touched self w = fold (dns_effect self) (trace w) {}"

lemma touched_log [simp]:
  "touched self (log_event (CommandRun r c b) w) = dns_effect self (CommandRun r c b) (touched self w)"
  "touched self (log_event (ReadCancelled t b) w) = touched self w"
  "touched self (log_event (ReadInstant n) w) = touched self w"
  "touched self (cancel t w) = touched self w"
  by (simp_all add: touched_def dns_effect_def)

lemma touched_update [simp]: "touched (self\<lparr>dns_interface := i\<rparr>) w = touched self w"
proof -
  have "dns_effect (self\<lparr>dns_interface := i\<rparr>) = dns_effect self"
    by (auto simp: dns_effect_def fun_eq_iff split: event.split)
  then show ?thesis by (simp add: touched_def)
qed

text \<open>Everything touched is on the interface the backend remembers.\<close>

definition dns_inv :: "LinuxDnsBackend \<times> world \<Rightarrow> bool" where
  "dns_inv s \<longleftrightarrow> touched (fst s) (snd s) \<subseteq> set_option (dns_interface (fst s))"

lemma wp_dns_command:
  assumes "touched self w = T"
    and "\<And>w'. touched self w' = dns_effect self (CommandRun (dns_runner self)
       \<lparr>program = tool_resolvectl (dns_backend_tools self), arguments = args\<rparr> True) T \<Longrightarrow> Q () w'"
    and "\<And>e w'. touched self w' = dns_effect self (CommandRun (dns_runner self)
       \<lparr>program = tool_resolvectl (dns_backend_tools self), arguments = args\<rparr> False) T \<Longrightarrow> E e w'"
  shows "wp (dns_command self args) Q E w"
  using assms by (auto simp: dns_command_def wp_simps split: sum.splits)

lemma wp_check_touched:
  assumes "touched self w = T"
    and "\<And>w'. touched self w' = T \<Longrightarrow> Q () w'" and "\<And>e w'. touched self w' = T \<Longrightarrow> E e w'"
  shows "wp (check context) Q E w"
  using assms by (auto simp: check_def wp_simps Let_def)

lemma dns_setup_touched:
  assumes "touched self w \<subseteq> {i}"
  shows "always (dns_setup self i config context) (\<lambda>w'. touched self w' \<subseteq> {i}) w"
  using assms unfolding dns_setup_def wp_simps
  by (auto simp: dns_effect_def resolver_verbs_def intro!: wp_dns_command wp_check_touched [where self = self])

lemma dns_configure_law:
  assumes "dns_inv s"
  shows "wp (dns_configure i config context)
    (\<lambda>_ t. dns_inv t \<and> dns_interface (fst s) = None \<and> dns_interface (fst t) = Some i)
    (\<lambda>_ t. dns_inv t \<and> (dns_interface (fst t) = dns_interface (fst s) \<or> dns_interface (fst t) = Some i)) s"
proof -
  obtain d w where s: "s = (d, w)" by fastforce
  have d: "touched d w \<subseteq> set_option (dns_interface d)" using assms by (simp add: dns_inv_def s)
  have touched_only: "always (dns_setup d i config context) (\<lambda>w'. touched d w' \<subseteq> {i}) w'"
    if "touched d w' = {}" for w'
    using dns_setup_touched [of d w' i config "context"] that by simp
  have gate: "wp (check context) (\<lambda>_ w'. touched d w' = touched d w) (\<lambda>_ w'. touched d w' = touched d w) w"
    by (rule wp_check_touched [OF refl])
  show ?thesis
    using d unfolding dns_configure_def s wp_simps
    by (auto simp: dns_inv_def wp_simps dns_effect_def intro!: wp_mono [OF gate] wp_mono [OF touched_only] wp_dns_command
        split: sum.split)
qed

lemma dns_revert_law:
  assumes "dns_inv s"
  shows "wp (dns_revert i)
    (\<lambda>_ t. dns_inv t \<and> dns_interface (fst s) = Some i \<and> dns_interface (fst t) = None \<and> touched (fst t) (snd t) = {})
    (\<lambda>_ t. dns_inv t \<and> dns_interface (fst t) = dns_interface (fst s)) s"
proof -
  obtain d w where s: "s = (d, w)" by fastforce
  show ?thesis
    using assms unfolding dns_revert_def wp_simps s
    by (auto simp: dns_inv_def dns_effect_def intro!: wp_dns_command)
qed

lemma dns_frame [frame_intros]:
  assumes "\<And>r c b. P (CommandRun r c b)" and "\<And>t b. P (ReadCancelled t b)" and "\<And>t. P (ReadInstant t)"
  shows "only P (dns_configure i config c)" "only P (dns_revert i)"
  unfolding dns_configure_def dns_revert_def dns_setup_def dns_command_def
  using assms by (intro frame_intros; simp)+

section \<open>Properties\<close>

text \<open>
  C11. Resolver state is never forgotten.  Starting from a backend that remembers every interface
  with resolver state, an attempt to configure an interface ends, whatever fails, in such a
  backend again: it either remembers the interface or the last revert on it succeeded.
\<close>

theorem dns_configure_never_forgets:
  assumes "touched d w \<subseteq> set_option (dns_interface d)"
    and "dns_configure i config context (d, w) = (r, (d', w'))"
  shows "touched d' w' \<subseteq> set_option (dns_interface d') \<and>
    (if is_ok r then dns_interface d' = Some i
     else needs_revert d' \<longrightarrow> dns_interface d' = dns_interface d \<or> dns_interface d' = Some i)"
  using wp_resultD [OF dns_configure_law [of "(d, w)"] assms(2)] assms(1)
  by (cases r) (auto simp: dns_inv_def needs_revert_def)

text \<open>
  C12. A successful revert leaves no resolver state behind, and a failed one still remembers the
  interface, so that it can be repeated; reverting a foreign interface runs nothing.
\<close>

theorem dns_revert_is_complete:
  assumes "touched d w \<subseteq> set_option (dns_interface d)"
    and "dns_revert i (d, w) = (r, (d', w'))"
  shows "(if is_ok r then touched d' w' = {} \<and> dns_interface d' = None
     else touched d' w' \<subseteq> set_option (dns_interface d') \<and> dns_interface d' = dns_interface d) \<and>
    (dns_interface d \<noteq> Some i \<longrightarrow> r = Inl NotConnected \<and> d' = d \<and> w' = w)"
proof -
  have "dns_interface d \<noteq> Some i \<Longrightarrow> r = Inl NotConnected \<and> d' = d \<and> w' = w"
    using assms(2) by (simp add: dns_revert_def bindE_def seqE_def get_self_def reject_if_def throw_def)
  then show ?thesis
    using wp_resultD [OF dns_revert_law [of "(d, w)"] assms(2)] assms(1)
    by (cases r) (auto simp: dns_inv_def)
qed

definition example_dns :: LinuxDnsBackend where
  "example_dns =
     \<lparr>dns_backend_tools = \<lparr>tool_resolvectl = ''/usr/bin/resolvectl''\<rparr>, dns_runner = 1, dns_interface = None\<rparr>"

definition example_dns_config :: DnsConfig where
  "example_dns_config = \<lparr>resolvers = [V4 0x0A140001]\<rparr>"

lemma example_dns_valid:
  "DnsConfig_validate example_dns_config = ok" "valid_interface ''cyberia0''"
  by (simp_all add: DnsConfig_validate_def example_dns_config_def octets_def valid_interface_def interface_char_def
      is_ascii_alphanumeric_def is_ascii_digit_def)

lemma wp_dns_favourable:
  assumes "favourable (dns_runner self) context w"
    and "\<And>w'. favourable (dns_runner self) context w' \<Longrightarrow> Q () w'"
  shows "wp (dns_command self args) Q E w"
  using assms wp_run_favourable by (simp add: dns_command_def)

lemma dns_configure_favourable:
  assumes "favourable (dns_runner (fst s)) context (snd s)" and "dns_interface (fst s) = None"
    and "valid_interface i" and "DnsConfig_validate config = ok"
  shows "wp (dns_configure i config context) (\<lambda>_ t. favourable (dns_runner (fst s)) context (snd t)) (\<lambda>_ _. False) s"
  using assms unfolding dns_configure_def dns_setup_def wp_simps
  by (auto simp: wp_simps intro!: wp_check_favourable wp_dns_favourable)

lemma example_configured:
  obtains d' w' where "dns_configure ''cyberia0'' example_dns_config \<lparr>deadline = 5000, cancellation = 0\<rparr>
    (example_dns, calm_world) = (ok, (d', w'))"
  using dns_configure_favourable [of "(example_dns, calm_world)" "\<lparr>deadline = 5000, cancellation = 0\<rparr>"
      "''cyberia0''" example_dns_config] example_dns_valid
  by (cases "dns_configure ''cyberia0'' example_dns_config \<lparr>deadline = 5000, cancellation = 0\<rparr>
      (example_dns, calm_world)")
    (auto simp: wp_def favourable_def example_dns_def split: sum.splits prod.splits)

lemma example_untouched: "touched example_dns calm_world \<subseteq> set_option (dns_interface example_dns)"
  by (simp add: touched_def)

theorem dns_configure_never_forgets_witness:
  "\<exists>d' w'. dns_configure ''cyberia0'' example_dns_config \<lparr>deadline = 5000, cancellation = 0\<rparr>
      (example_dns, calm_world) = (ok, (d', w')) \<and> touched d' w' \<subseteq> {''cyberia0''}"
proof -
  obtain d' w' where run: "dns_configure ''cyberia0'' example_dns_config \<lparr>deadline = 5000, cancellation = 0\<rparr>
      (example_dns, calm_world) = (ok, (d', w'))"
    by (rule example_configured)
  show ?thesis using dns_configure_never_forgets [OF example_untouched run] run by auto
qed

text \<open>Before a setup there is nothing to revert; after it a revert leaves nothing.\<close>

theorem dns_revert_is_complete_witness:
  "(\<exists>d'. dns_revert ''cyberia0'' (example_dns, calm_world) = (Inl NotConnected, (d', calm_world))) \<and>
   (\<exists>d w d' w'. dns_interface d = Some ''cyberia0'' \<and> dns_revert ''cyberia0'' (d, w) = (ok, (d', w')) \<and>
      touched d' w' = {} \<and> dns_interface d' = None)"
proof
  obtain r d' w' where run: "dns_revert ''cyberia0'' (example_dns, calm_world) = (r, (d', w'))"
    by (metis prod.exhaust)
  have "dns_interface example_dns \<noteq> Some ''cyberia0''" by (simp add: example_dns_def)
  then show "\<exists>d'. dns_revert ''cyberia0'' (example_dns, calm_world) = (Inl NotConnected, (d', calm_world))"
    using dns_revert_is_complete [OF example_untouched run] run by auto
next
  let ?c = "\<lparr>deadline = 5000, cancellation = 0\<rparr>"
  obtain d w where up: "dns_configure ''cyberia0'' example_dns_config ?c (example_dns, calm_world) = (ok, (d, w))"
    by (rule example_configured)
  have own: "dns_interface d = Some ''cyberia0''" "touched d w \<subseteq> set_option (dns_interface d)"
    using wp_resultD [OF dns_configure_law up] example_untouched by (auto simp: dns_inv_def)
  have "os w = os calm_world"
    using onlyD [OF dns_frame(1) [of "\<lambda>_. True"] up] by (simp add: extends_def)
  then have "\<exists>t. dns_revert ''cyberia0'' (d, w) = (ok, t)"
    using own(1)
    by (simp add: dns_revert_def dns_command_def run_command_def bindE_def seqE_def get_self_def reject_if_def
        ret_def throw_def on_world_def modify_self_def Let_def)
  then obtain d' w' where run: "dns_revert ''cyberia0'' (d, w) = (ok, (d', w'))" by (metis prod.exhaust)
  show "\<exists>d w d' w'. dns_interface d = Some ''cyberia0'' \<and> dns_revert ''cyberia0'' (d, w) = (ok, (d', w')) \<and>
      touched d' w' = {} \<and> dns_interface d' = None"
    using dns_revert_is_complete [OF own(2) run] own(1) run by auto
qed

end
