(* ===== verification/Linux_Connection.thy ===== *)
theory Linux_Connection
  imports Nftables Linux_Ownership Linux_Dns
begin

text \<open>
  \<^verbatim>\<open>core/killswitch/src/linux_connection.rs\<close>: one managed connection, composed of the
  controller over the WireGuard adapter and the nftables firewall, and the resolver backend.

  \<^verbatim>\<open>Instant + Duration\<close> panics when the sum is not representable; the panic is the
  \<open>Panic\<close> outcome of a connect.
\<close>

section \<open>State\<close>

type_synonym LinuxAdapter = "LinuxWireGuardBackend WireGuardAdapter"
type_synonym LinuxController = "(LinuxAdapter, NftablesBackend) ConnectionController"

record LinuxConnectionSettings =
  settings_interface :: string
  settings_profile :: WireGuardConfig
  settings_dns :: DnsConfig
  settings_tools :: LinuxTools
  settings_dns_tools :: LinuxDnsTools
  settings_routing_mark :: u32
  settings_connect_timeout :: Duration
  settings_always_on :: bool

record LinuxWireGuardConnection =
  controller :: LinuxController
  conn_dns :: LinuxDnsBackend
  dns_config :: DnsConfig
  conn_interface :: string
  conn_transport :: TransportConfig

datatype LinuxConnectionBuildError =
    EndpointMustBeIpAddress
  | BuildFirewall FirewallError
  | BuildNftables NftablesError
  | BuildTransport TransportError

fun BuildError_display :: "LinuxConnectionBuildError \<Rightarrow> string" where
  "BuildError_display EndpointMustBeIpAddress = ''Linux WireGuard endpoint must be an IP address''"
| "BuildError_display (BuildFirewall e) = FirewallError_display e"
| "BuildError_display (BuildNftables e) = NftablesError_display e"
| "BuildError_display (BuildTransport e) = TransportError_display e"

section \<open>Operations\<close>

definition adapter_transport :: "'b WireGuardBackend \<Rightarrow> 'b WireGuardAdapter Transport" where
  "adapter_transport ops =
     \<lparr>transport_connect = adapter_connect ops, transport_disconnect = adapter_disconnect ops,
      transport_health = adapter_health ops\<rparr>"

abbreviation linux_transport :: "LinuxAdapter Transport" where
  "linux_transport \<equiv> adapter_transport linux_ops"

definition with_runners ::
  "LinuxConnectionSettings \<Rightarrow> runner \<Rightarrow> runner \<Rightarrow> runner
    \<Rightarrow> (world, LinuxConnectionBuildError, LinuxWireGuardConnection) rsm" where
  "with_runners settings command_runner dns_run nftables_runner =
     (let ep = wg_endpoint (settings_profile settings)
      in case parse_ip (host ep) of
           None \<Rightarrow> throw EndpointMustBeIpAddress
         | Some addr \<Rightarrow>
             (let tc = \<lparr>kind = WireGuard, endpoint = ep,
                        connect_timeout = settings_connect_timeout settings\<rparr>
              in seqE (map_err BuildTransport (of_result (TransportConfig_validate tc)))
                (seqE (map_err BuildTransport (of_result (DnsConfig_validate (settings_dns settings))))
                (bindE (map_err BuildTransport (LinuxWireGuardBackend_new (settings_tools settings)
                    command_runner (settings_routing_mark settings))) (\<lambda>b.
                 bindE (map_err BuildTransport (of_result (WireGuardAdapter_new
                    (settings_interface settings) (settings_profile settings) b))) (\<lambda>adapter.
                 bindE (map_err BuildTransport (LinuxDnsBackend_new (settings_dns_tools settings) dns_run)) (\<lambda>dns.
                 let fw = NftablesBackend_new
                       \<lparr>endpoint_address = addr, endpoint_port = port ep\<rparr> nftables_runner;
                     ks = KillSwitch_enable (KillSwitch_new (settings_always_on settings))
                 in bindE (map_err BuildFirewall (ConnectionController_new nft_firewall ks adapter fw)) (\<lambda>ctl.
                   ret \<lparr>controller = ctl, conn_dns = dns, dns_config = settings_dns settings,
                        conn_interface = settings_interface settings, conn_transport = tc\<rparr>))))))))"

definition system_connection ::
  "LinuxConnectionSettings \<Rightarrow> path \<Rightarrow> runner \<Rightarrow> runner \<Rightarrow> runner
    \<Rightarrow> (world, LinuxConnectionBuildError, LinuxWireGuardConnection) rsm" where
  "system_connection settings nft_executable command_runner dns_run nftables_runner =
     seqE (map_err BuildNftables (SystemNftablesRunner_new nft_executable))
     (with_runners settings command_runner dns_run nftables_runner)"

abbreviation on_controller ::
  "(LinuxController \<times> world, 'e, 'a) rsm \<Rightarrow> (LinuxWireGuardConnection \<times> world, 'e, 'a) rsm" where
  "on_controller \<equiv> on_field controller (\<lambda>c. controller_update (\<lambda>_. c))"

abbreviation on_dns ::
  "(LinuxDnsBackend \<times> world, 'e, 'a) rsm \<Rightarrow> (LinuxWireGuardConnection \<times> world, 'e, 'a) rsm" where
  "on_dns \<equiv> on_field conn_dns (\<lambda>d. conn_dns_update (\<lambda>_. d))"

text \<open>The recovery after a failed resolver setup.\<close>

definition undo_connect ::
  "TransportError \<Rightarrow> (LinuxWireGuardConnection \<times> world, ConnectionError, Session) rsm" where
  "undo_connect dns_error =
     bindE get_self (\<lambda>self.
     seqE (if needs_revert (conn_dns self)
           then bindE (outcome_of (on_dns (dns_revert (conn_interface self)))) (\<lambda>cleanup.
             case cleanup of
               Inl cleanup_error \<Rightarrow>
                 throw (TransportFailed (Network (''DNS setup failed: '' @ TransportError_display dns_error
                   @ ''; cleanup retry failed: '' @ TransportError_display cleanup_error)))
             | Inr _ \<Rightarrow> ret ())
           else ret ())
     (bindE (outcome_of (on_controller (controller_disconnect linux_transport nft_firewall))) (\<lambda>down.
      case down of
        Inr _ \<Rightarrow> throw (TransportFailed dns_error)
      | Inl cleanup_error \<Rightarrow>
          throw (TransportFailed (Network (''DNS setup failed: '' @ TransportError_display dns_error
            @ ''; tunnel cleanup failed: '' @ ConnectionError_display cleanup_error))))))"

definition connection_connect ::
  "CancellationToken \<Rightarrow> (LinuxWireGuardConnection \<times> world, ConnectionError fault, Session) rsm" where
  "connection_connect token =
     bindE get_self (\<lambda>self.
     bindE (on_world instant_now) (\<lambda>now.
     case instant_checked_add now (connect_timeout (conn_transport self)) of
       None \<Rightarrow> throw Panic
     | Some limit \<Rightarrow>
         (let context = \<lparr>deadline = limit, cancellation = token\<rparr>
          in map_err Error
            (bindE (on_controller (controller_connect linux_transport nft_firewall (conn_transport self) context))
             (\<lambda>session.
              bindE (outcome_of (on_dns (dns_configure (conn_interface self) (dns_config self) context)))
              (\<lambda>configured.
               case configured of
                 Inl dns_error \<Rightarrow> undo_connect dns_error
               | Inr _ \<Rightarrow> ret session))))))"

definition connection_disconnect :: "(LinuxWireGuardConnection \<times> world, ConnectionError, unit) rsm" where
  "connection_disconnect =
     bindE get_self (\<lambda>self.
     seqE (map_err TransportFailed (on_dns (dns_revert (conn_interface self))))
     (on_controller (controller_disconnect linux_transport nft_firewall)))"

definition connection_health :: "(LinuxWireGuardConnection \<times> world, TransportError, TransportHealth) rsm" where
  "connection_health = on_controller (controller_health linux_transport)"

definition connection_policy :: "LinuxWireGuardConnection \<Rightarrow> TrafficPolicy" where
  "connection_policy self = policy (kill_switch (controller self))"

definition connection_disable :: "(LinuxWireGuardConnection \<times> world, ConnectionError, unit) rsm" where
  "connection_disable = on_controller (controller_disable nft_firewall)"

section \<open>The adapter is a transport\<close>

sublocale wireguard_backend \<subseteq> as_transport: transport_contract "adapter_transport ops"
  "\<lambda>a. adapter_inv active a \<and> adapter_interface a = i" connected i P
  for i :: string
proof unfold_locales
  fix s :: "'b WireGuardAdapter \<times> world" and config c
  assume inv: "adapter_inv active (fst s) \<and> adapter_interface (fst s) = i"
  show "wp (transport_connect (adapter_transport ops) config c)
      (\<lambda>session t. (adapter_inv active (fst t) \<and> adapter_interface (fst t) = i) \<and> \<not> connected (fst s) \<and>
         connected (fst t) \<and> session_named i session)
      (\<lambda>_ t. (adapter_inv active (fst t) \<and> adapter_interface (fst t) = i) \<and> connected (fst t) = connected (fst s)) s"
    unfolding adapter_transport_def using inv
    by (auto simp: same_identity_def session_named_def intro!: wp_mono [OF connect_law])
  show "wp (transport_disconnect (adapter_transport ops))
      (\<lambda>_ t. (adapter_inv active (fst t) \<and> adapter_interface (fst t) = i) \<and> \<not> connected (fst t))
      (\<lambda>_ t. (adapter_inv active (fst t) \<and> adapter_interface (fst t) = i) \<and> connected (fst t) = connected (fst s)) s"
    unfolding adapter_transport_def using inv
    by (auto simp: same_identity_def intro!: wp_mono [OF disconnect_law])
  show "wp (transport_health (adapter_transport ops))
      (\<lambda>_ t. (adapter_inv active (fst t) \<and> adapter_interface (fst t) = i) \<and> connected (fst t) = connected (fst s))
      (\<lambda>_ _. False) s"
    unfolding adapter_transport_def using inv
    by (auto simp: same_identity_def intro!: wp_mono [OF adapter_health_law])
next
  fix s :: "'b WireGuardAdapter \<times> world"
  assume "\<not> connected (fst s)"
  then show "transport_disconnect (adapter_transport ops) s = (Inl NotConnected, s)"
    "snd (snd (transport_health (adapter_transport ops) s)) = snd s"
    by (simp_all add: adapter_transport_def adapter_disconnect_def adapter_health_def bindE_def seqE_def
        get_self_def reject_if_def throw_def ret_def)
qed (auto simp: adapter_transport_def intro: adapter_frame)

interpretation linux_ctl: controller_contract nft_firewall "\<lambda>f. nft_runner f = r \<and> nft_config f = cfg"
  "in_force r cfg" tunnel_event linux_transport
  "\<lambda>a. adapter_inv active_interface a \<and> adapter_interface a = i" connected i
  for r cfg and i :: string
  by unfold_locales (auto simp: tunnel_command_def split: event.splits)

section \<open>The connection's invariant\<close>

abbreviation ctl_inv :: "runner \<Rightarrow> NftablesConfig \<Rightarrow> string \<Rightarrow> LinuxController \<times> world \<Rightarrow> bool" where
  "ctl_inv r cfg i \<equiv> controller_inv (\<lambda>f. nft_runner f = r \<and> nft_config f = cfg) (in_force r cfg)
     (\<lambda>a. adapter_inv active_interface a \<and> adapter_interface a = i) connected i"

text \<open>Resolver state is only owned while the tunnel is connected.\<close>

definition dns_owned :: "LinuxDnsBackend \<Rightarrow> LinuxController \<Rightarrow> string \<Rightarrow> bool" where
  "dns_owned d c i \<longleftrightarrow>
     dns_interface d = None \<or> dns_interface d = Some i \<and> connected (transport c)"

lemma dns_ownedI: "dns_interface d = Some i \<Longrightarrow> connected (transport c) \<Longrightarrow> dns_owned d c i"
  by (simp add: dns_owned_def)

definition connection_inv :: "runner \<Rightarrow> NftablesConfig \<Rightarrow> LinuxWireGuardConnection \<times> world \<Rightarrow> bool" where
  "connection_inv r cfg s \<longleftrightarrow>
     ctl_inv r cfg (conn_interface (fst s)) (controller (fst s), snd s) \<and>
     dns_owned (conn_dns (fst s)) (controller (fst s)) (conn_interface (fst s))"

lemma connected_filtered:
  assumes "ctl_inv r cfg i (c, w)" and "connected (transport c)"
  shows "policy (kill_switch c) \<noteq> Disabled"
  using assms by (auto simp: controller_inv_def Let_def)

lemma configure_step:
  assumes "ctl_inv r cfg i (c, w)" and "connected (transport c)" and "dns_owned d c i"
  shows "wp (dns_configure i config context)
    (\<lambda>_ t. ctl_inv r cfg i (c, snd t) \<and> dns_interface (fst t) = Some i)
    (\<lambda>_ t. ctl_inv r cfg i (c, snd t) \<and> dns_owned (fst t) c i) (d, w)"
proof -
  have "only tunnel_event (dns_configure i config context)" by (intro frame_intros) simp_all
  then have "always (dns_configure i config context) (\<lambda>t. extends tunnel_event w (snd t)) (d, w)"
    unfolding only_def by (metis snd_conv)
  from wp_conj [OF dns_configure_ownership this] show ?thesis
    by (rule wp_mono)
      (use assms connected_filtered [OF assms(1,2)] linux_ctl.inv_extends in \<open>auto simp: dns_owned_def\<close>)
qed

lemma revert_step:
  assumes "ctl_inv r cfg i (c, w)" and "dns_owned d c i"
  shows "wp (dns_revert i)
    (\<lambda>_ t. ctl_inv r cfg i (c, snd t) \<and> dns_interface (fst t) = None \<and> connected (transport c))
    (\<lambda>_ t. ctl_inv r cfg i (c, snd t) \<and> dns_owned (fst t) c i) (d, w)"
proof (cases "dns_interface d = Some i")
  case True
  have "only tunnel_event (dns_revert i)" by (intro frame_intros) simp_all
  then have "always (dns_revert i) (\<lambda>t. extends tunnel_event w (snd t)) (d, w)"
    unfolding only_def by (metis snd_conv)
  from wp_conj [OF dns_revert_ownership this] show ?thesis
    by (rule wp_mono)
      (use assms True connected_filtered [OF assms(1)] linux_ctl.inv_extends in \<open>auto simp: dns_owned_def\<close>)
next
  case False
  then show ?thesis using assms by (simp add: dns_revert_def wp_simps)
qed

lemma disconnect_step:
  assumes "connection_inv r cfg s"
  shows "wp connection_disconnect
    (\<lambda>_ t. connection_inv r cfg t \<and> \<not> connected (transport (controller (fst t))) \<and>
       (connection_policy (fst s) \<noteq> Disabled \<longrightarrow> connection_policy (fst t) = BlockNonTunnel))
    (\<lambda>_ t. connection_inv r cfg t \<and>
       (connection_policy (fst t) = connection_policy (fst s) \<or> connection_policy (fst t) = BlockNonTunnel)) s"
proof -
  obtain c w where s: "s = (c, w)" by fastforce
  have c: "ctl_inv r cfg (conn_interface c) (controller c, w)"
    "dns_owned (conn_dns c) (controller c) (conn_interface c)"
    using assms by (simp_all add: connection_inv_def s)
  show ?thesis
    unfolding connection_disconnect_def wp_simps s
    apply (rule wp_mono [OF revert_step [where c = "controller c"]])
    using c apply (simp_all add: connection_inv_def connection_policy_def)
    apply (rule wp_mono [OF linux_ctl.disconnect_inv [where r = r and cfg = cfg and i = "conn_interface c"]])
    apply (auto simp: dns_owned_def)
    done
qed

lemma undo_step:
  assumes "connection_inv r cfg s"
  shows "wp (undo_connect e) (\<lambda>_ _. False)
    (\<lambda>_ t. connection_inv r cfg t \<and>
       (connection_policy (fst t) = connection_policy (fst s) \<or> connection_policy (fst t) = BlockNonTunnel)) s"
proof -
  obtain c w where s: "s = (c, w)" by fastforce
  have c: "ctl_inv r cfg (conn_interface c) (controller c, w)"
    "dns_owned (conn_dns c) (controller c) (conn_interface c)"
    using assms by (simp_all add: connection_inv_def s)
  have down: "wp (controller_disconnect linux_transport nft_firewall)
      (\<lambda>_ t. ctl_inv r cfg (conn_interface c) t \<and>
         (policy (kill_switch (fst t)) = policy (kill_switch (controller c)) \<or> policy (kill_switch (fst t)) = BlockNonTunnel))
      (\<lambda>_ t. ctl_inv r cfg (conn_interface c) t \<and>
         (policy (kill_switch (fst t)) = policy (kill_switch (controller c)) \<or> policy (kill_switch (fst t)) = BlockNonTunnel))
      (controller c, w')" if "ctl_inv r cfg (conn_interface c) (controller c, w')" for w'
    by (rule wp_mono [OF linux_ctl.disconnect_inv [OF that]]) auto
  show ?thesis
    using c unfolding undo_connect_def wp_simps s
    by (auto simp: wp_simps connection_inv_def connection_policy_def needs_revert_def dns_owned_def
        intro!: wp_mono [OF revert_step [where c = "controller c"]] wp_mono [OF down] split: sum.split)
qed

text \<open>
  What a connect leaves: on success the tunnel policy of the interface and owned resolver state;
  on failure a policy that is never weaker than before, unless arming itself failed.
\<close>

lemma connect_step:
  assumes "connection_inv r cfg s"
  shows "wp (connection_connect token)
    (\<lambda>session t. connection_inv r cfg t \<and> connection_policy (fst t) = TunnelOnly (conn_interface (fst t)) \<and>
       connected (transport (controller (fst t))) \<and> needs_revert (conn_dns (fst t)))
    (\<lambda>e t. connection_inv r cfg t \<and>
       (connection_policy (fst t) \<noteq> Disabled \<or>
        connection_policy (fst t) = connection_policy (fst s) \<and> (e = Panic \<or> (\<exists>f. e = Error (FirewallFailed f))))) s"
proof -
  obtain c w where s: "s = (c, w)" by fastforce
  let ?i = "conn_interface c"
  have c: "ctl_inv r cfg ?i (controller c, w)" "dns_owned (conn_dns c) (controller c) ?i"
    using assms by (simp_all add: connection_inv_def s)
  have tick: "ctl_inv r cfg ?i (controller c, log_event (ReadInstant n) w)" for n
    by (rule linux_ctl.inv_idle [OF c(1)]) (auto intro!: extends_log simp: tunnel_command_def)
  have undo: "wp (undo_connect e) (\<lambda>_ _. False) (\<lambda>_ t. connection_inv r cfg t \<and> connection_policy (fst t) \<noteq> Disabled) (c', w')"
    if "connection_inv r cfg (c', w')" "connection_policy c' = TunnelOnly j" for e c' w' j
    by (rule wp_mono [OF undo_step [OF that(1)]]) (use that(2) in auto)
  have up: "wp (controller_connect linux_transport nft_firewall config context)
      (\<lambda>session t. ctl_inv r cfg ?i t \<and> connected (transport (fst t)) \<and> dns_owned (conn_dns c) (fst t) ?i \<and>
         policy (kill_switch (fst t)) = TunnelOnly ?i)
      (\<lambda>e t. ctl_inv r cfg ?i t \<and> dns_owned (conn_dns c) (fst t) ?i \<and>
         (policy (kill_switch (fst t)) \<noteq> Disabled \<or>
          policy (kill_switch (fst t)) = policy (kill_switch (controller c)) \<and> (\<exists>f. e = FirewallFailed f)))
      (controller c, log_event (ReadInstant n) w)" for config "context" n
    by (rule wp_mono [OF linux_ctl.connect_inv [OF tick]]) (use c(2) in \<open>auto simp: dns_owned_def\<close>)
  show ?thesis
    unfolding connection_connect_def wp_simps s Let_def
    by (auto simp: wp_simps tick c connection_inv_def connection_policy_def needs_revert_def
        intro!: wp_mono [OF up] wp_mono [OF configure_step] wp_mono [OF undo] intro: dns_ownedI split: option.split sum.split)
qed

lemma disable_step:
  assumes "connection_inv r cfg s"
  shows "wp connection_disable
    (\<lambda>_ t. connection_inv r cfg t \<and> \<not> connected (transport (controller (fst t))) \<and> connection_policy (fst t) = Disabled)
    (\<lambda>_ t. connection_inv r cfg t \<and> connection_policy (fst t) = connection_policy (fst s)) s"
proof -
  obtain c w where s: "s = (c, w)" by fastforce
  show ?thesis
    using assms unfolding connection_disable_def wp_simps s connection_inv_def connection_policy_def
    by (auto simp: dns_owned_def intro!: wp_mono [OF linux_ctl.disable_inv])
qed

lemma health_step:
  assumes "connection_inv r cfg s"
  shows "wp connection_health
    (\<lambda>_ t. connection_inv r cfg t \<and> connection_policy (fst t) = connection_policy (fst s)) (\<lambda>_ _. False) s"
proof -
  obtain c w where s: "s = (c, w)" by fastforce
  show ?thesis
    using assms unfolding connection_health_def wp_simps s connection_inv_def connection_policy_def
    by (auto simp: dns_owned_def intro!: wp_mono [OF linux_ctl.controller_health_inv])
qed

section \<open>Reachable states\<close>

text \<open>Any sequence of calls, with signals arriving in between.\<close>

inductive conn_step :: "LinuxWireGuardConnection \<times> world \<Rightarrow> LinuxWireGuardConnection \<times> world \<Rightarrow> bool" where
  connect: "connection_connect token s = (r, t) \<Longrightarrow> conn_step s t"
| disconnect: "connection_disconnect s = (r, t) \<Longrightarrow> conn_step s t"
| disable: "connection_disable s = (r, t) \<Longrightarrow> conn_step s t"
| health: "connection_health s = (r, t) \<Longrightarrow> conn_step s t"
| signal: "conn_step (c, w) (c, cancel token w)"

inductive conn_reachable ::
  "LinuxConnectionSettings \<Rightarrow> runner \<Rightarrow> runner \<Rightarrow> runner \<Rightarrow> world \<Rightarrow> LinuxWireGuardConnection \<times> world \<Rightarrow> bool"
  for settings cr dr nr w0 where
  start: "with_runners settings cr dr nr w0 = (Inr c, w) \<Longrightarrow> conn_reachable settings cr dr nr w0 (c, w)"
| step: "conn_reachable settings cr dr nr w0 s \<Longrightarrow> conn_step s t \<Longrightarrow> conn_reachable settings cr dr nr w0 t"

inductive_cases conn_stepE: "conn_step s t"

definition settings_nft :: "LinuxConnectionSettings \<Rightarrow> NftablesConfig" where
  "settings_nft settings =
     \<lparr>endpoint_address = the (parse_ip (host (wg_endpoint (settings_profile settings)))),
      endpoint_port = port (wg_endpoint (settings_profile settings))\<rparr>"

lemma conn_step_inv:
  assumes "conn_step s t" and "connection_inv r cfg s"
  shows "connection_inv r cfg t"
  using assms
proof (cases rule: conn_step.cases)
  case (signal c w token)
  then show ?thesis
    using assms(2) linux_ctl.inv_idle [of r cfg "conn_interface c" "controller c" w "cancel token w"]
    by (auto simp: connection_inv_def intro: extends_cancel)
qed (use assms(2) in \<open>auto dest: wp_resultD [OF connect_step [OF assms(2)]] wp_resultD [OF disconnect_step [OF assms(2)]]
    wp_resultD [OF disable_step [OF assms(2)]] wp_resultD [OF health_step [OF assms(2)]] split: sum.splits\<close>)

section \<open>Construction\<close>

lemma guarded_extends:
  assumes "extends (\<lambda>ev. \<not> tunnel_command ev) w w'" and "guarded E (trace w)"
  shows "guarded E (trace w')"
  using assms by (auto elim!: extendsE intro!: guarded_append)

lemma backend_new_law:
  assumes "guarded E (trace w)"
  shows "wp (LinuxWireGuardBackend_new tools r mark)
    (\<lambda>b w'. active_interface b = None \<and> backend_runner b = r \<and> guarded E (trace w')) (\<lambda>_ _. True) w"
proof -
  have "onlyW (\<lambda>ev. \<not> tunnel_command ev) (LinuxWireGuardBackend_new tools r mark)"
    unfolding LinuxWireGuardBackend_new_def by (intro frame_intros) (simp add: tunnel_command_def)
  moreover have "wp (LinuxWireGuardBackend_new tools r mark)
      (\<lambda>b w'. active_interface b = None \<and> backend_runner b = r) (\<lambda>_ _. True) w"
    unfolding LinuxWireGuardBackend_new_def wp_simps by (auto intro!: wp_any)
  ultimately show ?thesis
    using assms unfolding onlyW_def by (auto intro: guarded_extends wp_mono [OF wp_conj])
qed

lemma dns_new_law:
  assumes "guarded E (trace w)"
  shows "wp (LinuxDnsBackend_new tools r) (\<lambda>d w'. dns_interface d = None \<and> guarded E (trace w')) (\<lambda>_ _. True) w"
proof -
  have "onlyW (\<lambda>ev. \<not> tunnel_command ev) (LinuxDnsBackend_new tools r)"
    unfolding LinuxDnsBackend_new_def by (intro frame_intros) (simp add: tunnel_command_def)
  moreover have "wp (LinuxDnsBackend_new tools r) (\<lambda>d w'. dns_interface d = None) (\<lambda>_ _. True) w"
    unfolding LinuxDnsBackend_new_def wp_simps by (auto intro!: wp_any)
  ultimately show ?thesis
    using assms unfolding onlyW_def by (auto intro: guarded_extends wp_mono [OF wp_conj])
qed

lemma controller_new_law:
  assumes "guarded (in_force nr cfg) (trace w)" and "adapter_inv active_interface a" and "\<not> connected a"
    and "nft_runner f = nr" and "nft_config f = cfg" and "policy k = BlockNonTunnel"
  shows "wp (ConnectionController_new nft_firewall k a f)
    (\<lambda>c w'. ctl_inv nr cfg (adapter_interface a) (c, w') \<and> kill_switch c = k \<and> transport c = a) (\<lambda>_ _. True) w"
  using assms linux_ctl.inv_init [where r = nr and cfg = cfg and i = "adapter_interface a" and k = k and t = a and f = f and w = w]
  by (auto intro!: wpI)

lemma with_runners_law:
  assumes "guarded (in_force nr (settings_nft settings)) (trace w)"
  shows "wp (with_runners settings cr dr nr)
    (\<lambda>c w'. connection_inv nr (settings_nft settings) (c, w') \<and> connection_policy c = BlockNonTunnel \<and>
       \<not> connected (transport (controller c)) \<and> dns_interface (conn_dns c) = None \<and>
       always_on (kill_switch (controller c)) = settings_always_on settings \<and>
       conn_interface c = settings_interface settings) (\<lambda>_ _. True) w"
  using assms unfolding with_runners_def Let_def wp_simps
  by (auto simp: wp_simps connection_inv_def connection_policy_def dns_owned_def settings_nft_def NftablesBackend_new_def
      KillSwitch_new_def
      intro!: wp_mono [OF backend_new_law] wp_mono [OF dns_new_law] wp_mono [OF controller_new_law]
      dest!: linux_tunnel.new_inv split: option.split sum.split)

definition conn_identity :: "LinuxWireGuardConnection \<Rightarrow> string \<times> bool" where
  "conn_identity c = (conn_interface c, always_on (kill_switch (controller c)))"

lemma identity_steps:
  "always (undo_connect e) (\<lambda>t. conn_identity (fst t) = conn_identity (fst s)) s"
  "always (connection_connect token) (\<lambda>t. conn_identity (fst t) = conn_identity (fst s)) s"
  "always connection_disconnect (\<lambda>t. conn_identity (fst t) = conn_identity (fst s)) s"
  "always connection_disable (\<lambda>t. conn_identity (fst t) = conn_identity (fst s)) s"
  "always connection_health (\<lambda>t. conn_identity (fst t) = conn_identity (fst s)) s"
proof -
  note calls = wp_any [of _ _ "dns_revert _"] wp_any [of _ _ "dns_configure _ _ _"]
    wp_mono [OF mode_constant(2)] wp_mono [OF mode_constant(3)] wp_mono [OF mode_constant(4)]
    wp_mono [OF mode_constant(5)]
  show undo: "always (undo_connect e) (\<lambda>t. conn_identity (fst t) = conn_identity (fst s)) s" for e s
    unfolding undo_connect_def wp_simps
    by (auto intro!: calls simp: wp_simps conn_identity_def split: sum.split)
  show "always (connection_connect token) (\<lambda>t. conn_identity (fst t) = conn_identity (fst s)) s"
    unfolding connection_connect_def wp_simps Let_def
    by (auto intro!: calls wp_mono [OF undo] simp: wp_simps conn_identity_def split: sum.split option.split)
  show "always connection_disconnect (\<lambda>t. conn_identity (fst t) = conn_identity (fst s)) s"
    unfolding connection_disconnect_def wp_simps by (auto intro!: calls simp: conn_identity_def)
  show "always connection_disable (\<lambda>t. conn_identity (fst t) = conn_identity (fst s)) s"
    unfolding connection_disable_def wp_simps by (auto intro!: calls simp: conn_identity_def)
  show "always connection_health (\<lambda>t. conn_identity (fst t) = conn_identity (fst s)) s"
    unfolding connection_health_def wp_simps by (auto intro!: calls simp: conn_identity_def)
qed

lemma conn_step_identity: "conn_step s t \<Longrightarrow> conn_identity (fst t) = conn_identity (fst s)"
  by (cases rule: conn_step.cases) (auto dest: alwaysD [OF identity_steps(2)] alwaysD [OF identity_steps(3)]
      alwaysD [OF identity_steps(4)] alwaysD [OF identity_steps(5)])

lemma reachable_inv:
  assumes "conn_reachable settings cr dr nr w0 s" and "guarded (in_force nr (settings_nft settings)) (trace w0)"
  shows "connection_inv nr (settings_nft settings) s \<and>
    conn_identity (fst s) = (settings_interface settings, settings_always_on settings)"
  using assms(1)
proof (induction rule: conn_reachable.induct)
  case (start c w)
  then show ?case
    using wp_OkD [OF with_runners_law [OF assms(2)] start] by (simp add: conn_identity_def)
next
  case (step s t)
  then show ?case using conn_step_inv conn_step_identity by metis
qed

lemma connection_invD:
  assumes "connection_inv r cfg (c, w)"
  shows "in_force r cfg (trace w) (connection_policy c)"
    "connected (transport (controller c)) \<Longrightarrow>
       active_interface (backend (transport (controller c))) = Some (conn_interface c)"
    "needs_revert (conn_dns c) \<Longrightarrow> dns_interface (conn_dns c) = Some (conn_interface c)"
  using assms
  by (auto simp: connection_inv_def connection_policy_def controller_inv_def Let_def adapter_inv_def dns_owned_def
      needs_revert_def)

section \<open>Properties\<close>

text \<open>
  C2. The kill switch tells the truth, whatever commands, rulesets and signals fail or interleave.
  In every reachable state of a connection the ruleset in force is the rendering of the policy the
  controller reports; filtering is only disabled when no tunnel, no link of the backend and no
  resolver state is owned; traffic is only opened for the connection's own interface, and only
  while its tunnel is up; and an always-on connection is never unfiltered.
\<close>

theorem policy_in_force:
  assumes "conn_reachable settings cr dr nr w0 (c, w)"
    and "guarded (in_force nr (settings_nft settings)) (trace w0)"
  shows "in_force nr (settings_nft settings) (trace w) (connection_policy c) \<and>
    (connection_policy c = Disabled \<longrightarrow>
       \<not> settings_always_on settings \<and> \<not> connected (transport (controller c)) \<and>
       active_interface (backend (transport (controller c))) = None \<and> dns_interface (conn_dns c) = None) \<and>
    (\<forall>i. connection_policy c = TunnelOnly i \<longrightarrow>
       i = settings_interface settings \<and> active_interface (backend (transport (controller c))) = Some i)"
  using reachable_inv [OF assms]
  by (auto simp: connection_inv_def connection_policy_def controller_inv_def Let_def adapter_inv_def dns_owned_def
      conn_identity_def)

text \<open>
  C3. No tunnel work without filtering: every command that creates, changes or observes a tunnel or
  its resolver state, in any reachable history, ran while a blocking or tunnel ruleset was in force.
\<close>

theorem commands_run_filtered:
  assumes "conn_reachable settings cr dr nr w0 (c, w)"
    and "guarded (in_force nr (settings_nft settings)) (trace w0)"
    and "n < length (trace w)" and "tunnel_command (trace w ! n)"
  shows "\<exists>p. p \<noteq> Disabled \<and> in_force nr (settings_nft settings) (take n (trace w)) p"
  using reachable_inv [OF assms(1,2)] assms(3,4)
  by (auto simp: connection_inv_def controller_inv_def Let_def guarded_def)

text \<open>
  C4. The outcome of a connect: success means the tunnel ruleset of the interface is in force, the
  link is owned and the resolver is configured; a failure never leaves the host unfiltered, except
  when filtering was already off and arming it failed.
\<close>

theorem connect_outcome:
  assumes "conn_reachable settings cr dr nr w0 (c, w)"
    and "guarded (in_force nr (settings_nft settings)) (trace w0)"
    and "connection_connect token (c, w) = (r, (c', w'))"
  shows "case r of
      Inr _ \<Rightarrow>
        in_force nr (settings_nft settings) (trace w') (TunnelOnly (settings_interface settings)) \<and>
        active_interface (backend (transport (controller c'))) = Some (settings_interface settings) \<and>
        dns_interface (conn_dns c') = Some (settings_interface settings)
    | Inl e \<Rightarrow>
        (\<exists>p. p \<noteq> Disabled \<and> in_force nr (settings_nft settings) (trace w') p) \<or>
        connection_policy c = Disabled \<and> (e = Panic \<or> (\<exists>f. e = Error (FirewallFailed f)))"
proof -
  have s: "connection_inv nr (settings_nft settings) (c, w)" "conn_interface c = settings_interface settings"
    using reachable_inv [OF assms(1,2)] by (auto simp: conn_identity_def)
  have i: "conn_interface c' = settings_interface settings"
    using alwaysD [OF identity_steps(2) assms(3)] s(2) by (simp add: conn_identity_def)
  show ?thesis
  proof (cases r)
    case (Inr session)
    then have "connection_inv nr (settings_nft settings) (c', w')"
      "connection_policy c' = TunnelOnly (conn_interface c')" "connected (transport (controller c'))"
      "needs_revert (conn_dns c')"
      using wp_resultD [OF connect_step [OF s(1)] assms(3)] by simp_all
    then show ?thesis using connection_invD [of nr "settings_nft settings" c' w'] i Inr by simp
  next
    case (Inl e)
    then have "connection_inv nr (settings_nft settings) (c', w')"
      "connection_policy c' \<noteq> Disabled \<or>
       connection_policy c' = connection_policy c \<and> (e = Panic \<or> (\<exists>f. e = Error (FirewallFailed f)))"
      using wp_resultD [OF connect_step [OF s(1)] assms(3)] by simp_all
    then show ?thesis using connection_invD(1) [of nr "settings_nft settings" c' w'] Inl by auto
  qed
qed


section \<open>A run on the concrete platform\<close>

definition example_settings :: LinuxConnectionSettings where
  "example_settings =
     \<lparr>settings_interface = ''cyberia0'', settings_profile = example_profile,
      settings_dns = example_dns_config, settings_tools = example_tools,
      settings_dns_tools = \<lparr>tool_resolvectl = ''/usr/bin/resolvectl''\<rparr>,
      settings_routing_mark = 51820, settings_connect_timeout = 4000, settings_always_on = False\<rparr>"

lemma example_host: "show_ipv4 0xC000020A = ''192.0.2.10''"
  by (simp add: show_ipv4_def octets_def show_dec.simps digit_char_def char_of_def bit_0)

lemma example_trim: "trim ''192.0.2.10'' = ''192.0.2.10''"
  by code_simp

lemma example_parse: "parse_ip ''192.0.2.10'' = Some (V4 0xC000020A)"
  using parse_show_ipv4 [of "0xC000020A"] by (simp add: example_host)

lemma example_key: "from_utf8 ''/etc/cyberia/key'' = Some ''/etc/cyberia/key''"
  by code_simp

lemma example_profile_valid: "WireGuardConfig_validate example_profile = ok"
  by (simp add: WireGuardConfig_validate_def example_profile_def validate_interface_addresses_def maximum_prefix_def
      octets_def valid_network_def validate_keepalive_def validate_mtu_def MINIMUM_MTU_def MAXIMUM_MTU_def
      MAXIMUM_KEEPALIVE_SECONDS_def example_trim list_all_iff)

definition calm :: "world \<Rightarrow> bool" where
  "calm w \<longleftrightarrow> os w = calm_platform \<and> 0 \<notin> cancelled w"

abbreviation calm_context :: ConnectContext where
  "calm_context \<equiv> \<lparr>deadline = 5000, cancellation = 0\<rparr>"

lemma calm_log [simp]: "calm (log_event ev w) = calm w" "calm calm_world"
  by (simp_all add: calm_def)

lemma calm_favourable: "calm w \<Longrightarrow> favourable r calm_context w"
  by (simp add: calm_def favourable_def)

lemma favourable_calm: "favourable r calm_context w' \<Longrightarrow> extends P w w' \<Longrightarrow> calm w \<Longrightarrow> calm w'"
  by (auto simp: calm_def favourable_def extends_def)

lemma wp_executable_calm:
  assumes "calm w" and "path_is_absolute p" and "\<And>w'. calm w' \<Longrightarrow> Q () w'"
  shows "wp (validate_executable p) Q E w"
proof -
  have "os w = calm_platform" using assms(1) by (simp add: calm_def)
  then show ?thesis using assms unfolding validate_executable_def wp_simps by (simp add: wp_simps)
qed

lemma backend_new_calm:
  assumes "calm w"
  shows "wp (LinuxWireGuardBackend_new example_tools r mark)
    (\<lambda>b w'. calm w' \<and> active_interface b = None) (\<lambda>_ _. False) w"
proof -
  have key: "wp (symlink_metadata p) Q E w'" if "calm w'"
    "\<And>w'. calm w' \<Longrightarrow> Q (Some private_file) w'"
    for p Q w' and E :: "TransportError \<Rightarrow> world \<Rightarrow> bool"
    using that by (auto simp: wp_symlink_metadata calm_def)
  show ?thesis
    unfolding LinuxWireGuardBackend_new_def LinuxTools_validate_def wp_bindE wp_seqE
    by (auto simp: assms example_tools_def path_is_absolute_def example_key wp_case_option wp_reject_if wp_ret
        intro!: wp_executable_calm key)
qed

lemma dns_new_calm:
  assumes "calm w"
  shows "wp (LinuxDnsBackend_new \<lparr>tool_resolvectl = ''/usr/bin/resolvectl''\<rparr> r)
    (\<lambda>d w'. calm w' \<and> dns_interface d = None \<and> dns_runner d = r) (\<lambda>_ _. False) w"
  unfolding LinuxDnsBackend_new_def LinuxDnsTools_validate_def wp_simps
  by (auto simp: assms path_is_absolute_def intro!: wp_executable_calm)

lemma nft_calm:
  assumes "calm w" and "render (nft_config f) p = Inr rules"
  shows "wp (firewall_apply nft_firewall p) (\<lambda>_ t. calm (snd t) \<and> fst t = f) E (f, w)"
  using assms by (auto simp: nft_firewall_def NftablesBackend_apply_def wp_simps calm_def)

lemma controller_new_calm:
  assumes "calm w"
  shows "wp (ConnectionController_new nft_firewall (KillSwitch_enable k) a f)
    (\<lambda>c w'. calm w' \<and> c = \<lparr>kill_switch = KillSwitch_enable k, transport = a, firewall = f,
       transport_may_be_active = False\<rparr>) (\<lambda>_ _. False) w"
proof -
  obtain rules where "render (nft_config f) BlockNonTunnel = Inr rules" by (simp add: render_print)
  from nft_calm [OF assms this, where E = "\<lambda>_ _. False"] show ?thesis
    by (auto simp: wp_def ConnectionController_new_def split: prod.splits sum.splits)
qed

definition fresh_connection :: "LinuxWireGuardConnection \<Rightarrow> bool" where
  "fresh_connection c \<longleftrightarrow>
     conn_transport c = \<lparr>kind = WireGuard, endpoint = wg_endpoint example_profile, connect_timeout = 4000\<rparr> \<and>
     dns_config c = example_dns_config \<and> conn_interface c = ''cyberia0'' \<and> dns_interface (conn_dns c) = None \<and>
     adapter_interface (transport (controller c)) = ''cyberia0'' \<and>
     profile (transport (controller c)) = example_profile \<and> \<not> connected (transport (controller c)) \<and>
     active_interface (backend (transport (controller c))) = None"

lemma with_runners_calm:
  "wp (with_runners example_settings 0 1 2) (\<lambda>c w. calm w \<and> fresh_connection c) (\<lambda>_ _. False) calm_world"
proof -
  have tc: "TransportConfig_validate \<lparr>kind = WireGuard, endpoint = wg_endpoint example_profile, connect_timeout = 4000\<rparr> = ok"
    by (simp add: TransportConfig_validate_def example_profile_def example_trim)
  have parse: "parse_ip (host (wg_endpoint example_profile)) = Some (V4 0xC000020A)"
    by (simp add: example_profile_def example_parse)
  have new: "WireGuardAdapter_new ''cyberia0'' example_profile b =
      Inr \<lparr>adapter_interface = ''cyberia0'', profile = example_profile, backend = b, connected = False\<rparr>" for b :: LinuxWireGuardBackend
    by (simp add: WireGuardAdapter_new_def example_profile_valid example_dns_valid)
  show ?thesis
    unfolding with_runners_def example_settings_def Let_def
    by (auto simp: parse tc new wp_simps example_dns_valid fresh_connection_def
        intro!: wp_mono [OF backend_new_calm] wp_mono [OF dns_new_calm] wp_mono [OF controller_new_calm])
qed

lemma bring_up_calm:
  assumes "calm w" and "active_interface b = None"
  shows "wp (linux_bring_up i p calm_context) (\<lambda>_ t. calm (snd t)) (\<lambda>_ _. False) (b, w)"
proof -
  have "only tunnel_event (linux_bring_up i p calm_context)" by (intro linux_ops_frame) simp_all
  then have "always (linux_bring_up i p calm_context) (\<lambda>t. extends tunnel_event w (snd t)) (b, w)"
    unfolding only_def by (metis snd_conv)
  from wp_conj [OF bring_up_favourable this] show ?thesis
    using assms calm_favourable by (auto intro: favourable_calm elim!: wp_mono)
qed

lemma adapter_connect_calm:
  assumes "calm w" and "\<not> connected a" and "active_interface (backend a) = None"
    and "profile a = example_profile"
  shows "wp (adapter_connect linux_ops
      \<lparr>kind = WireGuard, endpoint = wg_endpoint example_profile, connect_timeout = 4000\<rparr> calm_context)
    (\<lambda>session t. calm (snd t) \<and> session_id session = adapter_interface a) (\<lambda>_ _. False) (a, w)"
proof -
  have tc: "TransportConfig_validate \<lparr>kind = WireGuard, endpoint = wg_endpoint example_profile, connect_timeout = 4000\<rparr> = ok"
    by (simp add: TransportConfig_validate_def example_profile_def example_trim)
  have check: "wp (check calm_context) Q E w" if "\<And>w'. calm w' \<Longrightarrow> Q () w'" for Q E
    using assms(1) that by (auto simp: check_def wp_simps Let_def calm_def)
  show ?thesis
    using assms unfolding adapter_connect_def wp_simps
    by (auto simp: tc linux_ops_def Let_def intro!: check wp_mono [OF bring_up_calm])
qed

lemma dns_configure_runs:
  "wp (dns_configure i config context)
     (\<lambda>_ t. trace (snd t) \<noteq> [] \<and> tunnel_command (last (trace (snd t)))) (\<lambda>_ _. True) s"
  unfolding dns_configure_def dns_setup_def dns_command_def wp_simps
  by (auto intro!: wp_any [of _ _ "check _"] simp: wp_simps tunnel_command_def split: sum.split)

lemma connect_calm:
  assumes "calm w" and "fresh_connection c"
  shows "wp (connection_connect 0) (\<lambda>_ t. trace (snd t) \<noteq> [] \<and> tunnel_command (last (trace (snd t))))
    (\<lambda>_ _. False) (c, w)"
proof -
  let ?tc = "\<lparr>kind = WireGuard, endpoint = wg_endpoint example_profile, connect_timeout = 4000\<rparr>"
  have valid: "valid_tunnel_interface ''cyberia0''"
    by (simp add: valid_tunnel_interface_def tunnel_char_def is_ascii_alphanumeric_def is_ascii_digit_def)
  then have renders: "\<exists>rules. render cfg (TunnelOnly ''cyberia0'') = Inr rules"
    "\<exists>rules. render cfg BlockNonTunnel = Inr rules" for cfg
    by (simp_all add: render_print)
  have fw: "wp (firewall_apply nft_firewall p) (\<lambda>_ t. calm (snd t) \<and> fst t = f) E (f, w')"
    if "calm w'" "p = TunnelOnly ''cyberia0'' \<or> p = BlockNonTunnel" for p f w' and E :: "FirewallError \<Rightarrow> _"
    using that renders [of "nft_config f"] nft_calm by blast
  have up: "wp (controller_connect linux_transport nft_firewall ?tc calm_context)
      (\<lambda>_ t. calm (snd t)) (\<lambda>_ _. False) (controller c, log_event ev w)" for ev
    using assms valid unfolding controller_connect_def wp_simps Let_def fresh_connection_def
    by (auto simp: wp_simps adapter_transport_def tunnel_established_def
        intro!: wp_mono [OF fw] wp_mono [OF adapter_connect_calm])
  have dns: "wp (dns_configure ''cyberia0'' example_dns_config calm_context)
      (\<lambda>_ t. trace (snd t) \<noteq> [] \<and> tunnel_command (last (trace (snd t)))) (\<lambda>_ _. False) (conn_dns c, w')"
    if "calm w'" for w'
    by (rule wp_mono [OF wp_conj [OF dns_configure_favourable dns_configure_runs]])
      (use that assms calm_favourable example_dns_valid in \<open>auto simp: fresh_connection_def\<close>)
  have now: "instant_reply (os w) (trace w) = 1000" "instant_checked_add 1000 4000 = Some 5000"
    using assms(1) by (simp_all add: calm_def instant_checked_add_def instant_limit_def nanos_per_sec_def)
  show ?thesis
    using assms unfolding connection_connect_def wp_simps Let_def fresh_connection_def
    by (auto simp: now wp_simps intro!: wp_mono [OF up] wp_mono [OF dns])
qed

lemma example_run:
  obtains c w session c' w' where
    "conn_reachable example_settings 0 1 2 calm_world (c, w)"
    "connection_connect 0 (c, w) = (Inr session, (c', w'))"
    "trace w' \<noteq> []" "tunnel_command (last (trace w'))"
proof -
  obtain r w where start: "with_runners example_settings 0 1 2 calm_world = (r, w)" by fastforce
  then obtain c where c: "r = Inr c" "calm w" "fresh_connection c"
    using wp_resultD [OF with_runners_calm start] by (cases r) auto
  have reach: "conn_reachable example_settings 0 1 2 calm_world (c, w)"
    using start c(1) by (auto intro: conn_reachable.start)
  obtain r' c' w' where run: "connection_connect 0 (c, w) = (r', (c', w'))" by (metis prod.exhaust)
  then obtain session where "r' = Inr session" "trace w' \<noteq> []" "tunnel_command (last (trace w'))"
    using wp_resultD [OF connect_calm [OF c(2,3)] run] by (cases r') auto
  then show ?thesis using that reach run by blast
qed

lemma example_start_guarded: "guarded E (trace calm_world)"
  by (simp add: guarded_def)

lemma example_interface [simp]: "settings_interface example_settings = ''cyberia0''"
  by (simp add: example_settings_def)

theorem policy_in_force_witness:
  "\<exists>c w. conn_reachable example_settings 0 1 2 calm_world (c, w) \<and>
     in_force 2 (settings_nft example_settings) (trace w) (connection_policy c)"
proof -
  obtain c w where "conn_reachable example_settings 0 1 2 calm_world (c, w)"
    by (rule example_run)
  then show ?thesis using policy_in_force [OF _ example_start_guarded] by blast
qed

theorem commands_run_filtered_witness:
  "\<exists>c w n. conn_reachable example_settings 0 1 2 calm_world (c, w) \<and> n < length (trace w) \<and>
     tunnel_command (trace w ! n) \<and>
     (\<exists>p. p \<noteq> Disabled \<and> in_force 2 (settings_nft example_settings) (take n (trace w)) p)"
proof -
  obtain c w session c' w' where run: "conn_reachable example_settings 0 1 2 calm_world (c, w)"
    "connection_connect 0 (c, w) = (Inr session, (c', w'))" "trace w' \<noteq> []" "tunnel_command (last (trace w'))"
    by (rule example_run)
  have reach: "conn_reachable example_settings 0 1 2 calm_world (c', w')"
    by (rule conn_reachable.step [OF run(1) conn_step.connect [OF run(2)]])
  have n: "length (trace w') - 1 < length (trace w')" "tunnel_command (trace w' ! (length (trace w') - 1))"
    using run(3,4) by (simp_all add: last_conv_nth)
  show ?thesis
    using commands_run_filtered [OF reach example_start_guarded n] reach n by blast
qed

theorem connect_outcome_witness:
  "\<exists>c w session c' w'. conn_reachable example_settings 0 1 2 calm_world (c, w) \<and>
     connection_connect 0 (c, w) = (Inr session, (c', w')) \<and>
     in_force 2 (settings_nft example_settings) (trace w') (TunnelOnly ''cyberia0'')"
proof -
  obtain c w session c' w' where run: "conn_reachable example_settings 0 1 2 calm_world (c, w)"
    "connection_connect 0 (c, w) = (Inr session, (c', w'))"
    by (rule example_run)
  have "in_force 2 (settings_nft example_settings) (trace w') (TunnelOnly ''cyberia0'')"
    using connect_outcome [OF run(1) example_start_guarded run(2)] by simp
  with run show ?thesis by blast
qed

section \<open>Teardown that cannot be repeated\<close>

lemma controller_disconnect_connected:
  assumes "adapter_inv active_interface (transport (fst s))"
  shows "wp (controller_disconnect linux_transport nft_firewall) (\<lambda>_ _. True)
    (\<lambda>_ t. connected (transport (fst t)) = connected (transport (fst s))) s"
  using assms unfolding controller_disconnect_def wp_simps Let_def adapter_transport_def
  by (auto intro!: wp_any [of _ _ "firewall_apply _ _"] wp_mono [OF linux_tunnel.disconnect_law])

text \<open>
  C19. A partly failed teardown is final.  When the resolver was reverted but the rest of the teardown
  failed, the tunnel is still connected, and yet every further disconnect, on any platform, is
  rejected as not connected without running a single command.
\<close>

theorem partial_teardown_is_stuck:
  assumes "connection_disconnect (c, w) = (Inl e, (c', w'))"
    and "dns_interface (conn_dns c) \<noteq> None" and "dns_interface (conn_dns c') = None"
    and "adapter_inv active_interface (transport (controller c))" and "connected (transport (controller c))"
  shows "connected (transport (controller c')) \<and>
    (\<forall>w''. connection_disconnect (c', w'') = (Inl (TransportFailed NotConnected), (c', w'')))"
proof
  have keep: "wp (dns_revert i) (\<lambda>_ _. True) (\<lambda>_ t. dns_interface (fst t) = dns_interface d) (d, w)" for i d w
    by (rule wp_mono [OF dns_revert_ownership]) auto
  have "wp connection_disconnect (\<lambda>_ _. True)
      (\<lambda>_ t. dns_interface (conn_dns (fst t)) = None \<longrightarrow> connected (transport (controller (fst t)))) (c, w)"
    using assms(2,4,5) unfolding connection_disconnect_def wp_simps
    by (auto intro!: wp_mono [OF keep] wp_mono [OF controller_disconnect_connected])
  then show "connected (transport (controller c'))"
    using assms(1,3) by (simp add: wp_def)
  show "\<forall>w''. connection_disconnect (c', w'') = (Inl (TransportFailed NotConnected), (c', w''))"
    using assms(3)
    by (simp add: connection_disconnect_def dns_revert_def bindE_def seqE_def get_self_def reject_if_def
        throw_def map_err_def on_field_def)
qed

text \<open>A connected example and a platform that rejects every ruleset.\<close>

definition up_connection :: LinuxWireGuardConnection where
  "up_connection =
     \<lparr>controller =
        \<lparr>kill_switch = \<lparr>always_on = False, policy = TunnelOnly ''cyberia0''\<rparr>,
         transport = \<lparr>adapter_interface = ''cyberia0'', profile = example_profile,
                      backend = example_backend\<lparr>active_interface := Some ''cyberia0''\<rparr>, connected = True\<rparr>,
         firewall = \<lparr>nft_config = example_nft, nft_runner = 2\<rparr>, transport_may_be_active = True\<rparr>,
      conn_dns = example_dns\<lparr>dns_interface := Some ''cyberia0''\<rparr>, dns_config = example_dns_config,
      conn_interface = ''cyberia0'',
      conn_transport = \<lparr>kind = WireGuard, endpoint = wg_endpoint example_profile, connect_timeout = 4000\<rparr>\<rparr>"

definition no_nft_world :: world where
  "no_nft_world = calm_world\<lparr>os := calm_platform\<lparr>nft_reply := \<lambda>_ _ _. Inl (Command ''busy'')\<rparr>\<rparr>"

theorem partial_teardown_is_stuck_witness:
  "\<exists>c' w'. connection_disconnect (up_connection, no_nft_world)
       = (Inl (FirewallFailed (FirewallError ''nftables command failed: busy'')), (c', w')) \<and>
     connected (transport (controller c')) \<and>
     (\<forall>w''. connection_disconnect (c', w'') = (Inl (TransportFailed NotConnected), (c', w'')))"
proof -
  have block: "\<exists>rules. render example_nft BlockNonTunnel = Inr rules" by (simp add: render_print)
  obtain c' w' where run: "connection_disconnect (up_connection, no_nft_world)
      = (Inl (FirewallFailed (FirewallError ''nftables command failed: busy'')), (c', w'))"
    "dns_interface (conn_dns c') = None"
    using block
    by (auto simp: connection_disconnect_def dns_revert_def dns_command_def controller_disconnect_def
        nft_firewall_def NftablesBackend_apply_def up_connection_def no_nft_world_def example_dns_def Let_def
        bindE_def seqE_def get_self_def modify_self_def reject_if_def ret_def of_result_def map_err_def
        on_field_def on_world_def run_command_def nft_apply_def)
  have h: "dns_interface (conn_dns up_connection) \<noteq> None"
    "adapter_inv active_interface (transport (controller up_connection))"
    "connected (transport (controller up_connection))"
    by (simp_all add: up_connection_def adapter_inv_def)
  show ?thesis using partial_teardown_is_stuck [OF run(1) h(1) run(2) h(2,3)] run(1) by blast
qed

end
