(* ===== verification/Linux_Lifecycle.thy ===== *)
theory Linux_Lifecycle
  imports Linux_Connection
begin

text \<open>
  The abstract life cycle of a connection and its refinement by
  \<^verbatim>\<open>core/killswitch/src/linux_connection.rs\<close>: a specification with three observable facts
  (the traffic policy, whether the tunnel is up, whether resolver state is owned) and, for each
  call and each outcome, the moves it allows.
\<close>

section \<open>The specification\<close>

record lifecycle =
  life_policy :: TrafficPolicy
  tunnel_up :: bool
  resolver_set :: bool

datatype call = Connect CancellationToken | Disconnect | Disable | Health | Signal CancellationToken

text \<open>
  A call that fails may have gone part of the way: a connect may have stopped after arming, or
  with a tunnel it could not take down again, and it may stay on the tunnel policy when its undo
  was refused.  A tunnel that is up is never lost by a failing connect.
\<close>

fun lifecycle_move :: "bool \<Rightarrow> string \<Rightarrow> call \<Rightarrow> bool \<Rightarrow> lifecycle \<Rightarrow> lifecycle \<Rightarrow> bool" where
  "lifecycle_move m i (Connect _) True a b \<longleftrightarrow>
     \<not> tunnel_up a \<and> b = \<lparr>life_policy = TunnelOnly i, tunnel_up = True, resolver_set = True\<rparr>"
| "lifecycle_move m i (Connect _) False a b \<longleftrightarrow>
     b = a \<or> b = a\<lparr>life_policy := BlockNonTunnel\<rparr> \<or>
     \<not> tunnel_up a \<and> (b = \<lparr>life_policy = BlockNonTunnel, tunnel_up = True, resolver_set = False\<rparr> \<or>
       life_policy b = TunnelOnly i \<and> tunnel_up b)"
| "lifecycle_move m i Disconnect True a b \<longleftrightarrow>
     tunnel_up a \<and> resolver_set a \<and> b = \<lparr>life_policy = BlockNonTunnel, tunnel_up = False, resolver_set = False\<rparr>"
| "lifecycle_move m i Disconnect False a b \<longleftrightarrow>
     b = a \<or> resolver_set a \<and> (b = a\<lparr>resolver_set := False\<rparr> \<or> b = a\<lparr>life_policy := BlockNonTunnel, resolver_set := False\<rparr>)"
| "lifecycle_move m i Disable True a b \<longleftrightarrow> \<not> m \<and> \<not> tunnel_up a \<and> b = a\<lparr>life_policy := Disabled\<rparr>"
| "lifecycle_move m i Disable False a b \<longleftrightarrow> b = a"
| "lifecycle_move m i Health done a b \<longleftrightarrow> done \<and> b = a"
| "lifecycle_move m i (Signal _) done a b \<longleftrightarrow> done \<and> b = a"

fun lifecycle_run :: "bool \<Rightarrow> string \<Rightarrow> call list \<Rightarrow> bool list \<Rightarrow> lifecycle \<Rightarrow> lifecycle \<Rightarrow> bool" where
  "lifecycle_run m i [] [] a b \<longleftrightarrow> a = b"
| "lifecycle_run m i (call # calls) (done # dones) a b \<longleftrightarrow>
     (\<exists>mid. lifecycle_move m i call done a mid \<and> lifecycle_run m i calls dones mid b)"
| "lifecycle_run m i _ _ a b \<longleftrightarrow> False"

section \<open>The connection under a sequence of calls\<close>

definition lifecycle_of :: "LinuxWireGuardConnection \<Rightarrow> lifecycle" where
  "lifecycle_of c =
     \<lparr>life_policy = connection_policy c, tunnel_up = connected (transport (controller c)),
      resolver_set = needs_revert (conn_dns c)\<rparr>"

fun connection_call :: "call \<Rightarrow> LinuxWireGuardConnection \<times> world \<Rightarrow> bool \<times> (LinuxWireGuardConnection \<times> world)" where
  "connection_call (Connect token) s = apfst is_ok (connection_connect token s)"
| "connection_call Disconnect s = apfst is_ok (connection_disconnect s)"
| "connection_call Disable s = apfst is_ok (connection_disable s)"
| "connection_call Health s = apfst is_ok (connection_health s)"
| "connection_call (Signal token) s = (True, (fst s, cancel token (snd s)))"

fun connection_calls :: "call list \<Rightarrow> LinuxWireGuardConnection \<times> world \<Rightarrow> bool list \<times> (LinuxWireGuardConnection \<times> world)" where
  "connection_calls [] s = ([], s)"
| "connection_calls (call # calls) s =
     (case connection_call call s of (d, t) \<Rightarrow> apfst ((#) d) (connection_calls calls t))"

section \<open>Each call refines its moves\<close>

abbreviation refines :: "LinuxWireGuardConnection \<times> world \<Rightarrow> call \<Rightarrow> bool \<Rightarrow> LinuxWireGuardConnection \<times> world \<Rightarrow> bool" where
  "refines s call done t \<equiv>
     lifecycle_move (always_on (kill_switch (controller (fst s)))) (conn_interface (fst s)) call done
       (lifecycle_of (fst s)) (lifecycle_of (fst t))"

lemma disable_refines:
  assumes "connection_inv r cfg s"
  shows "wp connection_disable (\<lambda>_. refines s Disable True) (\<lambda>_. refines s Disable False) s"
proof -
  obtain c w where s: "s = (c, w)" by fastforce
  show ?thesis
    using assms unfolding connection_disable_def wp_simps s connection_inv_def
    by (auto simp: lifecycle_of_def connection_policy_def intro!: wp_mono [OF linux_ctl.disable_inv])
qed

lemma health_refines:
  assumes "connection_inv r cfg s"
  shows "wp connection_health (\<lambda>_. refines s Health True) (\<lambda>_ _. False) s"
proof -
  obtain c w where s: "s = (c, w)" by fastforce
  show ?thesis
    using assms unfolding connection_health_def wp_simps s connection_inv_def
    by (auto simp: lifecycle_of_def connection_policy_def intro!: wp_mono [OF linux_ctl.controller_health_inv])
qed

text \<open>A revert that fails keeps what it owned; one that succeeds owned something.\<close>

lemma revert_owns:
  "wp (dns_revert i) (\<lambda>_ t. needs_revert (fst s) \<and> \<not> needs_revert (fst t)) (\<lambda>_ t. fst t = fst s) s"
  unfolding dns_revert_def by (auto simp: wp_simps needs_revert_def intro!: wp_any split: sum.split)

lemma disconnect_refines:
  assumes "connection_inv r cfg s"
  shows "wp connection_disconnect (\<lambda>_. refines s Disconnect True) (\<lambda>_. refines s Disconnect False) s"
proof -
  obtain c w where s: "s = (c, w)" by fastforce
  have c: "ctl_inv r cfg (conn_interface c) (controller c, w)"
    "dns_owned (conn_dns c) (controller c) (conn_interface c)"
    using assms by (simp_all add: connection_inv_def s)
  show ?thesis
    unfolding connection_disconnect_def wp_simps s
    apply (rule wp_mono [OF wp_conj [OF revert_step [where c = "controller c" and r = r and cfg = cfg] revert_owns]])
    using c apply (simp_all add: lifecycle_of_def connection_policy_def)
    apply (rule wp_mono [OF linux_ctl.disconnect_inv [where r = r and cfg = cfg and i = "conn_interface c"]])
    using connected_filtered [OF c(1)] apply auto
    done
qed


text \<open>
  The undo of a connect stays on the tunnel policy or ends blocking; in the second case the
  resolver has been given back.
\<close>

lemma undo_refines:
  assumes "connection_inv r cfg (c, w)" and "connection_policy c = TunnelOnly i" and "connected (transport (controller c))"
  shows "wp (undo_connect e) (\<lambda>_ _. False)
    (\<lambda>_ t. connection_policy (fst t) = TunnelOnly i \<and> connected (transport (controller (fst t))) \<or>
       connection_policy (fst t) = BlockNonTunnel \<and> \<not> needs_revert (conn_dns (fst t))) (c, w)"
proof -
  have c: "ctl_inv r cfg (conn_interface c) (controller c, w)"
    "dns_owned (conn_dns c) (controller c) (conn_interface c)" "policy (kill_switch (controller c)) = TunnelOnly i"
    using assms by (simp_all add: connection_inv_def connection_policy_def)
  have down: "wp (controller_disconnect linux_transport nft_firewall)
      (\<lambda>_ t. policy (kill_switch (fst t)) = BlockNonTunnel)
      (\<lambda>_ t. connected (transport (fst t)) \<and>
         (policy (kill_switch (fst t)) = TunnelOnly i \<or> policy (kill_switch (fst t)) = BlockNonTunnel))
      (controller c, w')" if "ctl_inv r cfg (conn_interface c) (controller c, w')" for w'
    by (rule wp_mono [OF linux_ctl.disconnect_inv [OF that]]) (use c(3) assms(3) in auto)
  show ?thesis
    using c assms(2,3) unfolding undo_connect_def wp_simps
    by (auto simp: wp_simps connection_policy_def needs_revert_def
        intro!: wp_mono [OF revert_step [where c = "controller c" and r = r and cfg = cfg]] wp_mono [OF down] split: sum.split)
qed

lemma connect_refines:
  assumes "connection_inv r cfg s"
  shows "wp (connection_connect token) (\<lambda>_. refines s (Connect token) True) (\<lambda>_. refines s (Connect token) False) s"
proof -
  obtain c w where s: "s = (c, w)" by fastforce
  let ?i = "conn_interface c"
  have c: "ctl_inv r cfg ?i (controller c, w)" "dns_owned (conn_dns c) (controller c) ?i"
    using assms by (simp_all add: connection_inv_def s)
  have tick: "ctl_inv r cfg ?i (controller c, log_event (ReadInstant n) w)" for n
    by (rule linux_ctl.inv_idle [OF c(1)]) (auto intro!: extends_log simp: tunnel_command_def)
  have idle: "dns_interface (conn_dns c) = None" if "\<not> connected (transport (controller c))"
    using c(2) that by (auto simp: dns_owned_def)
  have up_if: "connected (transport (controller c))" if "dns_interface (conn_dns c) = Some y" for y
    using idle that by (cases "connected (transport (controller c))") auto
  have owned: "dns_owned (conn_dns c) c' ?i" if "\<not> connected (transport (controller c))" for c'
    using idle [OF that] by (simp add: dns_owned_def)
  have up: "wp (controller_connect linux_transport nft_firewall config ctx)
      (\<lambda>session t. ctl_inv r cfg ?i t \<and> \<not> connected (transport (controller c)) \<and> connected (transport (fst t)) \<and>
         policy (kill_switch (fst t)) = TunnelOnly ?i)
      (\<lambda>e t. (connected (transport (controller c)) \<longrightarrow> connected (transport (fst t))) \<and>
         (policy (kill_switch (fst t)) = BlockNonTunnel \<or>
          policy (kill_switch (fst t)) = policy (kill_switch (controller c)) \<and> transport (fst t) = transport (controller c)))
      (controller c, log_event (ReadInstant n) w)" for config ctx n
    by (rule wp_mono [OF linux_ctl.connect_inv [OF tick]]) auto
  show ?thesis
    unfolding connection_connect_def wp_simps s Let_def
    by (auto simp: wp_simps owned lifecycle_of_def connection_policy_def needs_revert_def connection_inv_def
        intro!: wp_mono [OF up] wp_mono [OF configure_step [where r = r and cfg = cfg]] wp_mono [OF undo_refines [where r = r and cfg = cfg and i = ?i]]
        intro: dns_ownedI up_if dest: idle split: option.split sum.split)
qed


section \<open>Runs\<close>

lemma call_is_step: "connection_call call s = (d, t) \<Longrightarrow> conn_step s t"
  by (cases call; cases s) (auto simp: apfst_def map_prod_def intro: conn_step.intros split: prod.splits)

lemma outcomeD:
  assumes "wp m (\<lambda>_. R True) (\<lambda>_. R False) s" and "apfst is_ok (m s) = (d, t)"
  shows "R d t"
  using assms by (auto simp: wp_def apfst_def map_prod_def split: prod.splits sum.splits)

lemma call_refines:
  assumes "connection_inv r cfg s" and "connection_call call s = (d, t)"
  shows "refines s call d t"
proof (cases call)
  case Health
  have "wp connection_health (\<lambda>_. refines s Health True) (\<lambda>_. refines s Health False) s"
    by (rule wp_mono [OF health_refines [OF assms(1)]]) simp_all
  from outcomeD [OF this] show ?thesis using assms(2) Health by simp
next
  case (Signal token)
  then show ?thesis using assms(2) by auto
next
  case (Connect token)
  then show ?thesis using outcomeD [OF connect_refines [OF assms(1), of token]] assms(2) by simp
qed (use assms(2) outcomeD [OF disconnect_refines [OF assms(1)]]
      outcomeD [OF disable_refines [OF assms(1)]] in simp_all)

lemma calls_refine:
  assumes "connection_inv r cfg s" and "conn_identity (fst s) = (i, m)" and "connection_calls calls s = (ds, t)"
  shows "lifecycle_run m i calls ds (lifecycle_of (fst s)) (lifecycle_of (fst t))"
  using assms
proof (induction calls arbitrary: s ds)
  case (Cons call calls)
  obtain d u where u: "connection_call call s = (d, u)" by (metis prod.exhaust)
  obtain es where es: "connection_calls calls u = (es, t)" "ds = d # es"
    using Cons.prems(3) u by (cases "connection_calls calls u") auto
  have step: "conn_step s u" by (rule call_is_step [OF u])
  have "lifecycle_run m i calls es (lifecycle_of (fst u)) (lifecycle_of (fst t))"
    using Cons.IH [OF conn_step_inv [OF step Cons.prems(1)] _ es(1)] conn_step_identity [OF step] Cons.prems(2) by simp
  moreover have "lifecycle_move m i call d (lifecycle_of (fst s)) (lifecycle_of (fst u))"
    using call_refines [OF Cons.prems(1) u] Cons.prems(2) by (simp add: conn_identity_def)
  ultimately show ?case using es(2) by auto
qed auto

section \<open>Properties\<close>

text \<open>
  C5. The connection refines its life cycle: after any sequence of calls and signals on a
  connection built from some settings, the outcomes of the calls and the observable state are ones
  the abstract life cycle allows, starting blocked with nothing up.  So a connect only succeeds
  when no tunnel was up, a disconnect only when tunnel and resolver are both owned, and disabling
  only without a tunnel and out of always-on mode.
\<close>

theorem connection_refines_lifecycle:
  assumes "with_runners settings cr dr nr w0 = (Inr c, w)"
    and "guarded (in_force nr (settings_nft settings)) (trace w0)"
    and "connection_calls calls (c, w) = (outcomes, (c', w'))"
  shows "lifecycle_run (settings_always_on settings) (settings_interface settings) calls outcomes
    \<lparr>life_policy = BlockNonTunnel, tunnel_up = False, resolver_set = False\<rparr> (lifecycle_of c')"
proof -
  have c: "connection_inv nr (settings_nft settings) (c, w)"
    "conn_identity c = (settings_interface settings, settings_always_on settings)"
    "lifecycle_of c = \<lparr>life_policy = BlockNonTunnel, tunnel_up = False, resolver_set = False\<rparr>"
    using wp_OkD [OF with_runners_law [OF assms(2)] assms(1)]
    by (simp_all add: conn_identity_def lifecycle_of_def needs_revert_def)
  show ?thesis using calls_refine [OF c(1) _ assms(3)] c(2,3) by simp
qed

text \<open>A connect on the calm platform, then a second one.\<close>

theorem connection_refines_lifecycle_witness:
  "\<exists>c w outcomes c' w'. with_runners example_settings 0 1 2 calm_world = (Inr c, w) \<and>
     connection_calls [Connect 0, Connect 0] (c, w) = (outcomes, (c', w')) \<and>
     outcomes = [True, False] \<and> tunnel_up (lifecycle_of c')"
proof -
  obtain r w where start: "with_runners example_settings 0 1 2 calm_world = (r, w)" by fastforce
  then obtain c where c: "r = Inr c" "calm w" "fresh_connection c"
    using wp_resultD [OF with_runners_calm start] by (cases r) auto
  obtain r1 s1 where first: "connection_connect 0 (c, w) = (r1, s1)" by (metis prod.exhaust)
  then have ok: "is_ok r1" using wp_resultD [OF connect_calm [OF c(2,3)] first] by (cases r1) auto
  obtain r2 c' w' where second: "connection_connect 0 s1 = (r2, (c', w'))" by (metis prod.exhaust)
  have calls: "connection_calls [Connect 0, Connect 0] (c, w) = ([True, is_ok r2], (c', w'))"
    using first second ok by simp
  from connection_refines_lifecycle [OF start [unfolded c(1)] example_start_guarded calls]
  have "\<not> is_ok r2 \<and> tunnel_up (lifecycle_of c')" by (cases "is_ok r2") auto
  then show ?thesis using start c(1) calls by auto
qed

end
