(* ===== verification/Net_Addr_Roundtrip.thy ===== *)
theory Net_Addr_Roundtrip
  imports Net_Addr
begin

text \<open>
  Reading back the canonical text of an address of either family: the compressed and the
  uncompressed form of an IPv6 address, and the form with an embedded IPv4 address.
\<close>

section \<open>Hexadecimal groups\<close>

lemma show_hex_not_Nil [simp]: "show_hex n \<noteq> []"
  by (subst show_hex.simps) simp

lemma show_hex_hex: "c \<in> set (show_hex n) \<Longrightarrow> to_digit 16 c \<noteq> None"
proof (induction n rule: show_hex.induct)
  case (1 n)
  have d: "to_digit 16 (digit_char k) \<noteq> None" if "k < 16" for k
    using that to_digit_digit_char [of k 16] by simp
  show ?case
    using 1 d show_hex.simps [of n] by (auto split: if_splits)
qed

lemma digits_value_show_hex: "digits_value 16 0 (show_hex n) = Some n"
proof (induction n rule: show_hex.induct)
  case (1 n)
  show ?case
  proof (cases "n < 16")
    case True
    then show ?thesis by (simp add: show_hex.simps [of n] to_digit_digit_char)
  next
    case False
    then have "digits_value 16 0 (show_hex (n div 16)) = Some (n div 16)" by (rule 1)
    with False show ?thesis
      by (simp add: show_hex.simps [of n] digits_value_append to_digit_digit_char)
  qed
qed

lemma length_show_hex:
  assumes "n < 16 ^ k" and "0 < k"
  shows "length (show_hex n) \<le> k"
  using assms
proof (induction k arbitrary: n)
  case 0
  then show ?case by simp
next
  case (Suc k)
  show ?case
  proof (cases "n < 16")
    case True
    then show ?thesis by (simp add: show_hex.simps)
  next
    case False
    then have "0 < k" using Suc.prems by (cases k) auto
    moreover have "n div 16 < 16 ^ k" using Suc.prems by (simp add: less_mult_imp_div_less)
    ultimately have "length (show_hex (n div 16)) \<le> k" by (rule Suc.IH [rotated])
    then show ?thesis using False by (simp add: show_hex.simps [of n])
  qed
qed

lemma read_number_show_hex:
  assumes "n < 65536" and "r = [] \<or> to_digit 16 (hd r) = None"
  shows "read_number 16 4 True 65535 (show_hex n @ r) = Some (n, r)"
proof -
  have take: "takeWhile (\<lambda>c. to_digit 16 c \<noteq> None) (show_hex n @ r) = show_hex n"
    using show_hex_hex assms(2) by (cases r) (simp_all add: takeWhile_append2)
  have "length (show_hex n) \<le> 4" using assms(1) by (intro length_show_hex) simp_all
  then show ?thesis
    unfolding read_number_def Let_def take using assms(1) digits_value_show_hex [of n] by simp
qed

section \<open>Groups without an embedded IPv4 address\<close>

lemma read_number_suffix: "read_number radix k z m s = Some (v, r) \<Longrightarrow> set r \<subseteq> set s"
  by (auto simp: read_number_def Let_def split: option.splits if_splits dest: in_set_dropD)

text \<open>An IPv4 address has a dot.\<close>

lemma read_ipv4_needs_dot:
  assumes "CHR ''.'' \<notin> set s"
  shows "read_ipv4_addr s = None"
proof -
  have "read_octets 0 (Suc (Suc n)) s = None" for n
  proof (cases "read_number 10 3 False 255 s")
    case None
    then show ?thesis by (simp add: read_separator_def)
  next
    case (Some p)
    obtain v r where p: "p = (v, r)" by fastforce
    have "CHR ''.'' \<notin> set r" using read_number_suffix Some p assms by blast
    then have "read_octets 1 (Suc n) r = None" by (cases r) (auto simp: read_separator_def)
    then show ?thesis using Some p by (simp add: read_separator_def)
  qed
  from this [of 2] show ?thesis by (simp add: read_ipv4_addr_def numeral_eq_Suc)
qed

lemma read_ipv4_letter: "to_digit 10 c = None \<Longrightarrow> read_ipv4_addr (c # s) = None"
proof -
  assume "to_digit 10 c = None"
  then have "read_octets 0 (Suc n) (c # s) = None" for n
    by (simp add: read_separator_def read_number_def)
  from this [of 3] show ?thesis by (simp add: read_ipv4_addr_def)
qed

lemma read_separator_ipv4:
  "CHR ''.'' \<notin> set s \<Longrightarrow> read_separator c k read_ipv4_addr s = None"
  by (cases s) (auto simp: read_separator_def read_ipv4_needs_dot)

lemma colon_not_hex [simp]: "to_digit 16 CHR '':'' = None"
  by (simp add: to_digit_def Let_def)

text \<open>The text a group cannot start with: the end, or the abbreviation of zeros.\<close>

definition group_end :: "string \<Rightarrow> bool" where
  "group_end r \<longleftrightarrow> r = [] \<or> take 2 r = ''::''"

lemma read_group_end:
  assumes "group_end r"
  shows "read_separator CHR '':'' k (read_number 16 4 True 65535) r = None"
proof (cases r)
  case Nil
  then show ?thesis by (simp add: read_separator_def read_number_def)
next
  case (Cons c r')
  then obtain r'' where "r = CHR '':'' # CHR '':'' # r''"
    using assms by (cases r') (auto simp: group_end_def)
  then show ?thesis by (simp add: read_separator_def read_number_def)
qed

lemma read_groups_end:
  assumes "group_end r" and "CHR ''.'' \<notin> set r"
  shows "read_groups k n r = ([], False, r)"
  using assms by (cases n) (simp_all add: read_group_end read_separator_ipv4)

lemma group_end_hd: "group_end r \<Longrightarrow> r = [] \<or> to_digit 16 (hd r) = None"
  by (cases r) (auto simp: group_end_def)

lemma show_segments_Cons:
  "show_segments (x # xs) = show_hex x @ (if xs = [] then [] else CHR '':'' # show_segments xs)"
  by (cases xs) (simp_all add: show_segments_def)

lemma show_segments_no_dot: "CHR ''.'' \<notin> set (show_segments xs)"
proof -
  have "CHR ''.'' \<notin> set (show_hex n)" for n
    using show_hex_chars [of "CHR ''.''" n] by (auto simp: is_ascii_alphanumeric_def is_ascii_digit_def)
  then show ?thesis by (auto simp: show_segments_def dest!: set_join)
qed

lemma read_groups_step:
  assumes "read_separator CHR '':'' k read_ipv4_addr s = None"
    and "read_separator CHR '':'' k (read_number 16 4 True 65535) s = Some (g, r)"
    and "read_groups (Suc k) n r = (gs, v, r')"
  shows "read_groups k (Suc n) s = (g # gs, v, r')"
  using assms by (cases n) auto

lemma read_groups_segments:
  assumes "\<forall>x \<in> set xs. x < 65536" and "length xs \<le> n" and "xs \<noteq> []"
    and "group_end r" and "CHR ''.'' \<notin> set r"
  shows "read_groups k n ((if k = 0 then [] else '':'') @ show_segments xs @ r) = (xs, False, r)"
  using assms(1-3)
proof (induction xs arbitrary: k n)
  case Nil
  then show ?case by simp
next
  case (Cons x xs)
  obtain n' where n: "n = Suc n'" using Cons.prems(2) by (cases n) auto
  let ?rest = "(if xs = [] then [] else CHR '':'' # show_segments xs) @ r"
  have printed: "(if k = 0 then [] else '':'') @ show_segments (x # xs) @ r =
      (if k = 0 then [] else '':'') @ show_hex x @ ?rest"
    by (simp add: show_segments_Cons)
  have nodot: "CHR ''.'' \<notin> set ((if k = 0 then [] else '':'') @ show_segments (x # xs) @ r)"
    using show_segments_no_dot assms(5) by auto
  have "?rest = [] \<or> to_digit 16 (hd ?rest) = None"
    using group_end_hd [OF assms(4)] by auto
  then have number: "read_separator CHR '':'' k (read_number 16 4 True 65535)
      ((if k = 0 then [] else '':'') @ show_hex x @ ?rest) = Some (x, ?rest)"
    using read_number_show_hex [of x ?rest] Cons.prems(1) by (simp add: read_separator_def)
  have rest: "read_groups (Suc k) n' ?rest = (xs, False, r)"
  proof (cases "xs = []")
    case True
    then show ?thesis using read_groups_end [OF assms(4,5)] by simp
  next
    case False
    then show ?thesis using Cons.IH [of n' "Suc k"] Cons.prems n by simp
  qed
  show ?case
    using nodot unfolding n printed by (intro read_groups_step [OF read_separator_ipv4 number rest])
qed

lemma read_groups_show:
  assumes "\<forall>x \<in> set xs. x < 65536" and "length xs \<le> n" and "group_end r" and "CHR ''.'' \<notin> set r"
  shows "read_groups 0 n (show_segments xs @ r) = (xs, False, r)"
proof (cases "xs = []")
  case True
  then show ?thesis using read_groups_end [OF assms(3,4)] by (simp add: show_segments_def)
next
  case False
  then show ?thesis using read_groups_segments [OF assms(1,2) False assms(3,4), of 0] by simp
qed

section \<open>The run of zeros\<close>

definition zero_run :: "nat list \<Rightarrow> nat \<times> nat \<Rightarrow> bool" where
  "zero_run ys p \<longleftrightarrow> fst p + snd p \<le> length ys \<and> take (snd p) (drop (fst p) ys) = replicate (snd p) 0"

lemma zero_run_extend:
  assumes "zero_run ys (s, k)" and "s + k = length ys"
  shows "zero_run (ys @ 0 # xs) (s, Suc k)"
proof -
  have "drop s ys = replicate k 0" using assms by (simp add: zero_run_def)
  then show ?thesis using assms(2) by (simp add: zero_run_def replicate_append_same)
qed

lemma zero_run_append: "zero_run ys p \<Longrightarrow> zero_run (ys @ xs) p"
  by (auto simp: zero_run_def)

lemma zero_span_run:
  assumes "zero_run ys current" and "snd current = 0 \<or> fst current + snd current = length ys" and "zero_run ys longest"
  shows "zero_run (ys @ xs) (zero_span (length ys) current longest xs)"
  using assms
proof (induction xs arbitrary: ys current longest)
  case Nil
  then show ?case by simp
next
  case (Cons x xs)
  show ?case
  proof (cases "x = 0")
    case False
    have "zero_run (ys @ [x]) (0, 0)" by (simp add: zero_run_def)
    then show ?thesis
      using Cons.IH [of "ys @ [x]" "(0, 0)" longest] Cons.prems(3) zero_run_append False by simp
  next
    case True
    define c where "c = (if snd current = 0 then (length ys, 1) else (fst current, snd current + 1))"
    have c: "zero_run (ys @ [x]) c" "fst c + snd c = length (ys @ [x])"
      using Cons.prems(1,2) True zero_run_extend [of ys "fst current" "snd current" "[]"]
      by (auto simp: c_def zero_run_def)
    have "zero_run ((ys @ [x]) @ xs) (zero_span (length (ys @ [x])) c (if snd longest < snd c then c else longest) xs)"
      by (rule Cons.IH) (use c zero_run_append Cons.prems(3) in auto)
    moreover have "zero_span (length ys) current longest (x # xs) =
        zero_span (length (ys @ [x])) c (if snd longest < snd c then c else longest) xs"
      by (simp add: True c_def Let_def)
    ultimately show ?thesis by simp
  qed
qed

lemma zero_span_split:
  assumes "zero_span 0 (0, 0) (0, 0) xs = (s, k)"
  shows "xs = take s xs @ replicate k 0 @ drop (s + k) xs" and "s + k \<le> length xs"
proof -
  have "zero_run xs (s, k)"
    using zero_span_run [of "[]" "(0, 0)" "(0, 0)" xs] assms by (simp add: zero_run_def)
  then have run: "take k (drop s xs) = replicate k 0" "s + k \<le> length xs" by (simp_all add: zero_run_def)
  have "xs = take s xs @ take k (drop s xs) @ drop k (drop s xs)" by (metis append_take_drop_id)
  then show "xs = take s xs @ replicate k 0 @ drop (s + k) xs"
    unfolding run(1) drop_drop by (simp add: add.commute)
  show "s + k \<le> length xs" by (rule run(2))
qed

section \<open>The segments of an address\<close>

lemma length_segments [simp]: "length (segments a) = 8"
  by (simp add: segments_def)

lemma segments_small: "x \<in> set (segments a) \<Longrightarrow> x < 65536"
  by (auto simp: segments_def)

lemma from_digits_snoc: "from_digits b (xs @ [x]) = from_digits b xs * b + x"
  by (simp add: from_digits_def)

lemma from_digits_segments: "from_digits 65536 (segments a) = unat a"
proof -
  let ?n = "unat a"
  have "?n < 65536 ^ 8" using unsigned_less [of a] by simp
  then have top: "?n div 65536 ^ 7 mod 65536 = ?n div 65536 ^ 7"
    by (intro mod_less) (simp add: less_mult_imp_div_less)
  define q where "q i = ?n div 65536 ^ i" for i
  have step: "q j * 65536 + q i mod 65536 = q i" if "j = Suc i" for i j
    unfolding q_def that by (metis div_mult2_eq div_mult_mod_eq power_Suc2)
  have steps: "q 7 * 65536 + q 6 mod 65536 = q 6" "q 6 * 65536 + q 5 mod 65536 = q 5"
    "q 5 * 65536 + q 4 mod 65536 = q 4" "q 4 * 65536 + q 3 mod 65536 = q 3" "q 3 * 65536 + q 2 mod 65536 = q 2"
    "q 2 * 65536 + q 1 mod 65536 = q 1" "q 1 * 65536 + q 0 mod 65536 = q 0"
    by (rule step; simp)+
  have "segments a = map (\<lambda>i. q (7 - i) mod 65536) [0, 1, 2, 3, 4, 5, 6, 7]"
    by (simp add: segments_def q_def)
  then have "segments a = [q 7, q 6 mod 65536, q 5 mod 65536, q 4 mod 65536, q 3 mod 65536, q 2 mod 65536,
      q 1 mod 65536, q 0 mod 65536]"
    using top by (simp add: q_def)
  then have "from_digits 65536 (segments a) = q 0"
    by (simp only: from_digits_def foldl.simps mult_0 add_0 steps)
  then show ?thesis by (simp add: q_def)
qed

section \<open>Reading back an address\<close>

lemma read_ipv6_uncompressed:
  assumes "\<forall>x \<in> set xs. x < 65536" and "length xs = 8"
  shows "read_ipv6_addr (show_segments xs) = Some (of_nat (from_digits 65536 xs), [])"
  using read_groups_show [OF assms(1), of 8 "[]"] assms(2) by (simp add: read_ipv6_addr_def group_end_def)

lemma read_ipv6_compressed:
  assumes "\<forall>x \<in> set (pre @ post). x < 65536" and "length pre + length post < 8"
  shows "read_ipv6_addr (show_segments pre @ ''::'' @ show_segments post) =
    Some (of_nat (from_digits 65536 (pre @ replicate (8 - length pre - length post) 0 @ post)), [])"
proof -
  have "read_groups 0 8 (show_segments pre @ ''::'' @ show_segments post) = (pre, False, ''::'' @ show_segments post)"
    using assms show_segments_no_dot by (intro read_groups_show) (auto simp: group_end_def)
  moreover have "read_groups 0 (8 - (length pre + 1)) (show_segments post) = (post, False, [])"
    using assms read_groups_show [of post "8 - (length pre + 1)" "[]"] by (simp add: group_end_def)
  ultimately show ?thesis using assms(2) by (simp add: read_ipv6_addr_def)
qed

lemma segments_mapped:
  assumes "take 6 (segments a) = [0, 0, 0, 0, 0, 65535]"
  shows "segments a = [0, 0, 0, 0, 0, 65535, unat (ucast a :: u32) div 65536, unat (ucast a :: u32) mod 65536]"
proof -
  obtain x y where xy: "drop 6 (segments a) = [x, y]" "x = unat a div 65536 mod 65536" "y = unat a mod 65536"
    by (simp add: segments_def)
  have low: "unat (ucast a :: u32) = unat a mod 65536 ^ 2"
    by (simp add: unsigned_ucast_eq take_bit_eq_mod)
  have "unat a mod 65536 ^ 2 div 65536 = x" "unat a mod 65536 ^ 2 mod 65536 = y"
    using xy(2,3) mod_mult2_eq [of "unat a" 65536 65536] by (simp_all add: mod_mod_cancel)
  then show ?thesis
    using append_take_drop_id [of 6 "segments a"] assms xy(1) low by simp
qed

lemma read_ipv6_mapped:
  "read_ipv6_addr (''::ffff:'' @ show_ipv4 v) =
     Some (of_nat (from_digits 65536 [0, 0, 0, 0, 0, 65535, unat v div 65536, unat v mod 65536]), [])"
proof -
  have v4: "read_ipv4_addr (show_ipv4 v) = Some (v, [])" using read_show_ipv4 [of "[]" v] by simp
  have start: "read_groups 0 8 (''::ffff:'' @ show_ipv4 v) = ([], False, ''::ffff:'' @ show_ipv4 v)"
    using read_groups.simps(2) [of 0 7 "''::ffff:'' @ show_ipv4 v"]
    by (simp add: read_separator_def read_ipv4_letter read_number_def to_digit_def)
  have "show_hex 65535 = ''ffff''" by (simp add: show_hex.simps digit_char_def char_of_def bit_0)
  then have hex: "read_number 16 4 True 65535 (''ffff:'' @ show_ipv4 v) = Some (65535, CHR '':'' # show_ipv4 v)"
    using read_number_show_hex [of 65535 "CHR '':'' # show_ipv4 v"] by simp
  have "read_groups 1 6 (CHR '':'' # show_ipv4 v) = ([unat v div 65536, unat v mod 65536], True, [])"
    using read_groups.simps(2) [of 1 5 "CHR '':'' # show_ipv4 v"] v4 by (simp add: read_separator_def)
  then have "read_groups 0 7 (''ffff:'' @ show_ipv4 v) = ([65535, unat v div 65536, unat v mod 65536], True, [])"
    using read_groups_step [of 0 "''ffff:'' @ show_ipv4 v" 65535 "CHR '':'' # show_ipv4 v" 6] hex
    by (simp add: read_separator_def read_ipv4_letter to_digit_def)
  moreover have "replicate 5 (0 :: nat) = [0, 0, 0, 0, 0]" by (simp add: eval_nat_numeral)
  ultimately show ?thesis using start by (simp add: read_ipv6_addr_def)
qed

lemma show_ipv6_not_ipv4: "read_ipv4_addr (show_ipv6 a) = None"
proof (cases "to_ipv4_mapped a")
  case None
  then have "CHR ''.'' \<notin> set (show_ipv6 a)"
    using show_segments_no_dot by (auto simp: show_ipv6_def Let_def)
  then show ?thesis by (rule read_ipv4_needs_dot)
next
  case (Some v)
  then show ?thesis
    by (simp add: show_ipv6_def read_ipv4_letter to_digit_def)
qed

lemma read_show_ipv6: "read_ipv6_addr (show_ipv6 a) = Some (a, [])"
proof (cases "to_ipv4_mapped a")
  case (Some v)
  then have "segments a = [0, 0, 0, 0, 0, 65535, unat v div 65536, unat v mod 65536]"
    using segments_mapped [of a] by (auto simp: to_ipv4_mapped_def split: if_splits)
  then show ?thesis
    using Some read_ipv6_mapped [of v] from_digits_segments [of a] by (simp add: show_ipv6_def)
next
  case None
  obtain s k where run: "zero_span 0 (0, 0) (0, 0) (segments a) = (s, k)" by fastforce
  have small: "\<forall>x \<in> set (segments a). x < 65536" using segments_small by blast
  show ?thesis
  proof (cases "1 < k")
    case False
    then show ?thesis
      using None run read_ipv6_uncompressed [OF small] from_digits_segments [of a]
      by (simp add: show_ipv6_def Let_def)
  next
    case True
    have split: "segments a = take s (segments a) @ replicate k 0 @ drop (s + k) (segments a)" "s + k \<le> 8"
      using zero_span_split [OF run] by simp_all
    have "read_ipv6_addr (show_segments (take s (segments a)) @ ''::'' @ show_segments (drop (s + k) (segments a))) =
        Some (of_nat (from_digits 65536 (segments a)), [])"
      using read_ipv6_compressed [of "take s (segments a)" "drop (s + k) (segments a)"] small split True
      by (auto dest: in_set_takeD in_set_dropD)
    then show ?thesis
      using None run True from_digits_segments [of a] by (simp add: show_ipv6_def Let_def)
  qed
qed

lemma parse_show_ip: "parse_ip (show_ip a) = Some a"
  by (cases a) (simp_all add: parse_show_ipv4, simp add: parse_ip_def show_ipv6_not_ipv4 read_show_ipv6)

end
