(* ===== verification/Client_Config.thy ===== *)
theory Client_Config
  imports Linux_Connection Net_Addr_Roundtrip
begin

text \<open>
  \<^verbatim>\<open>apps/linux-client/src/lib.rs\<close>: the client's configuration and its conversion to the
  settings of a connection.  A slice inside a code point panics: the conversion then is \<open>None\<close>.
  The theorems show what a converted configuration guarantees and that the text forms read back.
\<close>

section \<open>Configuration\<close>

record ClientTools =
  client_ip :: path
  client_wg :: path
  client_nft :: path
  client_resolvectl :: path
  client_private_key :: path

record ClientConfig =
  client_interface :: string
  runtime_directory :: path
  client_endpoint_address :: IpAddr
  client_endpoint_port :: u16
  peer_public_key_hex :: string
  client_tunnel_addresses :: "string list"
  client_allowed_ips :: "string list"
  dns_resolvers :: "IpAddr list"
  client_mtu :: u16
  client_keepalive :: "u16 option"
  client_routing_mark :: u32
  connect_timeout_seconds :: u64
  client_always_on :: bool
  client_tools :: ClientTools

datatype ConfigError =
    UnsafeFile
  | Oversized
  | ConfigIo io_error
  | Json string
  | InvalidField string
  | UnsafeRuntimeDirectory

fun ConfigError_display :: "ConfigError \<Rightarrow> string" where
  "ConfigError_display UnsafeFile = ''client configuration must be an absolute private regular file''"
| "ConfigError_display Oversized = ''client configuration exceeds 1 MiB''"
| "ConfigError_display (ConfigIo e) = ''client configuration I/O failed: '' @ io_text e"
| "ConfigError_display (Json e) = ''client configuration JSON is invalid: '' @ e"
| "ConfigError_display (InvalidField reason) = ''client configuration is invalid: '' @ reason"
| "ConfigError_display UnsafeRuntimeDirectory =
     ''client runtime directory must be an absolute private directory''"

section \<open>Fields\<close>

abbreviation invalid_key :: ConfigError where
  "invalid_key \<equiv> InvalidField ''peer_public_key_hex must contain 64 hexadecimal characters''"

fun decode_bytes :: "string \<Rightarrow> nat list \<Rightarrow> (ConfigError + u8 list) option" where
  "decode_bytes v [] = Some (Inr [])"
| "decode_bytes v (index # indices) =
     (case str_slice v (index * 2) (index * 2 + 2) of
        None \<Rightarrow> None
      | Some pair \<Rightarrow>
          (case parse_uint 16 255 pair of
             None \<Rightarrow> Some (Inl invalid_key)
           | Some b \<Rightarrow>
               (case decode_bytes v indices of
                  None \<Rightarrow> None
                | Some (Inl e) \<Rightarrow> Some (Inl e)
                | Some (Inr bs) \<Rightarrow> Some (Inr (of_nat b # bs)))))"

definition decode_key :: "string \<Rightarrow> (ConfigError + u8 list) option" where
  "decode_key v = (if length v \<noteq> 64 then Some (Inl invalid_key) else decode_bytes v [0..<32])"

definition parse_cidr :: "string \<Rightarrow> ConfigError + IpAddr \<times> u8" where
  "parse_cidr v =
     (case split_once CHR ''/'' v of
        None \<Rightarrow> Inl (InvalidField ''invalid CIDR prefix'')
      | Some (a, p) \<Rightarrow>
          (case parse_ip a of
             None \<Rightarrow> Inl (InvalidField ''invalid CIDR address'')
           | Some addr \<Rightarrow>
               (case parse_uint 10 255 p of
                  None \<Rightarrow> Inl (InvalidField ''invalid CIDR prefix length'')
                | Some len \<Rightarrow>
                    if (if is_ipv4 addr then 32 else 128) < len
                    then Inl (InvalidField ''CIDR prefix length exceeds address family'')
                    else Inr (addr, of_nat len))))"

fun collect_results :: "('a \<Rightarrow> 'e + 'b) \<Rightarrow> 'a list \<Rightarrow> 'e + 'b list" where
  "collect_results f [] = Inr []"
| "collect_results f (x # xs) =
     (case f x of
        Inl e \<Rightarrow> Inl e
      | Inr y \<Rightarrow> (case collect_results f xs of Inl e \<Rightarrow> Inl e | Inr ys \<Rightarrow> Inr (y # ys)))"

definition tunnel_address_of :: "string \<Rightarrow> ConfigError + TunnelAddress" where
  "tunnel_address_of v = (case parse_cidr v of Inl e \<Rightarrow> Inl e | Inr (a, p) \<Rightarrow> Inr \<lparr>address = a, address_prefix = p\<rparr>)"

definition allowed_ip_of :: "string \<Rightarrow> ConfigError + AllowedIp" where
  "allowed_ip_of v = (case parse_cidr v of Inl e \<Rightarrow> Inl e | Inr (a, p) \<Rightarrow> Inr \<lparr>network = a, prefix_length = p\<rparr>)"

section \<open>Conversion\<close>

text \<open>The settings of a configuration, from its decoded parts.\<close>

definition settings_of ::
  "ClientConfig \<Rightarrow> u8 list \<Rightarrow> TunnelAddress list \<Rightarrow> AllowedIp list \<Rightarrow> LinuxConnectionSettings" where
  "settings_of c k tas nets =
     \<lparr>settings_interface = client_interface c,
      settings_profile =
        \<lparr>peer_public_key = k,
         wg_endpoint = \<lparr>host = show_ip (client_endpoint_address c), port = client_endpoint_port c\<rparr>,
         tunnel_addresses = tas, allowed_ips = nets,
         persistent_keepalive_seconds = client_keepalive c, mtu = client_mtu c\<rparr>,
      settings_dns = \<lparr>resolvers = dns_resolvers c\<rparr>,
      settings_tools = \<lparr>tool_ip = client_ip (client_tools c), tool_wg = client_wg (client_tools c),
                        private_key = client_private_key (client_tools c)\<rparr>,
      settings_dns_tools = \<lparr>tool_resolvectl = client_resolvectl (client_tools c)\<rparr>,
      settings_routing_mark = client_routing_mark c,
      settings_connect_timeout = duration_from_secs (connect_timeout_seconds c),
      settings_always_on = client_always_on c\<rparr>"

definition into_connection_settings :: "ClientConfig \<Rightarrow> (ConfigError + LinuxConnectionSettings) option" where
  "into_connection_settings c =
     (if client_endpoint_port c = 0 then Some (Inl (InvalidField ''endpoint_port must be nonzero''))
      else if client_routing_mark c = 0 then Some (Inl (InvalidField ''routing_mark must be nonzero''))
      else case decode_key (peer_public_key_hex c) of
             None \<Rightarrow> None
           | Some (Inl e) \<Rightarrow> Some (Inl e)
           | Some (Inr k) \<Rightarrow>
               Some (case collect_results tunnel_address_of (client_tunnel_addresses c) of
                       Inl e \<Rightarrow> Inl e
                     | Inr tas \<Rightarrow>
                         (case collect_results allowed_ip_of (client_allowed_ips c) of
                            Inl e \<Rightarrow> Inl e
                          | Inr nets \<Rightarrow> Inr (settings_of c k tas nets))))"

section \<open>Reading back\<close>

lemma split_once_append: "c \<notin> set a \<Longrightarrow> split_once c (a @ c # b) = Some (a, b)"
  by (induction a) (auto simp: split_once_def)

lemma slash_not_ip_char: "\<not> ip_char CHR ''/''"
  by (simp add: ip_char_def is_ascii_alphanumeric_def is_ascii_digit_def)

lemma parse_cidr_prefix_text:
  assumes "p \<le> maximum_prefix a"
  shows "parse_cidr (prefix_text a p) = Inr (a, p)"
proof -
  have "CHR ''/'' \<notin> set (show_ip a)" using show_ip_chars slash_not_ip_char by blast
  then have cut: "split_once CHR ''/'' (prefix_text a p) = Some (show_ip a, show_dec (unat p))"
    using split_once_append by (simp add: prefix_text_def)
  have "unat p < 2 ^ LENGTH(8)" by (rule unsigned_less)
  then have "unat p \<le> 255" by simp
  moreover have "unat p \<le> (if is_ipv4 a then 32 else 128)"
    using assms by (auto simp: maximum_prefix_def word_le_nat_alt split: if_splits)
  ultimately show ?thesis
    by (simp add: parse_cidr_def cut parse_show_ip parse_show_dec not_less)
qed

text \<open>The hexadecimal text of a key.\<close>

definition byte_hex :: "u8 \<Rightarrow> string" where
  "byte_hex b = [digit_char (unat b div 16), digit_char (unat b mod 16)]"

definition key_hex :: "u8 list \<Rightarrow> string" where
  "key_hex k = concat (map byte_hex k)"

definition is_ascii :: "string \<Rightarrow> bool" where
  "is_ascii s = (\<forall>c \<in> set s. byte c < 128)"

lemma ascii_slice:
  assumes "is_ascii s" and "a \<le> b" and "b \<le> length s"
  shows "str_slice s a b = Some (take (b - a) (drop a s))"
proof -
  have "is_char_boundary s n" if "n \<le> length s" for n
  proof (cases "n = length s")
    case False
    then have "n < length s" using that by simp
    moreover from this have "byte (s ! n) < 128" using assms(1) by (simp add: is_ascii_def)
    ultimately show ?thesis by (simp add: is_char_boundary_def cont_def)
  qed (simp add: is_char_boundary_def)
  then show ?thesis using assms(2,3) by (simp add: str_slice_def)
qed

lemma length_key_hex [simp]: "length (key_hex k) = 2 * length k"
  by (induction k) (simp_all add: key_hex_def byte_hex_def)

lemma key_hex_pair: "i < length k \<Longrightarrow> take 2 (drop (i * 2) (key_hex k)) = byte_hex (k ! i)"
  by (induction k arbitrary: i) (auto simp: key_hex_def byte_hex_def less_Suc_eq_0_disj)

lemma unat_u8: "unat (b :: u8) < 256"
proof -
  have "unat b < 2 ^ LENGTH(8)" by (rule unsigned_less)
  then show ?thesis by simp
qed

lemma digit_char_ascii: "d < 16 \<Longrightarrow> byte (digit_char d) < (128 :: nat)"
  by (simp add: digit_char_def)

lemma ascii_key_hex: "is_ascii (key_hex k)"
  using unat_u8 digit_char_ascii
  by (auto simp: is_ascii_def key_hex_def byte_hex_def intro!: digit_char_ascii less_mult_imp_div_less)

lemma parse_byte_hex: "parse_uint 16 255 (byte_hex b) = Some (unat b)"
proof -
  have d: "unat b div 16 < 16" "unat b mod 16 < 16" using unat_u8 [of b] by auto
  have "digit_char (unat b div 16) \<noteq> CHR ''+''"
    using to_digit_digit_char [OF d(1), of ] by (auto simp: to_digit_def)
  then show ?thesis
    using d unat_u8 [of b] to_digit_digit_char [of "unat b div 16" 16] to_digit_digit_char [of "unat b mod 16" 16]
    by (simp add: parse_uint_def byte_hex_def)
qed

lemma decode_bytes_all:
  assumes "\<And>i. i \<in> set is \<Longrightarrow> \<exists>pair. str_slice v (i * 2) (i * 2 + 2) = Some pair \<and> parse_uint 16 255 pair = Some (unat (k ! i))"
  shows "decode_bytes v is = Some (Inr (map (nth k) is))"
  using assms
proof (induction "is")
  case Nil
  then show ?case by simp
next
  case (Cons i "is")
  then show ?case using Cons.prems [of i] by fastforce
qed

lemma decode_key_hex:
  assumes "length k = 32"
  shows "decode_key (key_hex k) = Some (Inr k)"
proof -
  have "decode_bytes (key_hex k) [0..<32] = Some (Inr (map (nth k) [0..<32]))"
    using assms by (intro decode_bytes_all) (auto simp: ascii_slice ascii_key_hex key_hex_pair parse_byte_hex)
  moreover have "map (nth k) [0..<32] = k" using assms map_nth [of k] by simp
  ultimately show ?thesis using assms by (simp add: decode_key_def)
qed

lemma decode_bytes_length: "decode_bytes v is = Some (Inr k) \<Longrightarrow> length k = length is"
  by (induction "is" arbitrary: k) (auto split: option.splits sum.splits)

lemma decode_key_length: "decode_key v = Some (Inr k) \<Longrightarrow> length k = 32"
  using decode_bytes_length by (fastforce simp: decode_key_def split: if_splits)

lemma decode_bytes_ascii:
  assumes "is_ascii v" and "\<forall>i \<in> set is. i * 2 + 2 \<le> length v"
  shows "decode_bytes v is \<noteq> None"
  using assms(2) by (induction "is") (auto simp: ascii_slice [OF assms(1)] split: option.splits sum.splits)

lemma decode_key_ascii: "is_ascii v \<Longrightarrow> decode_key v \<noteq> None"
  using decode_bytes_ascii [of v "[0..<32]"] by (auto simp: decode_key_def)

lemma collect_results_map:
  "(\<And>x. x \<in> set xs \<Longrightarrow> f (g x) = Inr x) \<Longrightarrow> collect_results f (map g xs) = Inr xs"
  by (induction xs) auto

lemma collect_results_ok:
  assumes "collect_results f xs = Inr ys" and "\<And>x y. f x = Inr y \<Longrightarrow> P y"
  shows "\<forall>y \<in> set ys. P y"
  using assms(1) by (induction xs arbitrary: ys) (auto dest: assms(2) split: sum.splits)

lemma parse_cidr_bound: "parse_cidr v = Inr (a, p) \<Longrightarrow> p \<le> maximum_prefix a"
proof -
  assume "parse_cidr v = Inr (a, p)"
  then obtain len where len: "p = of_nat len" "len \<le> (if is_ipv4 a then 32 else 128)"
    by (auto simp: parse_cidr_def not_less split: option.splits prod.splits if_splits)
  then have "unat p = len" by (auto simp: unat_of_nat split: if_splits)
  then show ?thesis using len(2) by (auto simp: maximum_prefix_def word_le_nat_alt split: if_splits)
qed

lemma duration_from_secs_bound: "duration_from_secs s < duration_limit"
proof -
  have "unat s < 2 ^ LENGTH(64)" by (rule unsigned_less)
  then show ?thesis by (simp add: duration_from_secs_def duration_limit_def nanos_per_sec_def)
qed

lemma into_connection_settings_ok:
  assumes "into_connection_settings c = Some (Inr s)"
  obtains k tas nets where "s = settings_of c k tas nets" and "length k = 32"
    and "\<forall>a \<in> set tas. address_prefix a \<le> maximum_prefix (address a)"
    and "\<forall>n \<in> set nets. prefix_length n \<le> maximum_prefix (network n)"
    and "client_endpoint_port c \<noteq> 0" and "client_routing_mark c \<noteq> 0"
proof -
  obtain k tas nets where parts: "decode_key (peer_public_key_hex c) = Some (Inr k)"
    "collect_results tunnel_address_of (client_tunnel_addresses c) = Inr tas"
    "collect_results allowed_ip_of (client_allowed_ips c) = Inr nets"
    "s = settings_of c k tas nets" "client_endpoint_port c \<noteq> 0" "client_routing_mark c \<noteq> 0"
    using assms by (auto simp: into_connection_settings_def split: if_splits option.splits sum.splits)
  have "\<forall>a \<in> set tas. address_prefix a \<le> maximum_prefix (address a)"
    by (rule collect_results_ok [OF parts(2)])
      (auto simp: tunnel_address_of_def split: sum.splits prod.splits dest: parse_cidr_bound)
  moreover have "\<forall>n \<in> set nets. prefix_length n \<le> maximum_prefix (network n)"
    by (rule collect_results_ok [OF parts(3)])
      (auto simp: allowed_ip_of_def split: sum.splits prod.splits dest: parse_cidr_bound)
  ultimately show ?thesis using that parts(4-6) decode_key_length [OF parts(1)] by blast
qed

section \<open>Properties\<close>

text \<open>
  C35. The settings of a converted configuration are well formed: a 32-byte key, a nonzero port and
  routing mark, prefix lengths within their family, a representable timeout, and an endpoint text
  that reads back as the configured address, IPv4 or IPv6, so that the firewall will admit exactly
  the configured endpoint.  A configuration whose key text is ASCII is converted or rejected,
  without a panic.
\<close>

theorem settings_well_formed:
  "(is_ascii (peer_public_key_hex c) \<longrightarrow> into_connection_settings c \<noteq> None) \<and>
   (\<forall>s. into_connection_settings c = Some (Inr s) \<longrightarrow>
      length (peer_public_key (settings_profile s)) = 32 \<and> settings_routing_mark s \<noteq> 0 \<and>
      settings_nft s = \<lparr>endpoint_address = client_endpoint_address c, endpoint_port = client_endpoint_port c\<rparr> \<and>
      endpoint_port (settings_nft s) \<noteq> 0 \<and>
      parse_ip (host (wg_endpoint (settings_profile s))) = Some (client_endpoint_address c) \<and>
      (\<forall>a \<in> set (tunnel_addresses (settings_profile s)). address_prefix a \<le> maximum_prefix (address a)) \<and>
      (\<forall>n \<in> set (allowed_ips (settings_profile s)). prefix_length n \<le> maximum_prefix (network n)) \<and>
      settings_connect_timeout s < duration_limit \<and>
      settings_interface s = client_interface c \<and> settings_always_on s = client_always_on c)"
proof (intro conjI allI impI)
  assume "is_ascii (peer_public_key_hex c)"
  from decode_key_ascii [OF this] show "into_connection_settings c \<noteq> None"
    by (auto simp: into_connection_settings_def split: option.split sum.split)
qed (auto elim!: into_connection_settings_ok simp: settings_of_def settings_nft_def parse_show_ip duration_from_secs_bound)

definition example_client :: ClientConfig where
  "example_client =
     \<lparr>client_interface = ''cyberia0'', runtime_directory = ''/run/cyberia'',
      client_endpoint_address = V6 1, client_endpoint_port = 51820,
      peer_public_key_hex = key_hex (replicate 32 7),
      client_tunnel_addresses = [prefix_text (V4 0x0A140002) 32], client_allowed_ips = [prefix_text (V6 0) 0],
      dns_resolvers = [V4 0x0A140001], client_mtu = 1420, client_keepalive = None, client_routing_mark = 51820,
      connect_timeout_seconds = 10, client_always_on = True,
      client_tools = \<lparr>client_ip = ''/sbin/ip'', client_wg = ''/usr/bin/wg'', client_nft = ''/usr/sbin/nft'',
        client_resolvectl = ''/usr/bin/resolvectl'', client_private_key = ''/etc/cyberia/key''\<rparr>\<rparr>"

abbreviation example_tas :: "TunnelAddress list" where
  "example_tas \<equiv> [\<lparr>address = V4 0x0A140002, address_prefix = 32\<rparr>]"

abbreviation example_nets :: "AllowedIp list" where
  "example_nets \<equiv> [\<lparr>network = V6 0, prefix_length = 0\<rparr>]"

lemma example_client_settings:
  "into_connection_settings example_client =
     Some (Inr (settings_of example_client (replicate 32 7) example_tas example_nets))"
  by (simp add: into_connection_settings_def example_client_def decode_key_hex tunnel_address_of_def allowed_ip_of_def
      parse_cidr_prefix_text maximum_prefix_def)

theorem settings_well_formed_witness:
  "is_ascii (peer_public_key_hex example_client) \<and>
   settings_nft (settings_of example_client (replicate 32 7) example_tas example_nets) =
     \<lparr>endpoint_address = V6 1, endpoint_port = 51820\<rparr>"
proof -
  have "is_ascii (peer_public_key_hex example_client)" by (simp add: example_client_def ascii_key_hex)
  moreover have "settings_nft (settings_of example_client (replicate 32 7) example_tas example_nets) =
      \<lparr>endpoint_address = client_endpoint_address example_client, endpoint_port = client_endpoint_port example_client\<rparr>"
    using settings_well_formed [of example_client] example_client_settings by blast
  ultimately show ?thesis by (simp add: example_client_def)
qed

text \<open>
  C36. Configuration text reads back: a configuration that spells a key in hexadecimal and its
  prefixes in canonical form, of either family, converts to the settings with exactly that key and
  those prefixes.
\<close>

theorem settings_roundtrip:
  assumes "peer_public_key_hex c = key_hex k" and "length k = 32"
    and "client_tunnel_addresses c = map (\<lambda>a. prefix_text (address a) (address_prefix a)) tas"
    and "client_allowed_ips c = map (\<lambda>n. prefix_text (network n) (prefix_length n)) nets"
    and "\<forall>a \<in> set tas. address_prefix a \<le> maximum_prefix (address a)"
    and "\<forall>n \<in> set nets. prefix_length n \<le> maximum_prefix (network n)"
    and "client_endpoint_port c \<noteq> 0" and "client_routing_mark c \<noteq> 0"
  shows "into_connection_settings c = Some (Inr (settings_of c k tas nets))"
proof -
  have "collect_results tunnel_address_of (client_tunnel_addresses c) = Inr tas"
    using assms(5) unfolding assms(3)
    by (intro collect_results_map) (simp add: tunnel_address_of_def parse_cidr_prefix_text)
  moreover have "collect_results allowed_ip_of (client_allowed_ips c) = Inr nets"
    using assms(6) unfolding assms(4)
    by (intro collect_results_map) (simp add: allowed_ip_of_def parse_cidr_prefix_text)
  ultimately show ?thesis
    using assms(1,2,7,8) decode_key_hex [of k] by (simp add: into_connection_settings_def)
qed

theorem settings_roundtrip_witness:
  "\<exists>s. into_connection_settings example_client = Some (Inr s) \<and>
     peer_public_key (settings_profile s) = replicate 32 7 \<and> allowed_ips (settings_profile s) = example_nets"
proof -
  have "into_connection_settings example_client =
      Some (Inr (settings_of example_client (replicate 32 7) example_tas example_nets))"
    by (rule settings_roundtrip) (simp_all add: example_client_def maximum_prefix_def)
  then show ?thesis by (simp add: settings_of_def)
qed

text \<open>
  The loop over the pairs of a text: it panics exactly when it comes to a pair that ends inside a
  character, all earlier pairs being numbers.
\<close>

abbreviation pair_at :: "string \<Rightarrow> nat \<Rightarrow> string" where
  "pair_at v i \<equiv> take 2 (drop (i * 2) v)"

lemma decode_bytes_panics:
  assumes "is_char_boundary v (a * 2)"
  shows "decode_bytes v [a..<b] = None \<longleftrightarrow>
    (\<exists>i. a \<le> i \<and> i < b \<and> (\<forall>j. a \<le> j \<and> j < i \<longrightarrow> parse_uint 16 255 (pair_at v j) \<noteq> None) \<and>
       \<not> is_char_boundary v (i * 2 + 2))"
  using assms
proof (induction "b - a" arbitrary: a)
  case 0
  then show ?case by simp
next
  case (Suc n)
  then have ab: "a < b" "[a..<b] = a # [Suc a..<b]" by (simp_all add: upt_conv_Cons)
  show ?case
  proof (cases "is_char_boundary v (a * 2 + 2)")
    case False
    then have "decode_bytes v [a..<b] = None" using ab(2) Suc.prems by (simp add: str_slice_def)
    then show ?thesis using ab(1) False by auto
  next
    case inside: True
    then have slice: "str_slice v (a * 2) (a * 2 + 2) = Some (pair_at v a)"
      using Suc.prems by (simp add: str_slice_def)
    have IH: "decode_bytes v [Suc a..<b] = None \<longleftrightarrow>
      (\<exists>i. Suc a \<le> i \<and> i < b \<and> (\<forall>j. Suc a \<le> j \<and> j < i \<longrightarrow> parse_uint 16 255 (pair_at v j) \<noteq> None) \<and>
         \<not> is_char_boundary v (i * 2 + 2))"
      using Suc.hyps(1) [of "Suc a"] Suc.hyps(2) inside by (simp add: add.commute)
    have later: "Suc a \<le> i" if "a \<le> i" "\<not> is_char_boundary v (i * 2 + 2)" for i
      using that inside by (cases "i = a") auto
    have "decode_bytes v [a..<b] = None \<longleftrightarrow>
        parse_uint 16 255 (pair_at v a) \<noteq> None \<and> decode_bytes v [Suc a..<b] = None"
      unfolding ab(2) decode_bytes.simps slice by (auto split: option.split sum.split)
    also have "\<dots> \<longleftrightarrow> (\<exists>i. a \<le> i \<and> i < b \<and> (\<forall>j. a \<le> j \<and> j < i \<longrightarrow> parse_uint 16 255 (pair_at v j) \<noteq> None) \<and>
       \<not> is_char_boundary v (i * 2 + 2))"
      unfolding IH using later by (auto simp: Suc_le_eq nat_less_le)
    finally show ?thesis .
  qed
qed

text \<open>Two key texts of 64 bytes: one that starts with the three-byte euro sign, and 32 two-byte letters.\<close>

definition euro_key :: string where
  "euro_key = [CHR 0xE2, CHR 0x82, CHR 0xAC] @ replicate 61 CHR ''0''"

definition accent_key :: string where
  "accent_key = concat (replicate 32 [CHR 0xC3, CHR 0xA9])"

text \<open>
  C40. The conversion panics exactly for key texts whose characters do not fit the pairs they are
  cut into: port and routing mark are nonzero, the text has 64 bytes, and after some number of
  pairs that all read as bytes there is one that ends in the middle of a character, that is, the
  byte after it is a UTF-8 continuation byte.  Every other configuration is converted or rejected with an error, which is
  what the conversion documents for malformed keys.
\<close>

theorem multibyte_key_panics:
  "into_connection_settings c = None \<longleftrightarrow>
     client_endpoint_port c \<noteq> 0 \<and> client_routing_mark c \<noteq> 0 \<and> length (peer_public_key_hex c) = 64 \<and>
     (\<exists>i < 31. (\<forall>j < i. parse_uint 16 255 (take 2 (drop (j * 2) (peer_public_key_hex c))) \<noteq> None) \<and>
        cont (peer_public_key_hex c ! (i * 2 + 2)))"
proof -
  let ?v = "peer_public_key_hex c"
  have ends: "i < 32 \<and> \<not> is_char_boundary ?v (i * 2 + 2) \<longleftrightarrow> i < 31 \<and> cont (?v ! (i * 2 + 2))"
    if "length ?v = 64" for i
    using that by (cases "i = 31") (auto simp: is_char_boundary_def)
  have "decode_key ?v = None \<longleftrightarrow> length ?v = 64 \<and>
      (\<exists>i < 31. (\<forall>j < i. parse_uint 16 255 (pair_at ?v j) \<noteq> None) \<and> cont (?v ! (i * 2 + 2)))"
  proof (cases "length ?v = 64")
    case True
    have "is_char_boundary ?v (0 * 2)" by (simp add: is_char_boundary_def)
    from decode_bytes_panics [OF this, of 32] show ?thesis
      using ends [OF True] True by (auto simp: decode_key_def)
  qed (simp add: decode_key_def)
  then show ?thesis
    by (auto simp: into_connection_settings_def split: option.splits sum.splits)
qed

theorem multibyte_key_panics_witness:
  "from_utf8 euro_key = Some euro_key \<and>
   into_connection_settings (example_client\<lparr>peer_public_key_hex := euro_key\<rparr>) = None \<and>
   from_utf8 accent_key = Some accent_key \<and> length accent_key = 64 \<and>
   into_connection_settings (example_client\<lparr>peer_public_key_hex := accent_key\<rparr>) \<noteq> None"
proof -
  have utf8: "from_utf8 euro_key = Some euro_key" "from_utf8 accent_key = Some accent_key" "length accent_key = 64"
    by code_simp+
  have euro: "into_connection_settings (example_client\<lparr>peer_public_key_hex := euro_key\<rparr>) = None"
    unfolding multibyte_key_panics
    by (auto simp: example_client_def euro_key_def cont_def intro!: exI [of _ 0])
  have "\<forall>i \<in> set [0..<31]. \<not> cont (accent_key ! (i * 2 + 2))" by code_simp
  then have "\<not> (\<exists>i < 31. cont (accent_key ! (i * 2 + 2)))" by auto
  then have "into_connection_settings (example_client\<lparr>peer_public_key_hex := accent_key\<rparr>) \<noteq> None"
    unfolding multibyte_key_panics by auto
  then show ?thesis using utf8 euro by blast
qed

text \<open>
  A key text with a plus sign in place of a hexadecimal digit is accepted.
\<close>

lemma signed_key_accepted:
  "decode_key (concat (replicate 32 ''+f'')) = Some (Inr (replicate 32 15))"
  by code_simp

end
