(* ===== verification/Client_Files.thy ===== *)
theory Client_Files
  imports Client_Config
begin

unbundle bit_operations_syntax

text \<open>
  \<^verbatim>\<open>apps/linux-client/src/lib.rs\<close>: the files of the client, its configuration and the lock
  that makes it the only manager of an interface, and the validation of a configuration.

  Decoding JSON is the work of the packages \<^verbatim>\<open>serde\<close> and \<^verbatim>\<open>serde_json\<close>:
  \<open>load_config\<close> takes a \<open>json_reader\<close>, the deserializer of a configuration, which yields the
  unread input, and the check that only white space is left of it.
\<close>

section \<open>The interface lease\<close>

datatype LeaseError = UnsafeInterface | UnsafeState | InUse | LeaseIo io_error

fun LeaseError_display :: "LeaseError \<Rightarrow> string" where
  "LeaseError_display UnsafeInterface = ''client interface name is unsafe''"
| "LeaseError_display UnsafeState = ''client interface lock state is unsafe''"
| "LeaseError_display InUse = ''another client already manages this interface''"
| "LeaseError_display (LeaseIo e) = ''client interface lease failed: '' @ io_text e"

definition validate_lease_directory :: "path \<Rightarrow> (world, LeaseError, unit) rsm" where
  "validate_lease_directory dir =
     seqE (reject_if (\<not> path_is_absolute dir) UnsafeState)
     (bindE (map_err LeaseIo (try_symlink_metadata dir)) (\<lambda>m.
      reject_if (\<not> meta_is_dir m \<or> meta_is_symlink m \<or> meta_mode m AND 0x3F \<noteq> 0) UnsafeState))"

definition name_char :: "char \<Rightarrow> bool" where
  "name_char c \<longleftrightarrow> is_ascii_alphanumeric c \<or> c = CHR ''-'' \<or> c = CHR ''_'' \<or> c = CHR ''.''"

definition valid_interface_name :: "string \<Rightarrow> bool" where
  "valid_interface_name i \<longleftrightarrow> i \<noteq> [] \<and> length i \<le> 15 \<and> list_all name_char i"

text \<open>\<^verbatim>\<open>Path::join\<close>.\<close>

definition path_join :: "path \<Rightarrow> path \<Rightarrow> path" where
  "path_join d f =
     (if path_is_absolute f then f else if d = [] \<or> last d = CHR ''/'' then d @ f else d @ ''/'' @ f)"

definition lock_options :: OpenOptions where
  "lock_options = \<lparr>open_read = True, open_write = True, open_create = True, open_mode = Some 0x180,
     open_nofollow = True, open_cloexec = True\<rparr>"

definition lock_name :: "string \<Rightarrow> string" where
  "lock_name i = ''interface-'' @ i @ ''.lock''"

definition acquire_interface_lease :: "path \<Rightarrow> string \<Rightarrow> (world, LeaseError, FileHandle) rsm" where
  "acquire_interface_lease dir i =
     seqE (validate_lease_directory dir)
     (seqE (reject_if (\<not> valid_interface_name i) UnsafeInterface)
     (bindE (map_err LeaseIo (open_file (path_join dir (lock_name i)) lock_options)) (\<lambda>file.
      bindE (map_err LeaseIo (file_metadata file)) (\<lambda>m.
      seqE (reject_if (\<not> meta_is_file m \<or> meta_mode m AND 0x3F \<noteq> 0) UnsafeState)
      (seqE (map_err (\<lambda>e. if would_block e then InUse else LeaseIo e) (try_lock_exclusive file))
      (ret file))))))"

section \<open>The configuration file\<close>

definition MAXIMUM_CONFIG_SIZE :: nat where
  "MAXIMUM_CONFIG_SIZE = 1024 * 1024"

definition ELOOP :: int where
  "ELOOP = 40"

definition config_options :: OpenOptions where
  "config_options = \<lparr>open_read = True, open_write = False, open_create = False, open_mode = None,
     open_nofollow = True, open_cloexec = True\<rparr>"

record json_reader =
  deserialize :: "bytes \<Rightarrow> string + ClientConfig \<times> bytes"
  json_end :: "bytes \<Rightarrow> string checked"

definition validate_private_directory :: "path \<Rightarrow> (world, ConfigError, unit) rsm" where
  "validate_private_directory p =
     seqE (reject_if (\<not> path_is_absolute p) UnsafeRuntimeDirectory)
     (bindE (map_err ConfigIo (try_symlink_metadata p)) (\<lambda>m.
      reject_if (\<not> meta_is_dir m \<or> meta_is_symlink m \<or> meta_mode m AND 0x3F \<noteq> 0) UnsafeRuntimeDirectory))"

definition load_config :: "json_reader \<Rightarrow> path \<Rightarrow> (world, ConfigError, ClientConfig) rsm" where
  "load_config json p =
     seqE (reject_if (\<not> path_is_absolute p) UnsafeFile)
     (bindE (map_err (\<lambda>e. if raw_os_error e = Some ELOOP then UnsafeFile else ConfigIo e)
        (open_file p config_options)) (\<lambda>file.
      bindE (map_err ConfigIo (file_metadata file)) (\<lambda>m.
      seqE (reject_if (\<not> meta_is_file m \<or> meta_mode m AND 0x3F \<noteq> 0) UnsafeFile)
      (seqE (reject_if (MAXIMUM_CONFIG_SIZE < unat (meta_len m)) Oversized)
      (bindE (map_err ConfigIo (read_file file)) (\<lambda>content.
       let input = take (MAXIMUM_CONFIG_SIZE + 1) content
       in seqE (reject_if (MAXIMUM_CONFIG_SIZE < length input) Oversized)
         (bindE (map_err Json (of_result (deserialize json input))) (\<lambda>(config, rest).
          seqE (map_err Json (of_result (json_end json rest)))
          (seqE (validate_private_directory (runtime_directory config))
          (ret config))))))))))"

section \<open>Validation\<close>

datatype ClientValidationError =
    InvalidClientConfig ConfigError
  | InvalidTransport TransportError
  | InvalidNftables NftablesError

fun ClientValidationError_display :: "ClientValidationError \<Rightarrow> string" where
  "ClientValidationError_display (InvalidClientConfig e) = ConfigError_display e"
| "ClientValidationError_display (InvalidTransport e) = TransportError_display e"
| "ClientValidationError_display (InvalidNftables e) = NftablesError_display e"

definition validate_client_configuration ::
  "ClientConfig \<Rightarrow> (world, ClientValidationError fault, unit) rsm" where
  "validate_client_configuration config =
     seqE (map_err (Error \<circ> InvalidClientConfig) (validate_private_directory (runtime_directory config)))
     (case into_connection_settings config of
        None \<Rightarrow> throw Panic
      | Some converted \<Rightarrow> map_err Error
          (bindE (map_err InvalidClientConfig (of_result converted)) (\<lambda>settings.
           seqE (map_err InvalidTransport (of_result (WireGuardConfig_validate (settings_profile settings))))
           (seqE (map_err InvalidTransport (of_result (DnsConfig_validate (settings_dns settings))))
           (seqE (map_err InvalidTransport (of_result (TransportConfig_validate
              \<lparr>kind = WireGuard, endpoint = wg_endpoint (settings_profile settings),
               connect_timeout = settings_connect_timeout settings\<rparr>)))
           (seqE (map_err InvalidTransport (LinuxTools_validate (settings_tools settings)))
           (seqE (map_err InvalidTransport (LinuxDnsTools_validate (settings_dns_tools settings)))
           (seqE (map_err InvalidNftables (SystemNftablesRunner_new (client_nft (client_tools config))))
           (ret ())))))))))"

section \<open>What the files allow\<close>

text \<open>Interactions with files only.\<close>

definition file_event :: "event \<Rightarrow> bool" where
  "file_event ev =
     (case ev of
        ReadMetadata _ \<Rightarrow> True
      | OpenFile _ options _ \<Rightarrow> options = lock_options \<or> options = config_options
      | FileMetadata _ \<Rightarrow> True
      | ReadFile _ \<Rightarrow> True
      | LockFile _ _ \<Rightarrow> True
      | _ \<Rightarrow> False)"

lemma file_event_simps [simp]:
  "file_event (ReadMetadata p)" "file_event (OpenFile p lock_options b)" "file_event (OpenFile p config_options b)"
  "file_event (FileMetadata h)" "file_event (ReadFile h)" "file_event (LockFile h b)"
  by (simp_all add: file_event_def)

lemma only_nft_new [frame_intros]: "P (ReadMetadata e) \<Longrightarrow> onlyW P (SystemNftablesRunner_new e)"
  unfolding SystemNftablesRunner_new_def nft_validate_executable_def by (intro frame_intros)

lemma onlyW_case_sum [frame_intros]:
  "(\<And>e. onlyW P (f e)) \<Longrightarrow> (\<And>a. onlyW P (g a)) \<Longrightarrow> onlyW P (case r of Inl e \<Rightarrow> f e | Inr a \<Rightarrow> g a)"
  by (simp split: sum.split)

lemma onlyW_case_prod [frame_intros]: "(\<And>a b. onlyW P (f a b)) \<Longrightarrow> onlyW P (case r of (a, b) \<Rightarrow> f a b)"
  by (simp split: prod.split)

lemma client_files_frame:
  "onlyW file_event (acquire_interface_lease dir i)" "onlyW file_event (load_config json p)"
  "onlyW file_event (validate_client_configuration config)"
  unfolding acquire_interface_lease_def validate_lease_directory_def load_config_def validate_private_directory_def
    validate_client_configuration_def Let_def
  by (intro frame_intros; simp)+

section \<open>The lease\<close>

lemma lock_name_confined: "valid_interface_name i \<Longrightarrow> CHR ''/'' \<notin> set (lock_name i)"
  by (auto simp: lock_name_def valid_interface_name_def list_all_iff name_char_def is_ascii_alphanumeric_def
      is_ascii_digit_def)

lemma lock_path_inj: "path_join dir (lock_name i) = path_join dir (lock_name j) \<Longrightarrow> i = j"
  by (auto simp: path_join_def lock_name_def path_is_absolute_def split: if_splits)

definition private_dir :: "metadata \<Rightarrow> bool" where
  "private_dir m \<longleftrightarrow> meta_is_dir m \<and> \<not> meta_is_symlink m \<and> meta_mode m AND 0x3F = 0"

definition private_regular :: "metadata \<Rightarrow> bool" where
  "private_regular m \<longleftrightarrow> meta_is_file m \<and> meta_mode m AND 0x3F = 0"

lemma acquire_law:
  "wp (acquire_interface_lease dir i)
     (\<lambda>h w'. path_is_absolute dir \<and> valid_interface_name i \<and>
        (\<exists>d m. metadata_reply (os w) (trace w) dir = Some d \<and> private_dir d \<and> private_regular m \<and>
           trace w' = trace w @ [ReadMetadata dir, OpenFile (path_join dir (lock_name i)) lock_options True,
             FileMetadata h, LockFile h True]))
     (\<lambda>e w'. \<exists>evs. trace w' = trace w @ evs \<and> (\<forall>h. LockFile h True \<notin> set evs) \<and>
        (\<forall>p options b. OpenFile p options b \<in> set evs \<longrightarrow>
           valid_interface_name i \<and> p = path_join dir (lock_name i) \<and> options = lock_options) \<and>
        (e = InUse \<longrightarrow> (\<exists>h. last evs = LockFile h False))) w"
  unfolding acquire_interface_lease_def validate_lease_directory_def wp_simps
  by (auto simp: private_dir_def private_regular_def split: option.split sum.split)

section \<open>The configuration file\<close>

text \<open>The configuration is the whole content of a private regular file of at most 1 MiB.\<close>

definition loaded_from :: "json_reader \<Rightarrow> world \<Rightarrow> path \<Rightarrow> ClientConfig \<Rightarrow> bool" where
  "loaded_from json w p config \<longleftrightarrow>
     (\<exists>h m content rest d.
        open_reply (os w) (trace w) p config_options = Inr h \<and>
        fstat_reply (os w) (trace w @ [OpenFile p config_options True]) h = Inr m \<and> private_regular m \<and>
        read_reply (os w) (trace w @ [OpenFile p config_options True, FileMetadata h]) h = Inr content \<and>
        length content \<le> MAXIMUM_CONFIG_SIZE \<and>
        deserialize json content = Inr (config, rest) \<and> json_end json rest = ok \<and>
        metadata_reply (os w) (trace w @ [OpenFile p config_options True, FileMetadata h, ReadFile h])
          (runtime_directory config) = Some d \<and> private_dir d)"

lemma load_config_law:
  "wp (load_config json p)
     (\<lambda>config _. path_is_absolute p \<and> path_is_absolute (runtime_directory config) \<and> loaded_from json w p config)
     (\<lambda>_ _. True) w"
proof -
  have whole: "take (MAXIMUM_CONFIG_SIZE + 1) c = c" if "\<not> MAXIMUM_CONFIG_SIZE < length (take (MAXIMUM_CONFIG_SIZE + 1) c)"
    for c :: bytes using that by (simp add: min_def split: if_splits)
  show ?thesis
    unfolding load_config_def validate_private_directory_def Let_def wp_simps loaded_from_def
    using whole
    by (auto simp: wp_simps private_dir_def private_regular_def is_ok_unit_iff not_less split: option.split sum.split)
qed

text \<open>A file that holds more than its metadata says is not read past the bound, and is refused.\<close>

lemma load_config_oversized:
  assumes "path_is_absolute p" and "open_reply (os w) (trace w) p config_options = Inr h"
    and "fstat_reply (os w) (trace w @ [OpenFile p config_options True]) h = Inr m" and "private_regular m"
    and "read_reply (os w) (trace w @ [OpenFile p config_options True, FileMetadata h]) h = Inr content"
    and "MAXIMUM_CONFIG_SIZE < length content"
  shows "fst (load_config json p w) = Inl Oversized"
  using assms
  by (simp add: load_config_def bindE_def seqE_def reject_if_def throw_def ret_def map_err_def open_file_def
      file_metadata_def read_file_def private_regular_def Let_def)

section \<open>A validated configuration can be built\<close>

text \<open>Metadata that does not change while the client looks.\<close>

definition file_at :: "platform \<Rightarrow> path \<Rightarrow> metadata option" where
  "file_at P p = metadata_reply P [] p"

definition stable_files :: "platform \<Rightarrow> bool" where
  "stable_files P \<longleftrightarrow> (\<forall>tr p. metadata_reply P tr p = file_at P p)"

definition executable_at :: "platform \<Rightarrow> path \<Rightarrow> bool" where
  "executable_at P p \<longleftrightarrow> (\<exists>m. file_at P p = Some m \<and> trusted_executable p m)"

definition key_at :: "platform \<Rightarrow> path \<Rightarrow> bool" where
  "key_at P p \<longleftrightarrow>
     (\<exists>m. file_at P p = Some m \<and> path_is_absolute p \<and> private_regular m \<and> \<not> meta_is_symlink m)"

definition tools_at :: "platform \<Rightarrow> LinuxTools \<Rightarrow> bool" where
  "tools_at P t \<longleftrightarrow> executable_at P (tool_ip t) \<and> executable_at P (tool_wg t) \<and> key_at P (private_key t)"

lemma stable_reply: "stable_files P \<Longrightarrow> metadata_reply P tr p = file_at P p"
  unfolding stable_files_def by blast

lemmas path_facts = validate_executable_def nft_validate_executable_def SystemNftablesRunner_new_def executable_at_def
  trusted_executable_def LinuxTools_validate_def LinuxDnsTools_validate_def key_at_def private_regular_def

lemma wp_executable_iff:
  assumes "stable_files (os w)"
  shows "wp (validate_executable p) (\<lambda>_. Q) (\<lambda>_. E) w =
      (if executable_at (os w) p then Q (log_event (ReadMetadata p) w) else E (log_event (ReadMetadata p) w))"
    "wp (nft_validate_executable p) (\<lambda>_. Q) (\<lambda>_. E) w =
      (if executable_at (os w) p then Q (log_event (ReadMetadata p) w) else E (log_event (ReadMetadata p) w))"
  using stable_reply [OF assms] by (auto simp: path_facts wp_simps split: option.split)

lemma wp_tools_iff:
  assumes "stable_files (os w)" and "\<And>w'. os w' = os w \<Longrightarrow> Q w' = q" and "\<And>w'. os w' = os w \<Longrightarrow> E w' = e"
  shows "wp (LinuxTools_validate t) (\<lambda>_. Q) (\<lambda>_. E) w = (if tools_at (os w) t then q else e)"
    "wp (LinuxDnsTools_validate d) (\<lambda>_. Q) (\<lambda>_. E) w = (if executable_at (os w) (tool_resolvectl d) then q else e)"
    "wp (SystemNftablesRunner_new x) (\<lambda>_. Q) (\<lambda>_. E) w = (if executable_at (os w) x then q else e)"
proof -
  show "wp (LinuxTools_validate t) (\<lambda>_. Q) (\<lambda>_. E) w = (if tools_at (os w) t then q else e)"
    unfolding LinuxTools_validate_def wp_seqE
    using stable_reply [OF assms(1)]
    by (auto simp: wp_executable_iff assms tools_at_def key_at_def private_regular_def wp_simps split: option.split)
  show "wp (LinuxDnsTools_validate d) (\<lambda>_. Q) (\<lambda>_. E) w = (if executable_at (os w) (tool_resolvectl d) then q else e)"
    unfolding LinuxDnsTools_validate_def by (simp add: wp_executable_iff assms)
  show "wp (SystemNftablesRunner_new x) (\<lambda>_. Q) (\<lambda>_. E) w = (if executable_at (os w) x then q else e)"
    unfolding SystemNftablesRunner_new_def by (simp add: wp_seqE wp_ret wp_executable_iff assms)
qed

text \<open>What a passed check says, and that the check passes again.\<close>

lemma tools_checked:
  assumes "stable_files P" and "os w = P"
  shows "wp (LinuxTools_validate t) (\<lambda>_ w'. tools_at P t \<and> os w' = P) (\<lambda>_ _. True) w"
    "wp (LinuxDnsTools_validate d) (\<lambda>_ w'. executable_at P (tool_resolvectl d) \<and> os w' = P) (\<lambda>_ _. True) w"
    "wp (SystemNftablesRunner_new x) (\<lambda>_ w'. executable_at P x \<and> os w' = P) (\<lambda>_ _. True) w"
  using assms
  by (simp_all add: wp_tools_iff(1) [where q = "tools_at P t" and e = True]
      wp_tools_iff(2) [where q = "executable_at P (tool_resolvectl d)" and e = True]
      wp_tools_iff(3) [where q = "executable_at P x" and e = True])

lemma tools_accepted:
  assumes "stable_files P" and "os w = P"
  shows "tools_at P t \<Longrightarrow> wp (LinuxTools_validate t) (\<lambda>_ w'. os w' = P) (\<lambda>_ _. False) w"
    "executable_at P (tool_resolvectl d) \<Longrightarrow> wp (LinuxDnsTools_validate d) (\<lambda>_ w'. os w' = P) (\<lambda>_ _. False) w"
    "executable_at P x \<Longrightarrow> wp (SystemNftablesRunner_new x) (\<lambda>_ w'. os w' = P) (\<lambda>_ _. False) w"
  using assms
  by (simp_all add: wp_tools_iff(1) [where q = True and e = False] wp_tools_iff(2) [where q = True and e = False]
      wp_tools_iff(3) [where q = True and e = False])

definition buildable :: "platform \<Rightarrow> ClientConfig \<Rightarrow> LinuxConnectionSettings \<Rightarrow> bool" where
  "buildable P c s \<longleftrightarrow>
     into_connection_settings c = Some (Inr s) \<and> WireGuardConfig_validate (settings_profile s) = ok \<and>
     DnsConfig_validate (settings_dns s) = ok \<and>
     TransportConfig_validate \<lparr>kind = WireGuard, endpoint = wg_endpoint (settings_profile s),
       connect_timeout = settings_connect_timeout s\<rparr> = ok \<and>
     tools_at P (settings_tools s) \<and> executable_at P (tool_resolvectl (settings_dns_tools s)) \<and>
     executable_at P (client_nft (client_tools c))"

lemma validated_buildable:
  assumes "stable_files P" and "os w = P"
  shows "wp (validate_client_configuration c) (\<lambda>_ _. \<exists>s. buildable P c s) (\<lambda>_ _. True) w"
proof -
  have dir: "wp (validate_private_directory d) (\<lambda>_ w'. os w' = P) (\<lambda>_ _. True) w" for d
    using assms(2) unfolding validate_private_directory_def wp_simps by (auto split: option.split)
  show ?thesis
    unfolding validate_client_configuration_def wp_seqE wp_map_err
    by (rule wp_mono [OF dir])
      (auto simp: wp_throw wp_seqE wp_bindE wp_map_err wp_of_result wp_ret buildable_def [abs_def] is_ok_unit_iff
        intro!: wp_mono [OF tools_checked(1) [OF assms(1)]] wp_mono [OF tools_checked(2) [OF assms(1)]]
          wp_mono [OF tools_checked(3) [OF assms(1)]]
        split: option.split sum.split)
qed

lemma buildable_connection:
  assumes "stable_files P" and "os w = P" and "buildable P c s"
  shows "wp (system_connection s (client_nft (client_tools c)) cr dr nr) (\<lambda>_ _. True)
    (\<lambda>e _. (\<exists>f. e = BuildFirewall f) \<or>
       e = BuildTransport (InvalidConfig ''invalid WireGuard interface name'') \<and> \<not> valid_interface (client_interface c) \<or>
       e = BuildTransport (InvalidConfig ''WireGuard private key path is not UTF-8'') \<and>
         from_utf8 (client_private_key (client_tools c)) = None) w"
proof -
  obtain k tas nets where s: "s = settings_of c k tas nets"
    using assms(3) by (auto simp: buildable_def elim: into_connection_settings_ok)
  have parse: "parse_ip (host (wg_endpoint (settings_profile s))) = Some (client_endpoint_address c)"
    by (simp add: s settings_of_def parse_show_ip)
  have key: "private_key (settings_tools s) = client_private_key (client_tools c)"
    "settings_interface s = client_interface c"
    by (simp_all add: s settings_of_def)
  have b: "WireGuardConfig_validate (settings_profile s) = ok" "DnsConfig_validate (settings_dns s) = ok"
    "TransportConfig_validate \<lparr>kind = WireGuard, endpoint = wg_endpoint (settings_profile s),
       connect_timeout = settings_connect_timeout s\<rparr> = ok"
    "tools_at P (settings_tools s)" "executable_at P (tool_resolvectl (settings_dns_tools s))"
    "executable_at P (client_nft (client_tools c))"
    using assms(3) by (simp_all add: buildable_def)
  show ?thesis
    unfolding system_connection_def with_runners_def LinuxWireGuardBackend_new_def LinuxDnsBackend_new_def
      WireGuardAdapter_new_def wp_seqE wp_map_err
    by (rule wp_mono [OF tools_accepted(3) [OF assms(1,2) b(6)]])
      (auto simp: parse key b Let_def wp_throw wp_seqE wp_bindE wp_map_err wp_of_result wp_ret wp_reject_if is_ok_unit_iff
        intro!: wp_mono [OF tools_accepted(1) [OF assms(1) _ b(4)]] wp_mono [OF tools_accepted(2) [OF assms(1) _ b(5)]]
          wp_any [of _ _ "ConnectionController_new _ _ _ _"]
        split: option.split sum.split)
qed

section \<open>An example installation\<close>

abbreviation private_directory :: metadata where
  "private_directory \<equiv> \<lparr>meta_is_file = False, meta_is_dir = True, meta_is_symlink = False, meta_mode = 0x41C0,
    meta_len = 0\<rparr>"

definition client_platform :: platform where
  "client_platform =
     calm_platform\<lparr>metadata_reply := \<lambda>_ p. Some (if p = ''/run/cyberia'' then private_directory else private_file)\<rparr>"

definition client_world :: world where
  "client_world = calm_world\<lparr>os := client_platform\<rparr>"

definition example_json :: json_reader where
  "example_json = \<lparr>deserialize = \<lambda>input. Inr (example_client, []), json_end = \<lambda>rest. if rest = [] then ok else Inl ''trailing''\<rparr>"

abbreviation example_client_settings :: LinuxConnectionSettings where
  "example_client_settings \<equiv> settings_of example_client (replicate 32 7) example_tas example_nets"

lemma client_platform_stable: "stable_files client_platform"
  by (simp add: stable_files_def file_at_def client_platform_def)

lemma client_world_simps [simp]: "os client_world = client_platform" "trace client_world = []" "cancelled client_world = {}"
  by (simp_all add: client_world_def)

lemma show_ip_one: "show_ipv6 1 = ''::1''"
proof -
  have "segments 1 = [0, 0, 0, 0, 0, 0, 0, 1]" by (simp add: segments_def)
  then show ?thesis
    by (simp add: show_ipv6_def to_ipv4_mapped_def show_segments_def show_hex.simps digit_char_def char_of_def bit_0)
qed

lemma trim_one: "trim ''::1'' = ''::1''"
  by code_simp

lemma example_buildable:
  assumes "c = example_client\<lparr>client_interface := i\<rparr>"
  shows "buildable client_platform c (settings_of c (replicate 32 7) example_tas example_nets)"
proof -
  have "into_connection_settings c = Some (Inr (settings_of c (replicate 32 7) example_tas example_nets))"
    using assms
    by (simp add: into_connection_settings_def example_client_def decode_key_hex tunnel_address_of_def allowed_ip_of_def
        parse_cidr_prefix_text maximum_prefix_def)
  moreover have "executable_at client_platform p" "key_at client_platform p"
    if "path_is_absolute p" "p \<noteq> ''/run/cyberia''" for p
    using that
    by (simp_all add: executable_at_def key_at_def file_at_def client_platform_def trusted_executable_def private_regular_def)
  ultimately show ?thesis
    using assms
    by (simp add: buildable_def settings_of_def example_client_def tools_at_def path_is_absolute_def show_ip_one trim_one
        WireGuardConfig_validate_def validate_interface_addresses_def maximum_prefix_def octets_def segments_def
        valid_network_def validate_keepalive_def validate_mtu_def MINIMUM_MTU_def MAXIMUM_MTU_def list_all_iff
        DnsConfig_validate_def TransportConfig_validate_def duration_from_secs_def nanos_per_sec_def)
qed

lemma example_validated:
  assumes "c = example_client\<lparr>client_interface := i\<rparr>"
  shows "\<exists>w'. validate_client_configuration c client_world = (ok, w')"
proof -
  have b: "buildable client_platform c (settings_of c (replicate 32 7) example_tas example_nets)"
    by (rule example_buildable [OF assms])
  have dir: "wp (validate_private_directory (runtime_directory c)) (\<lambda>_ w'. os w' = client_platform) (\<lambda>_ _. False) client_world"
    unfolding validate_private_directory_def wp_simps
    by (simp add: assms example_client_def path_is_absolute_def client_platform_def)
  have "wp (validate_client_configuration c) (\<lambda>_ _. True) (\<lambda>_ _. False) client_world"
    using b unfolding validate_client_configuration_def wp_seqE wp_map_err buildable_def
    by (intro wp_mono [OF dir])
      (auto simp: wp_throw wp_seqE wp_bindE wp_map_err wp_of_result wp_ret
        intro!: wp_mono [OF tools_accepted(1) [OF client_platform_stable]]
          wp_mono [OF tools_accepted(2) [OF client_platform_stable]] wp_mono [OF tools_accepted(3) [OF client_platform_stable]])
  then show ?thesis by (auto simp: wp_def split: prod.splits sum.splits)
qed

section \<open>Properties\<close>

text \<open>
  C37. A lease names its interface: acquiring one only ever opens the lock file of that interface,
  without following a link, inside the runtime directory, and two interfaces never share a lock
  file.  It succeeds only in a private absolute directory and after the lock was granted; a failed
  attempt holds no lock, and the client is told that the interface is in use only when the lock
  was refused.
\<close>

theorem lease_names_its_interface:
  assumes "acquire_interface_lease dir i w = (r, w')"
  shows "\<exists>evs. trace w' = trace w @ evs \<and>
    (\<forall>p options b. OpenFile p options b \<in> set evs \<longrightarrow>
       p = path_join dir (lock_name i) \<and> options = lock_options \<and> CHR ''/'' \<notin> set (lock_name i)) \<and>
    (case r of
       Inr h \<Rightarrow> path_is_absolute dir \<and> last evs = LockFile h True \<and>
         (\<exists>d. metadata_reply (os w) (trace w) dir = Some d \<and> private_dir d)
     | Inl e \<Rightarrow> (\<forall>h. LockFile h True \<notin> set evs) \<and> (e = InUse \<longrightarrow> (\<exists>h. last evs = LockFile h False))) \<and>
    (\<forall>j. path_join dir (lock_name j) = path_join dir (lock_name i) \<longrightarrow> j = i)"
proof (cases r)
  case (Inl e)
  obtain evs where evs: "trace w' = trace w @ evs" "\<forall>h. LockFile h True \<notin> set evs"
    "\<forall>p options b. OpenFile p options b \<in> set evs \<longrightarrow>
       valid_interface_name i \<and> p = path_join dir (lock_name i) \<and> options = lock_options"
    "e = InUse \<longrightarrow> (\<exists>h. last evs = LockFile h False)"
    using wp_ErrD [OF acquire_law assms [unfolded Inl]] by blast
  have "p = path_join dir (lock_name i) \<and> options = lock_options \<and> CHR ''/'' \<notin> set (lock_name i)"
    if "OpenFile p options b \<in> set evs" for p options b
    using evs(3) that lock_name_confined by blast
  then show ?thesis using evs(1,2,4) Inl lock_path_inj [of dir _ i] by (intro exI [of _ evs]) simp
next
  case (Inr h)
  then show ?thesis
    using wp_OkD [OF acquire_law assms [unfolded Inr]] lock_name_confined [of i] lock_path_inj by auto
qed

theorem lease_names_its_interface_witness:
  "\<exists>h w' evs. acquire_interface_lease ''/run/cyberia'' ''cyberia0'' client_world = (Inr h, w') \<and>
     trace w' = evs \<and> last evs = LockFile h True"
proof -
  have "valid_interface_name ''cyberia0''"
    by (simp add: valid_interface_name_def name_char_def is_ascii_alphanumeric_def is_ascii_digit_def)
  then have "\<exists>w'. acquire_interface_lease ''/run/cyberia'' ''cyberia0'' client_world = (Inr 0, w')"
    by (simp add: acquire_interface_lease_def validate_lease_directory_def bindE_def seqE_def reject_if_def throw_def
        ret_def map_err_def try_symlink_metadata_def open_file_def file_metadata_def try_lock_exclusive_def Let_def
        client_platform_def path_is_absolute_def)
  then obtain w' where run: "acquire_interface_lease ''/run/cyberia'' ''cyberia0'' client_world = (Inr 0, w')" by blast
  then show ?thesis using lease_names_its_interface [OF run] by auto
qed

text \<open>
  C38. A loaded configuration is the whole content of one private regular file: an absolute path,
  not followed through a link, readable by its owner only, at most 1 MiB even if it grows while it
  is read, decoded without left-over input, and its runtime directory is private.
\<close>

theorem load_config_reads_whole_file:
  assumes "load_config json p w = (Inr config, w')"
  shows "path_is_absolute p \<and> loaded_from json w p config \<and> path_is_absolute (runtime_directory config) \<and>
    extends file_event w w'"
  using wp_OkD [OF load_config_law assms] onlyWD [OF client_files_frame(2) assms] by simp

lemma example_loaded: "\<exists>w'. load_config example_json ''/etc/cyberia/client.json'' client_world = (Inr example_client, w')"
  by (simp add: load_config_def validate_private_directory_def bindE_def seqE_def reject_if_def throw_def ret_def
      map_err_def try_symlink_metadata_def open_file_def file_metadata_def read_file_def of_result_def Let_def
      example_json_def client_platform_def calm_platform_def path_is_absolute_def MAXIMUM_CONFIG_SIZE_def
      example_client_def)

theorem load_config_reads_whole_file_witness:
  "\<exists>w'. load_config example_json ''/etc/cyberia/client.json'' client_world = (Inr example_client, w') \<and>
     loaded_from example_json client_world ''/etc/cyberia/client.json'' example_client"
  using example_loaded load_config_reads_whole_file by blast

text \<open>
  C39. The check mode predicts the start: while files do not change, a configuration that passed
  validation can be built into a connection, and then fails only if the firewall refuses the
  blocking ruleset, if the interface name is not one the tunnel adapter accepts, or if the path of
  the key is not UTF-8.
\<close>

theorem validation_predicts_build:
  assumes "stable_files (os w)" and "validate_client_configuration c w = (ok, w')"
    and "os v = os w" and "into_connection_settings c = Some (Inr s)"
    and "system_connection s (client_nft (client_tools c)) cr dr nr v = (Inl e, v')"
  shows "(\<exists>f. e = BuildFirewall f) \<or>
    e = BuildTransport (InvalidConfig ''invalid WireGuard interface name'') \<and> \<not> valid_interface (client_interface c) \<or>
    e = BuildTransport (InvalidConfig ''WireGuard private key path is not UTF-8'') \<and>
      from_utf8 (client_private_key (client_tools c)) = None"
proof -
  obtain s' where "buildable (os w) c s'"
    using wp_OkD [OF validated_buildable [OF assms(1) refl] assms(2)] by blast
  then have "buildable (os w) c s" using assms(4) by (simp add: buildable_def)
  from wp_ErrD [OF buildable_connection [OF assms(1,3) this] assms(5)] show ?thesis .
qed

text \<open>A configuration for an interface with a dot in its name.\<close>

definition dotted_client :: ClientConfig where
  "dotted_client = example_client\<lparr>client_interface := ''wg.0''\<rparr>"

abbreviation dotted_settings :: LinuxConnectionSettings where
  "dotted_settings \<equiv> settings_of dotted_client (replicate 32 7) example_tas example_nets"

lemma dotted_build:
  "\<exists>e w'. system_connection dotted_settings (client_nft (client_tools dotted_client)) 0 1 2 client_world = (Inl e, w') \<and>
     (\<forall>f. e \<noteq> BuildFirewall f)"
proof -
  have b: "buildable client_platform dotted_client dotted_settings"
    by (rule example_buildable) (simp add: dotted_client_def)
  have name: "\<not> valid_interface (settings_interface dotted_settings)"
    by (simp add: settings_of_def dotted_client_def valid_interface_def interface_char_def is_ascii_alphanumeric_def
        is_ascii_digit_def)
  have "wp (system_connection dotted_settings (client_nft (client_tools dotted_client)) 0 1 2) (\<lambda>_ _. False)
      (\<lambda>e _. \<forall>f. e \<noteq> BuildFirewall f) client_world"
    unfolding system_connection_def with_runners_def Let_def wp_seqE wp_map_err
    by (auto simp: name wp_simps WireGuardAdapter_new_def intro!: wp_any [of _ _ "LinuxWireGuardBackend_new _ _ _"]
        wp_mono [OF wp_any [of "\<lambda>_ _. True" "\<lambda>_ _. True" "SystemNftablesRunner_new _"]]
        wp_mono [OF wp_any [of "\<lambda>_ _. True" "\<lambda>_ _. True" "LinuxWireGuardBackend_new _ _ _"]]
        split: option.split sum.split)
  then show ?thesis by (auto simp: wp_def split: prod.splits sum.splits)
qed

lemma wp_rejects: "wp m (\<lambda>_ _. False) E s \<Longrightarrow> \<not> is_ok (fst (m s))"
  by (cases "m s") (auto simp: wp_def split: sum.splits)

lemma dotted_converted: "into_connection_settings dotted_client = Some (Inr dotted_settings)"
  using example_buildable [OF dotted_client_def] by (simp add: buildable_def)

lemma dotted_key: "from_utf8 (client_private_key (client_tools dotted_client)) \<noteq> None"
  by (simp add: dotted_client_def example_client_def example_key)

theorem validation_predicts_build_witness:
  "\<exists>w' e v'. validate_client_configuration dotted_client client_world = (ok, w') \<and>
     system_connection dotted_settings (client_nft (client_tools dotted_client)) 0 1 2 client_world = (Inl e, v') \<and>
     e = BuildTransport (InvalidConfig ''invalid WireGuard interface name'')"
proof -
  obtain w' where ok: "validate_client_configuration dotted_client client_world = (ok, w')"
    using example_validated [OF dotted_client_def] by blast
  obtain e v' where failed: "system_connection dotted_settings (client_nft (client_tools dotted_client)) 0 1 2 client_world
      = (Inl e, v')" "\<forall>f. e \<noteq> BuildFirewall f"
    using dotted_build by blast
  have "e = BuildTransport (InvalidConfig ''invalid WireGuard interface name'')"
    using validation_predicts_build [OF _ ok _ dotted_converted failed(1)] client_platform_stable failed(2) dotted_key
    by auto
  then show ?thesis using failed(1) ok by blast
qed

text \<open>
  An interface name with a dot takes a lease and passes validation, but the tunnel adapter
  refuses it: the check mode accepts a configuration that can never connect, whatever the platform.
\<close>

lemma dotted_interface_passes_check:
  "valid_interface_name (client_interface dotted_client) \<and>
   (\<exists>w'. validate_client_configuration dotted_client client_world = (ok, w')) \<and>
   (\<forall>v. \<not> is_ok (fst (system_connection dotted_settings nft cr dr nr v)))"
proof -
  have name: "\<not> valid_interface (settings_interface dotted_settings)"
    by (simp add: settings_of_def dotted_client_def valid_interface_def interface_char_def is_ascii_alphanumeric_def
        is_ascii_digit_def)
  have "wp (system_connection dotted_settings nft cr dr nr) (\<lambda>_ _. False) (\<lambda>_ _. True) v" for v
    unfolding system_connection_def with_runners_def Let_def wp_seqE wp_map_err
    by (auto simp: name wp_simps WireGuardAdapter_new_def
        intro!: wp_mono [OF wp_any [of "\<lambda>_ _. True" "\<lambda>_ _. True" "SystemNftablesRunner_new _"]]
        wp_mono [OF wp_any [of "\<lambda>_ _. True" "\<lambda>_ _. True" "LinuxWireGuardBackend_new _ _ _"]]
        split: option.split sum.split)
  then have "\<not> is_ok (fst (system_connection dotted_settings nft cr dr nr v))" for v
    by (rule wp_rejects)
  moreover have "valid_interface_name (client_interface dotted_client)"
    by (simp add: dotted_client_def valid_interface_name_def name_char_def is_ascii_alphanumeric_def is_ascii_digit_def)
  ultimately show ?thesis using example_validated [OF dotted_client_def] by blast
qed

end
