(* ===== verification/Client.thy ===== *)
theory Client
  imports Client_Files
begin

text \<open>
  \<^verbatim>\<open>apps/linux-client\<close>: the life of the client process, \<open>run_until_shutdown\<close> of
  \<^verbatim>\<open>lib.rs\<close> over any managed connection and the program of \<^verbatim>\<open>main.rs\<close>.

  The wait for a shutdown signal ends when the handler has run: it has cancelled the token by
  then.  A client that is never signalled waits forever and is not described by a result.  With
  \<^verbatim>\<open>panic = "abort"\<close> a panic ends the process at once.
\<close>

section \<open>Connections the client can manage\<close>

record 'c ManagedClientConnection =
  client_connect :: "CancellationToken \<Rightarrow> ('c \<times> world, ConnectionError fault, Session) rsm"
  client_disconnect :: "('c \<times> world, ConnectionError, unit) rsm"
  client_disable :: "('c \<times> world, ConnectionError, unit) rsm"

definition linux_client :: "LinuxWireGuardConnection ManagedClientConnection" where
  "linux_client =
     \<lparr>client_connect = connection_connect, client_disconnect = connection_disconnect,
      client_disable = connection_disable\<rparr>"

definition run_until_shutdown ::
  "'c ManagedClientConnection \<Rightarrow> bool \<Rightarrow> CancellationToken \<Rightarrow> (world, ConnectionError fault, unit) rsm
    \<Rightarrow> ('c \<times> world, ConnectionError fault, unit) rsm" where
  "run_until_shutdown ops stay_on token wait_for_shutdown =
     bindE (outcome_of (client_connect ops token)) (\<lambda>connected.
     case connected of
       Inl fault \<Rightarrow>
         (case fault of
            Panic \<Rightarrow> throw Panic
          | Error e \<Rightarrow>
              seqE (if \<not> stay_on then seqE (outcome_of (client_disable ops)) (ret ()) else ret ())
              (throw (Error e)))
     | Inr _ \<Rightarrow>
         seqE (on_world wait_for_shutdown)
         (seqE (map_err Error (client_disconnect ops))
         (if \<not> stay_on then map_err Error (client_disable ops) else ret ())))"

section \<open>The program\<close>

datatype ClientError =
    Usage string
  | ConfigFailed ConfigError
  | LeaseFailed LeaseError
  | ValidationFailed ClientValidationError
  | BuildFailed LinuxConnectionBuildError
  | HandlerFailed string
  | ConnectionFailed ConnectionError

fun ClientError_display :: "ClientError \<Rightarrow> string" where
  "ClientError_display (Usage s) = s"
| "ClientError_display (ConfigFailed e) = ConfigError_display e"
| "ClientError_display (LeaseFailed e) = LeaseError_display e"
| "ClientError_display (ValidationFailed e) = ClientValidationError_display e"
| "ClientError_display (BuildFailed e) = BuildError_display e"
| "ClientError_display (HandlerFailed s) = s"
| "ClientError_display (ConnectionFailed e) = ConnectionError_display e"

definition parse_arguments :: "path list \<Rightarrow> string + bool \<times> path" where
  "parse_arguments argv =
     (case drop 1 argv of
        [] \<Rightarrow> Inl ''usage: cyberia-linux-client /absolute/path/to/client.json''
      | first # others \<Rightarrow>
          (let parsed = (if first = ''--check''
                 then (case others of
                         [] \<Rightarrow> Inl ''usage: cyberia-linux-client --check /absolute/path/to/client.json''
                       | p # extra \<Rightarrow> Inr ((True, p), extra))
                 else Inr ((False, first), others))
           in case parsed of
                Inl e \<Rightarrow> Inl e
              | Inr (result, extra) \<Rightarrow>
                  if extra \<noteq> []
                  then Inl ''usage: cyberia-linux-client [--check] /absolute/path/to/client.json''
                  else Inr result))"

text \<open>Running a method of a fresh local object.\<close>

definition with_object :: "'o \<Rightarrow> ('o \<times> 'w, 'e, 'a) rsm \<Rightarrow> ('w, 'e, 'a) rsm" where
  "with_object x m w = (case m (x, w) of (r, (x', w')) \<Rightarrow> (r, w'))"

definition wait_for_signal :: "CancellationToken \<Rightarrow> (world, 'e, unit) rsm" where
  "wait_for_signal token w = (Inr (), cancel token w)"

definition client_token :: CancellationToken where
  "client_token = 0"

definition client_session :: "ClientConfig \<Rightarrow> (world, ClientError fault, unit) rsm" where
  "client_session config =
     bindE (map_err (map_fault ConfigFailed) (checked_result (into_connection_settings config))) (\<lambda>settings.
     bindE (map_err (Error \<circ> BuildFailed) (system_connection settings (client_nft (client_tools config)) 0 1 2))
       (\<lambda>connection.
     seqE (map_err (Error \<circ> HandlerFailed) set_handler)
     (with_object connection (map_err (map_fault ConnectionFailed)
        (run_until_shutdown linux_client (client_always_on config) client_token (wait_for_signal client_token))))))"

definition client_run :: "json_reader \<Rightarrow> path list \<Rightarrow> (world, ClientError fault, string) rsm" where
  "client_run json argv =
     bindE (map_err (Error \<circ> Usage) (of_result (parse_arguments argv))) (\<lambda>(check_only, config_path).
     bindE (map_err (Error \<circ> ConfigFailed) (load_config json config_path)) (\<lambda>config.
     bindE (map_err (Error \<circ> LeaseFailed)
         (acquire_interface_lease (runtime_directory config) (client_interface config))) (\<lambda>lease.
     if check_only
     then seqE (map_err (map_fault ValidationFailed) (validate_client_configuration config))
            (ret (''cyberia-linux-client: configuration is valid'' @ [newline]))
     else seqE (client_session config) (ret []))))"

datatype process_end = Exited nat string string | Aborted

definition client_main :: "json_reader \<Rightarrow> path list \<Rightarrow> world \<Rightarrow> process_end \<times> world" where
  "client_main json argv w =
     (case client_run json argv w of
        (Inr out, w') \<Rightarrow> (Exited 0 out [], w')
      | (Inl (Error e), w') \<Rightarrow>
          (Exited 1 [] (''cyberia-linux-client: '' @ ClientError_display e @ [newline]), w')
      | (Inl Panic, w') \<Rightarrow> (Aborted, w'))"

lemma wp_with_object [wp_simps]:
  "wp (with_object x m) Q E w = wp m (\<lambda>a t. Q a (snd t)) (\<lambda>e t. E e (snd t)) (x, w)"
  by (simp add: wp_def with_object_def split: prod.splits sum.splits)

lemma wp_wait_for_signal [wp_simps]: "wp (wait_for_signal token) Q E w = Q () (cancel token w)"
  by (simp add: wp_def wait_for_signal_def)

lemma wp_fault_cases [wp_simps]:
  "wp (case f of Panic \<Rightarrow> m | Error e \<Rightarrow> g e) Q E s = (case f of Panic \<Rightarrow> wp m Q E s | Error e \<Rightarrow> wp (g e) Q E s)"
  by (simp split: fault.splits)

section \<open>The contract of a managed connection\<close>

text \<open>
  What the client relies on: an invariant that every call and every signal keeps, the policy it
  reports, and the mode.
\<close>

locale managed_client_contract =
  fixes ops :: "'c ManagedClientConnection" and inv :: "'c \<times> world \<Rightarrow> bool"
    and reported :: "'c \<Rightarrow> TrafficPolicy" and stay_on :: bool
  assumes connect_law: "inv s \<Longrightarrow>
      wp (client_connect ops token) (\<lambda>_ t. inv t \<and> reported (fst t) \<noteq> Disabled) (\<lambda>_. inv) s"
    and disconnect_law: "inv s \<Longrightarrow> reported (fst s) \<noteq> Disabled \<Longrightarrow>
      wp (client_disconnect ops) (\<lambda>_ t. inv t \<and> reported (fst t) = BlockNonTunnel) (\<lambda>_. inv) s"
    and disable_law: "inv s \<Longrightarrow>
      wp (client_disable ops) (\<lambda>_ t. inv t \<and> reported (fst t) = Disabled) (\<lambda>_. inv) s"
    and signal_law: "inv (c, w) \<Longrightarrow> inv (c, cancel token w)"
begin

lemma run_law:
  assumes "inv s"
  shows "wp (run_until_shutdown ops stay_on token (wait_for_signal token'))
    (\<lambda>_ t. inv t \<and> reported (fst t) = (if stay_on then BlockNonTunnel else Disabled)) (\<lambda>_. inv) s"
  using assms unfolding run_until_shutdown_def wp_simps
  by (auto simp: wp_simps signal_law intro!: wp_mono [OF connect_law] wp_mono [OF disconnect_law]
      wp_mono [OF disable_law] split: fault.split)

end

text \<open>The Linux connection keeps the contract, with its mode as part of the invariant.\<close>

definition life_inv :: "runner \<Rightarrow> NftablesConfig \<Rightarrow> bool \<Rightarrow> LinuxWireGuardConnection \<times> world \<Rightarrow> bool" where
  "life_inv r cfg m s \<longleftrightarrow> connection_inv r cfg s \<and> always_on (kill_switch (controller (fst s))) = m"

lemma mode_kept:
  "always (connection_connect token) (\<lambda>t. always_on (kill_switch (controller (fst t))) = always_on (kill_switch (controller (fst s)))) s"
  "always connection_disconnect (\<lambda>t. always_on (kill_switch (controller (fst t))) = always_on (kill_switch (controller (fst s)))) s"
  "always connection_disable (\<lambda>t. always_on (kill_switch (controller (fst t))) = always_on (kill_switch (controller (fst s)))) s"
  by (rule wp_mono [OF identity_steps(2)] wp_mono [OF identity_steps(3)] wp_mono [OF identity_steps(4)];
      simp add: conn_identity_def)+

interpretation linux_life: managed_client_contract linux_client "life_inv r cfg m" connection_policy stay_on
  for r cfg m stay_on
proof unfold_locales
  fix s token
  assume "life_inv r cfg m s"
  then have inv: "connection_inv r cfg s" "always_on (kill_switch (controller (fst s))) = m"
    by (simp_all add: life_inv_def)
  show "wp (client_connect linux_client token) (\<lambda>_ t. life_inv r cfg m t \<and> connection_policy (fst t) \<noteq> Disabled)
      (\<lambda>_. life_inv r cfg m) s"
    unfolding linux_client_def
    using wp_conj [OF connect_step [OF inv(1), of token] mode_kept(1)] inv(2) by (auto simp: life_inv_def elim!: wp_mono)
  show "wp (client_disable linux_client) (\<lambda>_ t. life_inv r cfg m t \<and> connection_policy (fst t) = Disabled)
      (\<lambda>_. life_inv r cfg m) s"
    unfolding linux_client_def
    using wp_conj [OF disable_step [OF inv(1)] mode_kept(3)] inv(2) by (auto simp: life_inv_def elim!: wp_mono)
  assume "connection_policy (fst s) \<noteq> Disabled"
  then show "wp (client_disconnect linux_client) (\<lambda>_ t. life_inv r cfg m t \<and> connection_policy (fst t) = BlockNonTunnel)
      (\<lambda>_. life_inv r cfg m) s"
    unfolding linux_client_def
    using wp_conj [OF disconnect_step [OF inv(1)] mode_kept(2)] inv(2) by (auto simp: life_inv_def elim!: wp_mono)
next
  fix c w token
  assume "life_inv r cfg m (c, w)"
  then show "life_inv r cfg m (c, cancel token w)"
    using conn_step_inv [OF signal, of r cfg c w] by (simp add: life_inv_def)
qed

section \<open>A session\<close>

text \<open>A connection that cannot be built has applied no ruleset.\<close>

lemma nft_apply_rejected:
  "wp (firewall_apply nft_firewall p) (\<lambda>_ _. True)
     (\<lambda>_ t. last_ruleset r (trace (snd t)) = last_ruleset r (trace (snd s))) s"
  unfolding nft_firewall_def NftablesBackend_apply_def
  by (auto simp: wp_simps applied_def split: sum.split)

lemma last_ruleset_quiet: "extends tunnel_event w w' \<Longrightarrow> last_ruleset r (trace w') = last_ruleset r (trace w)"
proof -
  have "last_ruleset r (tr @ evs) = last_ruleset r tr" if "\<forall>ev \<in> set evs. tunnel_event ev" for tr evs
    using that
  proof (induction evs rule: rev_induct)
    case (snoc ev evs)
    then have "applied r ev q = q" for q by (cases ev) (auto simp: applied_def)
    then show ?case using snoc by (simp flip: append_assoc)
  qed simp
  then show "extends tunnel_event w w' \<Longrightarrow> last_ruleset r (trace w') = last_ruleset r (trace w)"
    by (auto simp: extends_def)
qed

lemma build_parts_quiet:
  "onlyW tunnel_event (LinuxWireGuardBackend_new tools r mark)" "onlyW tunnel_event (LinuxDnsBackend_new dtools r)"
  "onlyW tunnel_event (SystemNftablesRunner_new x)"
  unfolding LinuxWireGuardBackend_new_def LinuxDnsBackend_new_def
  by (intro frame_intros; simp)+

lemma wp_quiet_ruleset:
  assumes "onlyW tunnel_event m" and "last_ruleset r (trace w) = L"
  shows "always m (\<lambda>w'. last_ruleset r (trace w') = L) w"
proof -
  have "always m (extends tunnel_event w) w" using assms(1) by (simp add: onlyW_def)
  then show ?thesis by (rule wp_mono) (simp_all add: last_ruleset_quiet assms(2))
qed

lemma build_failure_applies_nothing:
  assumes "last_ruleset r (trace w) = L"
  shows "wp (system_connection settings x cr dr nr) (\<lambda>_ _. True) (\<lambda>_ w'. last_ruleset r (trace w') = L) w"
proof -
  have new: "wp (ConnectionController_new nft_firewall k a f) (\<lambda>_ _. True)
      (\<lambda>_ w'. last_ruleset r (trace w') = L) w'" if "last_ruleset r (trace w') = L" for k f w' and a :: LinuxAdapter
    using nft_apply_rejected [of "policy k" r "(f, w')"] that
    by (auto simp: wp_def ConnectionController_new_def split: prod.splits sum.splits)
  show ?thesis
    using assms unfolding system_connection_def with_runners_def wp_simps Let_def
    by (auto simp: wp_simps intro!: new wp_mono [OF new] wp_mono [OF wp_quiet_ruleset [OF build_parts_quiet(1), where r = r and L = L]]
        wp_mono [OF wp_quiet_ruleset [OF build_parts_quiet(2), where r = r and L = L]]
        wp_mono [OF wp_quiet_ruleset [OF build_parts_quiet(3), where r = r and L = L]]
        split: option.split sum.split)
qed

definition client_firewall :: "ClientConfig \<Rightarrow> NftablesConfig" where
  "client_firewall c = \<lparr>endpoint_address = client_endpoint_address c, endpoint_port = client_endpoint_port c\<rparr>"

text \<open>
  The result of a session: every tunnel command ran filtered; once a ruleset was applied, an
  always-on client ends filtered; and a session that ends without an error ends in the policy of
  its mode.
\<close>

definition session_end :: "ClientConfig \<Rightarrow> bool \<Rightarrow> event list \<Rightarrow> bool" where
  "session_end config completed tr \<longleftrightarrow>
     guarded (in_force 2 (client_firewall config)) tr \<and>
     (last_ruleset 2 tr \<noteq> None \<longrightarrow> (\<exists>p. in_force 2 (client_firewall config) tr p \<and>
        (client_always_on config \<longrightarrow> p \<noteq> Disabled))) \<and>
     (completed \<longrightarrow> in_force 2 (client_firewall config) tr
        (if client_always_on config then BlockNonTunnel else Disabled))"

lemma life_inv_end:
  assumes "life_inv 2 (client_firewall config) (client_always_on config) (c, w)"
  shows "session_end config False (trace w)"
    "connection_policy c = (if client_always_on config then BlockNonTunnel else Disabled) \<Longrightarrow> session_end config True (trace w)"
proof -
  have inv: "connection_inv 2 (client_firewall config) (c, w)" "always_on (kill_switch (controller c)) = client_always_on config"
    using assms by (simp_all add: life_inv_def)
  have "in_force 2 (client_firewall config) (trace w) (connection_policy c)" by (rule connection_invD(1) [OF inv(1)])
  moreover have "guarded (in_force 2 (client_firewall config)) (trace w)"
    "client_always_on config \<longrightarrow> connection_policy c \<noteq> Disabled"
    using inv by (auto simp: connection_inv_def controller_inv_def Let_def connection_policy_def)
  ultimately show "session_end config False (trace w)"
    "connection_policy c = (if client_always_on config then BlockNonTunnel else Disabled) \<Longrightarrow> session_end config True (trace w)"
    by (auto simp: session_end_def)
qed

lemma life_inv_quiet:
  assumes "life_inv r cfg m (c, w)" and "extends (\<lambda>ev. tunnel_event ev \<and> \<not> tunnel_command ev) w w'"
  shows "life_inv r cfg m (c, w')"
  using assms linux_ctl.inv_idle [of r cfg "conn_interface c" "controller c" w w']
  by (auto simp: life_inv_def connection_inv_def)

lemma only_nft_firewall:
  "only (\<lambda>ev. \<not> tunnel_command ev) (firewall_apply nft_firewall p)"
  unfolding nft_firewall_def NftablesBackend_apply_def by (auto intro!: frame_intros simp: tunnel_command_def)

lemma onlyW_controller_new [frame_intros]:
  "onlyW (\<lambda>ev. \<not> tunnel_command ev) (ConnectionController_new nft_firewall k a f)"
  unfolding onlyW_def
proof
  fix w
  have "always (firewall_apply nft_firewall (policy k)) (\<lambda>t. extends (\<lambda>ev. \<not> tunnel_command ev) w (snd t)) (f, w)"
    using only_nft_firewall [of "policy k"] unfolding only_def by (metis snd_conv)
  then show "always (ConnectionController_new nft_firewall k a f) (extends (\<lambda>ev. \<not> tunnel_command ev) w) w"
    by (auto simp: wp_def ConnectionController_new_def split: prod.splits sum.splits)
qed

lemma system_connection_frame: "onlyW (\<lambda>ev. \<not> tunnel_command ev) (system_connection settings x cr dr nr)"
  unfolding system_connection_def with_runners_def Let_def LinuxWireGuardBackend_new_def LinuxDnsBackend_new_def
  by (intro frame_intros; simp add: tunnel_command_def)

lemma guarded_frame:
  assumes "onlyW (\<lambda>ev. \<not> tunnel_command ev) m" and "guarded E (trace w)"
  shows "always m (\<lambda>w'. guarded E (trace w')) w"
proof -
  have "always m (extends (\<lambda>ev. \<not> tunnel_command ev) w) w" using assms(1) by (simp add: onlyW_def)
  then show ?thesis by (rule wp_mono) (use guarded_extends assms(2) in blast)+
qed

lemma session_law:
  assumes "guarded (in_force 2 (client_firewall config)) (trace w)" and "last_ruleset 2 (trace w) = None"
  shows "wp (client_session config) (\<lambda>_ w'. session_end config True (trace w'))
    (\<lambda>_ w'. session_end config False (trace w')) w"
proof -
  let ?cfg = "client_firewall config"
  have idle: "session_end config False (trace w')" if "guarded (in_force 2 ?cfg) (trace w')" "last_ruleset 2 (trace w') = None" for w'
    using that by (simp add: session_end_def)
  have build: "wp (system_connection settings (client_nft (client_tools config)) 0 1 2)
      (\<lambda>c w'. life_inv 2 ?cfg (client_always_on config) (c, w')) (\<lambda>_ w'. session_end config False (trace w')) w"
    if "into_connection_settings config = Some (Inr settings)" for settings
  proof -
    have nft: "settings_nft settings = ?cfg" "settings_always_on settings = client_always_on config"
      using that by (auto elim!: into_connection_settings_ok
          simp: settings_of_def settings_nft_def client_firewall_def parse_show_ip)
    have "onlyW (\<lambda>ev. \<not> tunnel_command ev) (SystemNftablesRunner_new x)" for x
      by (intro frame_intros) (simp add: tunnel_command_def)
    then have quiet: "always (SystemNftablesRunner_new x) (\<lambda>w'. guarded (in_force 2 ?cfg) (trace w')) w" for x
      using assms(1) by (rule guarded_frame)
    have built: "wp (system_connection settings (client_nft (client_tools config)) 0 1 2)
        (\<lambda>c w'. life_inv 2 ?cfg (client_always_on config) (c, w')) (\<lambda>_ _. True) w"
      unfolding system_connection_def wp_simps
      by (intro wp_mono [OF quiet] wp_mono [OF with_runners_law]) (auto simp: nft life_inv_def)
    have kept: "always (system_connection settings (client_nft (client_tools config)) 0 1 2)
        (\<lambda>w'. guarded (in_force 2 ?cfg) (trace w')) w"
      using system_connection_frame assms(1) by (rule guarded_frame)
    from wp_conj [OF wp_conj [OF built kept] build_failure_applies_nothing [OF assms(2)]]
    show ?thesis by (rule wp_mono) (use idle in auto)
  qed
  have handler: "life_inv 2 ?cfg m (c, log_event (SetHandler b) w')" if "life_inv 2 ?cfg m (c, w')" for m c w' b
    using that by (rule life_inv_quiet) (auto intro!: extends_log simp: tunnel_command_def)
  have refused: "session_end config False (trace w' @ [SetHandler b])"
    if "life_inv 2 ?cfg (client_always_on config) (c, w')" for c w' b
    using life_inv_end(1) [OF handler [OF that, of b]] by simp
  have run: "wp (run_until_shutdown linux_client (client_always_on config) client_token (wait_for_signal client_token))
      (\<lambda>_ t. session_end config True (trace (snd t))) (\<lambda>_ t. session_end config False (trace (snd t)))
      (c, log_event (SetHandler True) w')"
    if "life_inv 2 ?cfg (client_always_on config) (c, w')" for c w'
    by (rule wp_mono [OF linux_life.run_law [OF handler [OF that]]]) (use life_inv_end in \<open>auto split: prod.splits\<close>)
  show ?thesis
    unfolding client_session_def wp_simps
    using idle [OF assms] refused run
    by (auto simp: wp_simps simp del: One_nat_def intro!: wp_mono [OF build] split: option.split sum.split)
qed

section \<open>The stages of a run\<close>

text \<open>A run only adds to the history.\<close>

lemma parts_extend:
  "only (\<lambda>_. True) (firewall_apply nft_firewall p)" "only (\<lambda>_. True) (transport_connect linux_transport c d)"
  "only (\<lambda>_. True) (transport_disconnect linux_transport)"
  by (auto simp: adapter_transport_def intro: only_mono [OF only_nft_firewall] only_mono [OF linux_tunnel.adapter_frame(1)]
      only_mono [OF linux_tunnel.adapter_frame(2)])

lemma connection_extends:
  "only (\<lambda>_. True) (connection_connect token)" "only (\<lambda>_. True) connection_disconnect"
  "only (\<lambda>_. True) connection_disable"
  unfolding connection_connect_def connection_disconnect_def connection_disable_def undo_connect_def Let_def
    controller_connect_def controller_disconnect_def controller_disable_def abort_transport_def
  by ((intro frame_intros parts_extend; simp?)+)

lemma onlyW_with_object [frame_intros]: "only P m \<Longrightarrow> onlyW P (with_object x m)"
  by (simp add: only_def onlyW_def wp_simps)

lemma onlyW_wait [frame_intros]: "onlyW P (wait_for_signal token)"
  by (simp add: onlyW_def wp_simps extends_cancel)

lemma only_case_fault [frame_intros]:
  "only P m \<Longrightarrow> (\<And>e. only P (g e)) \<Longrightarrow> only P (case f of Panic \<Rightarrow> m | Error e \<Rightarrow> g e)"
  by (simp split: fault.split)

lemma onlyW_checked_result [frame_intros]: "onlyW P (checked_result r)"
  by (simp add: onlyW_def wp_simps split: option.split sum.split)

lemma client_session_extends: "client_session config w = (q, w') \<Longrightarrow> \<exists>zs. trace w' = trace w @ zs"
proof -
  have "onlyW (\<lambda>_. True) (system_connection settings x cr dr nr)" for settings x cr dr nr
    using system_connection_frame unfolding onlyW_def by (blast intro: wp_mono extends_mono)
  then have "onlyW (\<lambda>_. True) (client_session config)"
    unfolding client_session_def run_until_shutdown_def linux_client_def
    by (intro frame_intros connection_extends; simp add: connection_extends)
  then show "client_session config w = (q, w') \<Longrightarrow> \<exists>zs. trace w' = trace w @ zs"
    using onlyWD by (fastforce simp: extends_def)
qed

text \<open>A run only looks at files, or it loads a configuration, takes its lease and runs a session.\<close>

lemma client_run_stages:
  assumes "client_run json argv w = (r, w')"
  obtains (files) "extends file_event w w'" "\<forall>out. r = Inr out \<longrightarrow> (\<exists>p. parse_arguments argv = Inr (True, p))"
  | (session) p config w1 w2 h q where "parse_arguments argv = Inr (False, p)" "load_config json p w = (Inr config, w1)"
    "acquire_interface_lease (runtime_directory config) (client_interface config) w1 = (Inr h, w2)"
    "client_session config w2 = (q, w')" "is_ok r = is_ok q"
proof -
  note steps = client_run_def bindE_def seqE_def map_err_def of_result_def ret_def
  show ?thesis
  proof (cases "parse_arguments argv")
    case (Inl e)
    then show ?thesis using assms by (intro files) (auto simp: steps)
  next
    case (Inr a)
    obtain check p where a: "a = (check, p)" by fastforce
    obtain lr w1 where load: "load_config json p w = (lr, w1)" by fastforce
    have e1: "extends file_event w w1" by (rule onlyWD [OF client_files_frame(2) load])
    show ?thesis
    proof (cases lr)
      case (Inl e)
      then show ?thesis using assms Inr a load e1 by (intro files) (auto simp: steps)
    next
      case lr: (Inr config)
      obtain ar w2 where lease: "acquire_interface_lease (runtime_directory config) (client_interface config) w1 = (ar, w2)"
        by fastforce
      have e2: "extends file_event w w2" using e1 onlyWD [OF client_files_frame(1) lease] by (rule extends_trans)
      show ?thesis
      proof (cases ar)
        case (Inl e)
        then show ?thesis using assms Inr a load lr lease e2 by (intro files) (auto simp: steps)
      next
        case ar: (Inr h)
        show ?thesis
        proof (cases check)
          case True
          obtain vr w3 where valid: "validate_client_configuration config w2 = (vr, w3)" by fastforce
          have "w' = w3" using assms Inr a load lr lease ar True valid by (simp add: steps split: sum.splits)
          then have "extends file_event w w'"
            using extends_trans [OF e2 onlyWD [OF client_files_frame(3) valid]] by simp
          then show ?thesis using Inr a True by (intro files) simp_all
        next
          case False
          obtain q w3 where q: "client_session config w2 = (q, w3)" by fastforce
          have "w' = w3" "is_ok r = is_ok q"
            using assms Inr a load lr lease ar False q by (auto simp: steps split: sum.splits)
          then show ?thesis using Inr a False load lr lease ar q by (intro session) simp_all
        qed
      qed
    qed
  qed
qed

lemma file_event_quiet: "file_event ev \<Longrightarrow> tunnel_event ev \<and> \<not> tunnel_command ev"
  by (cases ev) (auto simp: file_event_def tunnel_command_def)

lemma last_ruleset_files: "\<forall>ev \<in> set tr. file_event ev \<Longrightarrow> last_ruleset r tr = None"
proof (induction tr rule: rev_induct)
  case (snoc ev tr)
  then show ?case by (cases ev) (auto simp: applied_def file_event_def)
qed (simp add: last_ruleset_def)

section \<open>A run on the example installation\<close>

lemma ruleset_persists:
  assumes "extends P w w'" and "last_ruleset r (trace w) \<noteq> None"
  shows "last_ruleset r (trace w') \<noteq> None"
proof -
  have "last_ruleset r (tr @ evs) \<noteq> None" if "last_ruleset r tr \<noteq> None" for tr evs
  proof (induction evs rule: rev_induct)
    case (snoc ev evs)
    then show ?case
      unfolding append_assoc [symmetric] last_ruleset_snoc by (cases ev) (simp_all add: applied_def)
  qed (use that in simp)
  then show ?thesis using assms by (auto simp: extends_def)
qed

lemma example_lease:
  assumes "os w = client_platform"
  shows "\<exists>w'. acquire_interface_lease ''/run/cyberia'' ''cyberia0'' w = (Inr 0, w') \<and> os w' = client_platform"
proof -
  have "valid_interface_name ''cyberia0''"
    by (simp add: valid_interface_name_def name_char_def is_ascii_alphanumeric_def is_ascii_digit_def)
  then show ?thesis
    using assms
    by (simp add: acquire_interface_lease_def validate_lease_directory_def bindE_def seqE_def reject_if_def throw_def
        ret_def map_err_def try_symlink_metadata_def open_file_def file_metadata_def try_lock_exclusive_def Let_def
        client_platform_def path_is_absolute_def)
qed

lemma example_client_id: "example_client = example_client\<lparr>client_interface := ''cyberia0''\<rparr>"
  by (simp add: example_client_def)

lemmas example_built = example_buildable [OF example_client_id]

lemma example_firewall_accepts:
  assumes "os w = client_platform"
  shows "wp (ConnectionController_new nft_firewall (KillSwitch_enable k) a \<lparr>nft_config = cfg, nft_runner = r\<rparr>)
    (\<lambda>_ w'. last_ruleset r (trace w') \<noteq> None) (\<lambda>_ _. False) w"
  using assms
  by (simp add: wp_def ConnectionController_new_def nft_firewall_def NftablesBackend_apply_def map_err_def bindE_def
      get_self_def of_result_def on_world_def nft_apply_def render_print client_platform_def applied_def Let_def)

lemma example_connection:
  assumes "os w = client_platform"
  shows "wp (system_connection example_client_settings (client_nft (client_tools example_client)) 0 1 2)
    (\<lambda>_ w'. last_ruleset 2 (trace w') \<noteq> None) (\<lambda>_ _. False) w"
proof -
  let ?s = example_client_settings
  have b: "WireGuardConfig_validate (settings_profile ?s) = ok" "DnsConfig_validate (settings_dns ?s) = ok"
    "TransportConfig_validate \<lparr>kind = WireGuard, endpoint = wg_endpoint (settings_profile ?s),
       connect_timeout = settings_connect_timeout ?s\<rparr> = ok"
    "tools_at client_platform (settings_tools ?s)"
    "executable_at client_platform (tool_resolvectl (settings_dns_tools ?s))"
    "executable_at client_platform (client_nft (client_tools example_client))"
    using example_built by (simp_all add: buildable_def)
  have parse: "parse_ip (host (wg_endpoint (settings_profile ?s))) = Some (V6 1)"
    using parse_show_ip [of "V6 1"] by (simp add: settings_of_def example_client_def)
  have names: "valid_interface (settings_interface ?s)" "from_utf8 (private_key (settings_tools ?s)) \<noteq> None"
    by (simp_all add: settings_of_def example_client_def example_key valid_interface_def interface_char_def
        is_ascii_alphanumeric_def is_ascii_digit_def)
  show ?thesis
    unfolding system_connection_def with_runners_def LinuxWireGuardBackend_new_def LinuxDnsBackend_new_def
      WireGuardAdapter_new_def wp_seqE wp_map_err
    by (rule wp_mono [OF tools_accepted(3) [OF client_platform_stable assms b(6)]])
      (use names in \<open>auto simp: parse b Let_def NftablesBackend_new_def wp_throw wp_seqE wp_bindE wp_map_err wp_of_result wp_ret wp_reject_if
        intro!: wp_mono [OF tools_accepted(1) [OF client_platform_stable _ b(4)]]
          wp_mono [OF tools_accepted(2) [OF client_platform_stable _ b(5)]] wp_mono [OF example_firewall_accepts]\<close>)
qed

lemma example_session:
  assumes "os w = client_platform"
  shows "always (client_session example_client) (\<lambda>w'. last_ruleset 2 (trace w') \<noteq> None) w"
proof -
  have run: "always (run_until_shutdown linux_client s token (wait_for_signal token))
      (\<lambda>t. extends (\<lambda>_. True) w' (snd t)) (c, w')" for s token c w'
  proof -
    have "only (\<lambda>_. True) (run_until_shutdown linux_client s token (wait_for_signal token))"
      unfolding run_until_shutdown_def linux_client_def by (intro frame_intros connection_extends; simp add: connection_extends)
    then show ?thesis unfolding only_def by (metis snd_conv)
  qed
  have handler: "last_ruleset 2 (trace v @ [SetHandler b]) = Some rules" if "last_ruleset 2 (trace v) = Some rules" for v b rules
    using that by (simp add: applied_def)
  have kept: "\<exists>rules'. last_ruleset 2 (trace t) = Some rules'"
    if "last_ruleset 2 (trace v) = Some rules" "extends (\<lambda>_. True) (log_event (SetHandler b) v) t" for v t b rules
    using ruleset_persists [OF that(2), of 2] handler [OF that(1), of b] by simp
  show ?thesis
    unfolding client_session_def wp_simps example_client_settings
    by (auto simp: wp_simps simp del: One_nat_def last_ruleset_snoc intro: handler kept
        intro!: wp_mono [OF example_connection [OF assms]] wp_mono [OF run] split: sum.split)
qed

abbreviation example_arguments :: "path list" where
  "example_arguments \<equiv> [''cyberia-linux-client'', ''/etc/cyberia/client.json'']"

text \<open>On the example installation a run gets as far as its blocking ruleset, whatever comes after.\<close>

lemma client_example_run:
  obtains x w' where "client_main example_json example_arguments client_world = (x, w')" "last_ruleset 2 (trace w') \<noteq> None"
proof -
  obtain w1 where w1: "load_config example_json ''/etc/cyberia/client.json'' client_world = (Inr example_client, w1)"
    using example_loaded by blast
  have "os w1 = client_platform" using onlyWD [OF client_files_frame(2) w1] by (simp add: extends_def)
  then obtain w2 where w2: "acquire_interface_lease ''/run/cyberia'' ''cyberia0'' w1 = (Inr 0, w2)" "os w2 = client_platform"
    using example_lease by blast
  obtain q w3 where q: "client_session example_client w2 = (q, w3)" by fastforce
  have applied: "last_ruleset 2 (trace w3) \<noteq> None"
    using example_session [OF w2(2)] q by (cases q) (auto simp: wp_def)
  have names: "runtime_directory example_client = ''/run/cyberia''" "client_interface example_client = ''cyberia0''"
    by (simp_all add: example_client_def)
  have "\<exists>r. client_run example_json example_arguments client_world = (r, w3)"
    using w1 w2 q by (cases q)
      (simp_all add: client_run_def bindE_def seqE_def map_err_def of_result_def parse_arguments_def ret_def names)
  then obtain r where "client_run example_json example_arguments client_world = (r, w3)" by blast
  then have "\<exists>x. client_main example_json example_arguments client_world = (x, w3)"
    by (auto simp: client_main_def split: sum.split fault.split)
  then show ?thesis using that applied by blast
qed

section \<open>Properties\<close>

text \<open>
  C1. The client is fail secure, over any platform, configuration and signal: a run either only
  looked at files, or it ran with a configuration read from the file it was given, and then every
  tunnel command ran under a filtering ruleset of that configuration; once a ruleset was applied
  an always-on client ends the process filtered, on every error and panic; and an exit with
  status 0 leaves exactly the blocking ruleset when always-on, and the open one otherwise.
\<close>

theorem client_fail_secure:
  assumes "trace w = []" and "client_main json argv w = (x, w')"
  shows "(\<forall>ev \<in> set (trace w'). file_event ev) \<or>
    (\<exists>p config. parse_arguments argv = Inr (False, p) \<and> loaded_from json w p config \<and>
       session_end config (\<exists>out err. x = Exited 0 out err) (trace w'))"
proof -
  obtain r where run: "client_run json argv w = (r, w')" and code: "(\<exists>out err. x = Exited 0 out err) = is_ok r"
    using assms(2) by (auto simp: client_main_def split: prod.splits sum.splits fault.splits)
  from run show ?thesis
  proof (cases rule: client_run_stages)
    case files
    then show ?thesis using assms(1) by (auto simp: extends_def)
  next
    case (session p config w1 w2 h q)
    have quiet: "extends file_event w w2"
      using extends_trans [OF onlyWD [OF client_files_frame(2) session(2)] onlyWD [OF client_files_frame(1) session(3)]] .
    have "last_ruleset 2 (trace w2) = None"
      using last_ruleset_quiet [of w w2 2] extends_mono [OF quiet] file_event_quiet assms(1) by (simp add: last_ruleset_def)
    moreover have "guarded (in_force 2 (client_firewall config)) (trace w2)"
      by (rule guarded_extends [OF extends_mono [OF quiet]]) (simp_all add: file_event_quiet assms(1) guarded_def)
    ultimately have "session_end config (is_ok q) (trace w')"
      using session_law session(4) by (cases q) (fastforce simp: wp_def)+
    moreover have "loaded_from json w p config" using wp_OkD [OF load_config_law session(2)] by simp
    ultimately show ?thesis using session(1,5) code by auto
  qed
qed

theorem client_fail_secure_witness:
  "\<exists>x w' config. client_main example_json example_arguments client_world = (x, w') \<and>
     last_ruleset 2 (trace w') \<noteq> None \<and> session_end config (\<exists>out err. x = Exited 0 out err) (trace w')"
proof -
  obtain x w' where run: "client_main example_json example_arguments client_world = (x, w')"
    and applied: "last_ruleset 2 (trace w') \<noteq> None" by (rule client_example_run)
  have "\<not> (\<forall>ev \<in> set (trace w'). file_event ev)"
    using applied last_ruleset_files [of "trace w'" 2] by argo
  then obtain config where "session_end config (\<exists>out err. x = Exited 0 out err) (trace w')"
    using client_fail_secure [OF client_world_simps(2) run] by blast
  with run applied show ?thesis by blast
qed

text \<open>
  C34. The check mode touches nothing: whatever the configuration and the platform, a run with
  \<^verbatim>\<open>--check\<close> only reads file metadata, opens its configuration for reading and its own lock
  file, and takes the lock.  It runs no command, applies no ruleset and installs no handler.
\<close>

theorem check_mode_touches_nothing:
  assumes "parse_arguments argv = Inr (True, p)" and "client_main json argv w = (x, w')"
  shows "extends file_event w w' \<and> (\<forall>r. last_ruleset r (trace w') = last_ruleset r (trace w))"
proof -
  obtain r where run: "client_run json argv w = (r, w')"
    using assms(2) by (auto simp: client_main_def split: prod.splits sum.splits fault.splits)
  then have "extends file_event w w'"
    by (cases rule: client_run_stages) (use assms(1) in auto)
  then show ?thesis using last_ruleset_quiet extends_mono file_event_quiet by blast
qed

theorem check_mode_touches_nothing_witness:
  "\<exists>x w'. client_main example_json [''cyberia-linux-client'', ''--check'', ''/etc/cyberia/client.json''] client_world = (x, w') \<and>
     extends file_event client_world w'"
proof -
  obtain x w' where run: "client_main example_json [''cyberia-linux-client'', ''--check'', ''/etc/cyberia/client.json'']
    client_world = (x, w')" by fastforce
  have "parse_arguments [''cyberia-linux-client'', ''--check'', ''/etc/cyberia/client.json''] =
    Inr (True, ''/etc/cyberia/client.json'')" by (simp add: parse_arguments_def)
  from check_mode_touches_nothing [OF this run] run show ?thesis by blast
qed

text \<open>
  C33. The client acts under its lease only: in any run of the program, every interaction other than
  the file accesses above (each command, each ruleset, each reading of the clock) happens after a
  lock was granted in that run.
\<close>

theorem client_acts_under_lease:
  assumes "client_main json argv w = (x, w')" and "trace w' = trace w @ evs"
    and "n < length evs" and "\<not> file_event (evs ! n)"
  shows "\<exists>k < n. \<exists>h. evs ! k = LockFile h True"
proof -
  obtain r where run: "client_run json argv w = (r, w')"
    using assms(1) by (auto simp: client_main_def split: prod.splits sum.splits fault.splits)
  then show ?thesis
  proof (cases rule: client_run_stages)
    case files
    then show ?thesis using assms(2-4) by (auto simp: extends_def)
  next
    case (session p config w1 w2 h q)
    obtain us where us: "trace w1 = trace w @ us" "\<forall>ev \<in> set us. file_event ev"
      using onlyWD [OF client_files_frame(2) session(2)] by (auto simp: extends_def)
    let ?vs = "[ReadMetadata (runtime_directory config),
      OpenFile (path_join (runtime_directory config) (lock_name (client_interface config))) lock_options True,
      FileMetadata h, LockFile h True]"
    have vs: "trace w2 = trace w1 @ ?vs" using wp_OkD [OF acquire_law session(3)] by auto
    obtain zs where "trace w' = trace w2 @ zs" using client_session_extends [OF session(4)] by blast
    then have evs: "evs = us @ ?vs @ zs" using assms(2) us(1) vs by simp
    have "length us + 3 < n"
    proof (rule ccontr)
      assume "\<not> length us + 3 < n"
      then have n: "n < length (us @ ?vs)" by simp
      have "evs ! n = (us @ ?vs) ! n" using nth_append_left [OF n, of zs] by (simp add: evs)
      then have "evs ! n \<in> set (us @ ?vs)" using nth_mem [OF n] by metis
      then show False using us(2) assms(4) by auto
    qed
    then show ?thesis by (intro exI [of _ "length us + 3"]) (auto simp: evs nth_append)
  qed
qed

theorem client_acts_under_lease_witness:
  "\<exists>x w' n k h. client_main example_json example_arguments client_world = (x, w') \<and>
     \<not> file_event (trace w' ! n) \<and> k < n \<and> trace w' ! k = LockFile h True"
proof -
  obtain x w' where run: "client_main example_json example_arguments client_world = (x, w')"
    and applied: "last_ruleset 2 (trace w') \<noteq> None" by (rule client_example_run)
  then obtain n where n: "n < length (trace w')" "\<not> file_event (trace w' ! n)"
    using last_ruleset_files in_set_conv_nth by metis
  have "trace w' = trace client_world @ trace w'" by simp
  from client_acts_under_lease [OF run this n] run n show ?thesis by blast
qed

end
