(* ===== verification/Spec2Isabelle.thy ===== *)
theory Spec2Isabelle
  imports Selector Backoff Linux_Managed_Node Linux_Lifecycle Client
begin

text \<open>
  \<^bold>\<open>Cyberia VPN: the Rust workspace\<close>

  The workspace has three library crates and one program.  \<^verbatim>\<open>core/transport\<close> holds the
  tunnel vocabulary, the WireGuard adapter and the Linux backends that run \<^verbatim>\<open>ip\<close>,
  \<^verbatim>\<open>wg\<close>, \<^verbatim>\<open>resolvectl\<close> and \<^verbatim>\<open>nft\<close>; \<^verbatim>\<open>core/killswitch\<close> couples a
  tunnel with a firewall so that traffic never leaves unfiltered; \<^verbatim>\<open>core/routing\<close> scores
  and selects nodes and spaces reconnects; \<^verbatim>\<open>apps/linux-client\<close> is the client process.
  A client process loads its configuration, takes the lock of its interface, builds a connection
  (controller, adapter, backend, firewall, resolver), connects, waits for a signal and tears down.
  A node composes an interface with peers and a forwarding gateway.

  \<^bold>\<open>How code becomes definitions\<close>

  A method with \<^verbatim>\<open>&mut self\<close> that returns a \<^verbatim>\<open>Result\<close> is a function from a state
  to a sum and a new state (\<open>rsm\<close> of \<open>Prelude\<close>): an early return or \<^verbatim>\<open>?\<close> is
  \<open>throw\<close> or \<open>bindE\<close>, a discarded result is \<open>outcome_of\<close>.  The state is the object and the
  \<open>world\<close> of \<open>Platform\<close>: the history of interactions, the cancelled tokens and a platform
  whose replies are arbitrary functions of the history.  So a theorem over all worlds covers every
  failure of every command, file access and lock, every clock and every moment of a signal.  What
  the kernel or the firewall holds is read off the history by the component that says so.
  Panics are the constructor \<open>Panic\<close> of \<open>fault\<close>, or \<open>None\<close> in pure code.  Machine integers
  keep their width as words; durations and instants are natural numbers of nanoseconds with their
  limits written out.  Strings and paths are their bytes.  There is no fuel: loops are structural
  recursion or have a termination proof, and the one wait that can last forever, the client's wait
  for a signal, is described from the signal on.

  \<^bold>\<open>Theories\<close>

  \<^descr> \<open>Prelude\<close>, \<open>Platform\<close>: the monad and its weakest preconditions (\<open>wp\<close>, \<open>wp_simps\<close>),
    frames (\<open>only\<close>, \<open>frame_intros\<close>: which interactions an operation may have), the platform.
  \<^descr> \<open>Rust_Std\<close>, \<open>Net_Addr\<close>, \<open>Net_Addr_Roundtrip\<close>: the standard library the sources use:
    UTF-8, trimming, number parsing and printing, durations, addresses with their text, and that
    an address reads back from its text.
  \<^descr> \<open>Errors\<close>, \<open>Transport\<close>: \<^verbatim>\<open>transport/src/lib.rs\<close> and the error types with texts.
  \<^descr> \<open>WireGuard_Config\<close>, \<open>WireGuard_Adapter\<close>: \<^verbatim>\<open>transport/src/wireguard.rs\<close>.  Accepted
    gateway policies have disjoint networks and match the interface, without panics.  The locale
    \<open>wireguard_backend\<close> is the backend trait with its laws, the adapter is verified inside it.
  \<^descr> \<open>Linux_Tools\<close>, \<open>Key_Encoding\<close>, \<open>Linux_Backend\<close>, \<open>Linux_Ownership\<close>, \<open>Linux_Dns\<close>:
    \<^verbatim>\<open>transport/src/linux.rs\<close>, the client side.  \<open>Linux_Ownership\<close> reads the multiset of
    live links and policy rules off the successful commands and shows that setup, rollback and
    teardown account for it; it interprets \<open>wireguard_backend\<close>.
  \<^descr> \<open>Linux_Gateway\<close>, \<open>Linux_Node\<close>, \<open>Linux_Managed_Node\<close>: the same file, the server side:
    the forwarding table, the peers and routes, and their composition.  Forwarding is in force
    only while the link exists, recorded peers are the configured ones.
  \<^descr> \<open>KillSwitch\<close>, \<open>Controller\<close>: \<^verbatim>\<open>killswitch/src/lib.rs\<close>.  The locales
    \<open>firewall_contract\<close> and \<open>transport_contract\<close> are the two traits, \<open>controller_contract\<close>
    joins them and proves the controller's invariant once for all of them.
  \<^descr> \<open>Nftables\<close>: \<^verbatim>\<open>killswitch/src/linux.rs\<close>, the exact rulesets; interprets
    \<open>firewall_contract\<close>.
  \<^descr> \<open>Linux_Connection\<close>, \<open>Linux_Lifecycle\<close>: \<^verbatim>\<open>killswitch/src/linux_connection.rs\<close>.
    Every adapter over a backend that keeps its laws is a transport (a sublocale), the controller
    is interpreted on the Linux adapter and nftables, and the invariant holds in every reachable
    state.  \<open>Linux_Lifecycle\<close> states what a connection promises as an abstract machine of three
    observable facts and shows that the code refines it.
  \<^descr> \<open>Routing\<close>, \<open>Selector\<close>, \<open>Backoff\<close>: \<^verbatim>\<open>routing/src\<close>: the score equals the exact
    weighted average, selection is optimal and independent of order, the selector's dwell time,
    margin and circuit breaker, and the backoff equals a reference on unbounded numbers.
  \<^descr> \<open>Client_Config\<close>, \<open>Client_Files\<close>, \<open>Client\<close>: \<^verbatim>\<open>linux-client/src\<close>: the conversion of
    the configuration, its file and the lease, and the process.  The locale
    \<open>managed_client_contract\<close> is the trait of a managed connection; \<open>run_until_shutdown\<close> is
    verified inside it and interpreted on the Linux connection.

  \<^bold>\<open>What is shown\<close>

  From the top down.  A run of the client is fail secure (\<open>Client\<close>): every tunnel command runs
  under a filtering ruleset of the configuration that was read, and once a ruleset was accepted
  the process ends filtered when it is always-on; it acts only under its lease, and its check mode only looks at files.  Below it,
  the connection reports the ruleset that is in force in every reachable state, refines its life
  cycle, and accounts for links, rules and resolver state on success and failure.  The node keeps
  kernel, record and forwarding table in step, and a start that fails leaves no new link in the
  kernel unless its error says that the cleanup failed.  Below those, validators accept exactly well-formed
  input, texts read back, and arithmetic at its width equals the exact reference.  Where the code
  does something it does not mean to, a theorem states it: \<open>partial_teardown_is_stuck\<close>,
  \<open>managed_stop_stuck\<close>, \<open>multibyte_key_panics\<close>, \<open>circuit_fails_open_on_overflow\<close>, and the
  lemmas \<open>dotted_interface_passes_check\<close>, \<open>signed_key_accepted\<close> and
  \<open>duplicate_ids_select_unavailable\<close>.

  The properties on concrete platforms use \<open>calm_platform\<close> (every command succeeds) and
  \<open>client_platform\<close> (the same with the files of an installation).

  \<^bold>\<open>Not modelled\<close>

  The Go service under \<^verbatim>\<open>services/control-api\<close> and the scripts under \<^verbatim>\<open>tests/e2e\<close> are
  separate programs.  JSON decoding (\<^verbatim>\<open>serde_json\<close>) is a parameter of the client, as is the
  operating system behind the platform: process creation, what \<^verbatim>\<open>nft\<close> and \<^verbatim>\<open>ip\<close> do with
  accepted input beyond the effects read off the history, and file locks of other processes.  The
  release of the lock at process exit and output errors of \<^verbatim>\<open>println!\<close> are not described.
  Derived \<^verbatim>\<open>Debug\<close> and \<^verbatim>\<open>Clone\<close> code is modelled only where its text is used; the
  accessors \<^verbatim>\<open>policy\<close>, \<^verbatim>\<open>transport\<close> and \<^verbatim>\<open>transport_mut\<close> are the record
  fields.  The private copies of \<^verbatim>\<open>valid_interface\<close> in \<^verbatim>\<open>wireguard.rs\<close> and
  \<^verbatim>\<open>killswitch/src/linux.rs\<close> have the bodies of the ones modelled as \<open>valid_interface\<close> and
  \<open>valid_tunnel_interface\<close>.
\<close>

end
